theory Spec2Isabelle
  imports Main "HOL-Library.Word" "HOL-Library.Signed_Division"
begin

unbundle bit_operations_syntax

section \<open>The sound processing unit of spu.cpp\<close>

text \<open>
  A shallow embedding of \<^verbatim>\<open>Spu::getSamples\<close>, \<^verbatim>\<open>Spu::runSample\<close> and the
  register writes of \<^verbatim>\<open>src/src/spu.cpp\<close>. The member arrays of the class
  (\<^verbatim>\<open>soundCnt[16]\<close>, \<^verbatim>\<open>adpcmValue[16]\<close>, \<^verbatim>\<open>dutyCycles[6]\<close>, ...) are functions
  from the array index; the loops of \<^verbatim>\<open>runSample\<close> only use indices inside the arrays.
  Unsigned members are words of their width. The signed members (\<^verbatim>\<open>int32_t\<close>,
  \<^verbatim>\<open>int\<close>) and the \<^verbatim>\<open>int64_t\<close> locals are mathematical integers: signed overflow
  is undefined in C++, and lemma \<open>adpcm_step_fits_int32\<close> shows that the ADPCM
  arithmetic stays inside 32 bits on every state the invariant allows.
\<close>

type_synonym u8 = "8 word"
type_synonym u16 = "16 word"
type_synonym u32 = "32 word"

subsection \<open>The memory collaborator\<close>

text \<open>
  Modelled from the spec: the class \<^verbatim>\<open>Memory\<close> (memory.h) is not among the sources.
  The spec gives its interface as \<^verbatim>\<open>read(width, address) -> value\<close>, a
  side-effect-free byte, half-word or word read from an external address space; the
  address space is a function from addresses to bytes and wider reads are little-endian,
  as on the emulated machine.
\<close>

type_synonym memory = "u32 \<Rightarrow> u8"

definition read_u8 :: "memory \<Rightarrow> u32 \<Rightarrow> u8" where
  "read_u8 mem a = mem a"

definition read_s8 :: "memory \<Rightarrow> u32 \<Rightarrow> int" where
  "read_s8 mem a = sint (mem a)"

definition read_u16 :: "memory \<Rightarrow> u32 \<Rightarrow> u16" where
  "read_u16 mem a = ucast (mem a) OR push_bit 8 (ucast (mem (a + 1)))"

definition read_s16 :: "memory \<Rightarrow> u32 \<Rightarrow> int" where
  "read_s16 mem a = sint (read_u16 mem a)"

definition read_u32 :: "memory \<Rightarrow> u32 \<Rightarrow> u32" where
  "read_u32 mem a =
     ucast (mem a) OR push_bit 8 (ucast (mem (a + 1)))
       OR push_bit 16 (ucast (mem (a + 2))) OR push_bit 24 (ucast (mem (a + 3)))"

subsection \<open>Constants\<close>

text \<open>
  Modelled from the spec: the macro \<^verbatim>\<open>BIT\<close> of defines.h is not among the sources;
  \<^verbatim>\<open>BIT(i)\<close> is the word with only bit \<open>i\<close> set (the spec's "bit 31 of SOUNDCNT").
\<close>

definition BIT :: "nat \<Rightarrow> 'a::len word" where
  "BIT i = push_bit i 1"

definition indexTable :: "int list" where
  "indexTable = [-1, -1, -1, -1, 2, 4, 6, 8]"

definition adpcmTable :: "int list" where
  "adpcmTable =
    [0x0007, 0x0008, 0x0009, 0x000A, 0x000B, 0x000C, 0x000D, 0x000E, 0x0010, 0x0011, 0x0013, 0x0015,
     0x0017, 0x0019, 0x001C, 0x001F, 0x0022, 0x0025, 0x0029, 0x002D, 0x0032, 0x0037, 0x003C, 0x0042,
     0x0049, 0x0050, 0x0058, 0x0061, 0x006B, 0x0076, 0x0082, 0x008F, 0x009D, 0x00AD, 0x00BE, 0x00D1,
     0x00E6, 0x00FD, 0x0117, 0x0133, 0x0151, 0x0173, 0x0198, 0x01C1, 0x01EE, 0x0220, 0x0256, 0x0292,
     0x02D4, 0x031C, 0x036C, 0x03C3, 0x0424, 0x048E, 0x0502, 0x0583, 0x0610, 0x06AB, 0x0756, 0x0812,
     0x08E0, 0x09C3, 0x0ABD, 0x0BD0, 0x0CFF, 0x0E4C, 0x0FBA, 0x114C, 0x1307, 0x14EE, 0x1706, 0x1954,
     0x1BDC, 0x1EA5, 0x21B6, 0x2515, 0x28CA, 0x2CDF, 0x315B, 0x364B, 0x3BB9, 0x41B2, 0x4844, 0x4F7E,
     0x5771, 0x602F, 0x69CE, 0x7462, 0x7FFF]"

subsection \<open>The state of the class\<close>

record spu =
  bufferIn :: "u32 list"
  bufferOut :: "u32 list"
  bufferSize :: nat
  bufferPointer :: nat
  ready :: bool
  adpcmValue :: "nat \<Rightarrow> int"
  adpcmLoopValue :: "nat \<Rightarrow> int"
  adpcmIndex :: "nat \<Rightarrow> int"
  adpcmLoopIndex :: "nat \<Rightarrow> int"
  adpcmToggle :: "nat \<Rightarrow> bool"
  dutyCycles :: "nat \<Rightarrow> int"
  noiseValues :: "nat \<Rightarrow> u16"
  soundCurrent :: "nat \<Rightarrow> u32"
  soundTimers :: "nat \<Rightarrow> u16"
  soundCnt :: "nat \<Rightarrow> u32"
  soundSad :: "nat \<Rightarrow> u32"
  soundTmr :: "nat \<Rightarrow> u16"
  soundPnt :: "nat \<Rightarrow> u16"
  soundLen :: "nat \<Rightarrow> u32"
  mainSoundCnt :: u16
  soundBias :: u16

text \<open>
  The in-class initialisers of spu.h: null buffers of size 0 and every register 0. The
  flag \<^verbatim>\<open>ready\<close> has no initialiser there, so its first value is a parameter.
\<close>

definition spu_init :: "bool \<Rightarrow> spu" where
  "spu_init r =
     \<lparr> bufferIn = [], bufferOut = [], bufferSize = 0, bufferPointer = 0, ready = r,
       adpcmValue = (\<lambda>_. 0), adpcmLoopValue = (\<lambda>_. 0),
       adpcmIndex = (\<lambda>_. 0), adpcmLoopIndex = (\<lambda>_. 0), adpcmToggle = (\<lambda>_. False),
       dutyCycles = (\<lambda>_. 0), noiseValues = (\<lambda>_. 0),
       soundCurrent = (\<lambda>_. 0), soundTimers = (\<lambda>_. 0),
       soundCnt = (\<lambda>_. 0), soundSad = (\<lambda>_. 0), soundTmr = (\<lambda>_. 0),
       soundPnt = (\<lambda>_. 0), soundLen = (\<lambda>_. 0), mainSoundCnt = 0, soundBias = 0 \<rparr>"

subsection \<open>Fields of the channel control word\<close>

definition enabled :: "spu \<Rightarrow> nat \<Rightarrow> bool" where
  "enabled s i = (soundCnt s i AND BIT 31 \<noteq> 0)"

definition format_of :: "u32 \<Rightarrow> nat" where
  "format_of cnt = unat (drop_bit 29 (cnt AND 0x60000000))"

definition loop_point :: "spu \<Rightarrow> nat \<Rightarrow> u32" where
  "loop_point s i = soundSad s i + ucast (soundPnt s i) * 4"

definition end_point :: "spu \<Rightarrow> nat \<Rightarrow> u32" where
  "end_point s i = soundSad s i + (ucast (soundPnt s i) + soundLen s i) * 4"

subsection \<open>runSample: reading the sample of a channel\<close>

definition read_data :: "memory \<Rightarrow> nat \<Rightarrow> nat \<Rightarrow> spu \<Rightarrow> int" where
  "read_data mem i format s =
     (if format = 0 then read_s8 mem (soundCurrent s i) * 2 ^ 8
      else if format = 1 then read_s16 mem (soundCurrent s i)
      else if format = 2 then adpcmValue s i
      else if 8 \<le> i \<and> i \<le> 13 then
        (let duty = uint (7 - drop_bit 24 (soundCnt s i AND 0x07000000))
         in if dutyCycles s (i - 8) < duty then - 0x7FFF else 0x7FFF)
      else if 14 \<le> i then
        (if noiseValues s (i - 14) AND BIT 15 \<noteq> 0 then - 0x7FFF else 0x7FFF)
      else 0)"

subsection \<open>runSample: one timer reload\<close>

text \<open>The ADPCM case of the switch inside the reload loop (lines 184 to 224).\<close>

definition adpcm_nibble :: "memory \<Rightarrow> nat \<Rightarrow> spu \<Rightarrow> u8" where
  "adpcm_nibble mem i s =
     (let adpcmData = read_u8 mem (soundCurrent s i)
      in if adpcmToggle s i then drop_bit 4 (adpcmData AND 0xF0) else adpcmData AND 0x0F)"

definition adpcm_diff :: "int \<Rightarrow> u8 \<Rightarrow> int" where
  "adpcm_diff idx adpcmData =
     (let diff = (adpcmTable ! nat idx) sdiv 8;
          diff = (if adpcmData AND BIT 0 \<noteq> 0 then diff + (adpcmTable ! nat idx) sdiv 4 else diff);
          diff = (if adpcmData AND BIT 1 \<noteq> 0 then diff + (adpcmTable ! nat idx) sdiv 2 else diff);
          diff = (if adpcmData AND BIT 2 \<noteq> 0 then diff + (adpcmTable ! nat idx) sdiv 1 else diff)
      in diff)"

definition adpcm_apply :: "int \<Rightarrow> int \<Rightarrow> u8 \<Rightarrow> int" where
  "adpcm_apply v diff adpcmData =
     (if adpcmData AND BIT 3 \<noteq> 0 then
        (let v = v + diff in if v > 0x7FFF then 0x7FFF else v)
      else
        (let v = v - diff in if v < - 0x7FFF then - 0x7FFF else v))"

definition adpcm_next_index :: "int \<Rightarrow> u8 \<Rightarrow> int" where
  "adpcm_next_index idx adpcmData =
     (let idx = idx + indexTable ! unat (adpcmData AND 0x7);
          idx = (if idx < 0 then 0 else idx);
          idx = (if idx > 88 then 88 else idx)
      in idx)"

definition adpcm_step :: "memory \<Rightarrow> nat \<Rightarrow> spu \<Rightarrow> spu" where
  "adpcm_step mem i s =
     (let adpcmData = adpcm_nibble mem i s;
          diff = adpcm_diff (adpcmIndex s i) adpcmData;
          s = s\<lparr>adpcmValue := (adpcmValue s)(i := adpcm_apply (adpcmValue s i) diff adpcmData)\<rparr>;
          s = s\<lparr>adpcmIndex := (adpcmIndex s)(i := adpcm_next_index (adpcmIndex s i) adpcmData)\<rparr>;
          s = s\<lparr>adpcmToggle := (adpcmToggle s)(i := \<not> adpcmToggle s i)\<rparr>;
          s = (if \<not> adpcmToggle s i
               then s\<lparr>soundCurrent := (soundCurrent s)(i := soundCurrent s i + 1)\<rparr> else s)
      in if soundCurrent s i = loop_point s i \<and> \<not> adpcmToggle s i
         then s\<lparr>adpcmLoopValue := (adpcmLoopValue s)(i := adpcmValue s i),
                adpcmLoopIndex := (adpcmLoopIndex s)(i := adpcmIndex s i)\<rparr>
         else s)"

text \<open>The pulse and noise case of the switch (lines 226 to 245).\<close>

definition noise_step :: "u16 \<Rightarrow> u16" where
  "noise_step n =
     (let n = n AND NOT (BIT 15)
      in if n AND BIT 0 \<noteq> 0 then BIT 15 OR (drop_bit 1 n XOR 0x6000) else drop_bit 1 n)"

definition psg_step :: "nat \<Rightarrow> spu \<Rightarrow> spu" where
  "psg_step i s =
     (if 8 \<le> i \<and> i \<le> 13 then
        s\<lparr>dutyCycles := (dutyCycles s)(i - 8 := (dutyCycles s (i - 8) + 1) smod 8)\<rparr>
      else if 14 \<le> i then
        s\<lparr>noiseValues := (noiseValues s)(i - 14 := noise_step (noiseValues s (i - 14)))\<rparr>
      else s)"

text \<open>The switch on the format inside the reload loop.\<close>

definition advance :: "memory \<Rightarrow> nat \<Rightarrow> nat \<Rightarrow> spu \<Rightarrow> spu" where
  "advance mem i format s =
     (if format = 0 \<or> format = 1 then
        s\<lparr>soundCurrent := (soundCurrent s)(i := soundCurrent s i + 1 + of_nat format)\<rparr>
      else if format = 2 then adpcm_step mem i s
      else psg_step i s)"

text \<open>Repeat or end the sound when the end of the data is reached (lines 248 to 267).\<close>

definition end_of_data :: "nat \<Rightarrow> nat \<Rightarrow> spu \<Rightarrow> spu" where
  "end_of_data i format s =
     (if format \<noteq> 3 \<and> soundCurrent s i = end_point s i then
        (if drop_bit 27 (soundCnt s i AND 0x18000000) = 1 then
           (let s = s\<lparr>soundCurrent := (soundCurrent s)(i := loop_point s i)\<rparr>
            in if format = 2 then
                 s\<lparr>adpcmValue := (adpcmValue s)(i := adpcmLoopValue s i),
                   adpcmIndex := (adpcmIndex s)(i := adpcmLoopIndex s i),
                   adpcmToggle := (adpcmToggle s)(i := False)\<rparr>
               else s)
         else s\<lparr>soundCnt := (soundCnt s)(i := soundCnt s i AND NOT (BIT 31))\<rparr>)
      else s)"

text \<open>
  One pass through the body of \<^verbatim>\<open>while (overflow)\<close>: reload the timer, advance the
  channel, handle the end of the data. The new value of \<^verbatim>\<open>overflow\<close> is
  \<open>reload_overflow\<close> of the state before the pass.
\<close>

definition reload_overflow :: "nat \<Rightarrow> spu \<Rightarrow> bool" where
  "reload_overflow i s = (soundTimers s i + soundTmr s i < soundTmr s i)"

definition reload_body :: "memory \<Rightarrow> nat \<Rightarrow> nat \<Rightarrow> spu \<Rightarrow> spu" where
  "reload_body mem i format s =
     end_of_data i format
       (advance mem i format
          (s\<lparr>soundTimers := (soundTimers s)(i := soundTimers s i + soundTmr s i)\<rparr>))"

text \<open>
  The loop \<^verbatim>\<open>while (overflow)\<close>, entered with \<^verbatim>\<open>overflow\<close> true: the body runs, and
  runs again as long as the reload wrapped the 16-bit timer. Each wrapping reload lowers
  the timer, so the loop ends.
\<close>

function reload_loop :: "memory \<Rightarrow> nat \<Rightarrow> nat \<Rightarrow> spu \<Rightarrow> spu" where
  "reload_loop mem i format s =
     (if reload_overflow i s then reload_loop mem i format (reload_body mem i format s)
      else reload_body mem i format s)"
  by pat_completeness auto
termination
proof (relation "measure (\<lambda>(mem, i, format, s). unat (soundTimers s i))")
  show "wf (measure (\<lambda>(mem, i, format, s). unat (soundTimers s i)))"
    by simp
next
  fix mem :: memory and i format :: nat and s :: spu
  assume ov: "reload_overflow i s"
  have tm: "soundTimers (reload_body mem i format s) i = soundTimers s i + soundTmr s i"
    by (simp add: reload_body_def end_of_data_def advance_def adpcm_step_def psg_step_def Let_def)
  from ov have lt: "soundTimers s i + soundTmr s i < soundTmr s i"
    by (simp add: reload_overflow_def)
  then have "soundTimers s i + soundTmr s i < soundTimers s i"
    by (metis olen_add_eqv not_le)
  then have "unat (soundTimers s i + soundTmr s i) < unat (soundTimers s i)"
    by (simp add: word_less_nat_alt)
  with tm show "((mem, i, format, reload_body mem i format s), (mem, i, format, s))
      \<in> measure (\<lambda>(mem, i, format, s). unat (soundTimers s i))"
    by simp
qed

declare reload_loop.simps [simp del]

subsection \<open>runSample: volume, panning and the output stage\<close>

text \<open>
  The fields of the control words as the code reads them: a divider selector of 3 and a
  7-bit factor of 127 are incremented before use.
\<close>

definition divShift_of :: "u32 \<Rightarrow> nat" where
  "divShift_of cnt =
     (let divShift = unat (drop_bit 8 (cnt AND 0x00000300))
      in if divShift = 3 then divShift + 1 else divShift)"

definition mulFactor_of :: "u32 \<Rightarrow> int" where
  "mulFactor_of cnt =
     (let mulFactor = uint (cnt AND 0x0000007F)
      in if mulFactor = 127 then mulFactor + 1 else mulFactor)"

definition panValue_of :: "u32 \<Rightarrow> int" where
  "panValue_of cnt =
     (let panValue = uint (drop_bit 16 (cnt AND 0x007F0000))
      in if panValue = 127 then panValue + 1 else panValue)"

definition masterVol_of :: "u16 \<Rightarrow> int" where
  "masterVol_of mainCnt =
     (let masterVol = uint (mainCnt AND 0x007F)
      in if masterVol = 127 then masterVol + 1 else masterVol)"

text \<open>
  The arithmetic of each stage. \<^verbatim>\<open><<\<close> and \<^verbatim>\<open>>>\<close> on the \<^verbatim>\<open>int64_t\<close> samples are
  \<open>push_bit\<close> and \<open>drop_bit\<close> on \<open>int\<close> (the right shift is arithmetic); \<^verbatim>\<open>/\<close>
  truncates towards zero, which is \<open>sdiv\<close>.
\<close>

definition volume_divider :: "int \<Rightarrow> nat \<Rightarrow> int" where
  "volume_divider data divShift = push_bit (4 - divShift) data"

definition volume_factor :: "int \<Rightarrow> int \<Rightarrow> int" where
  "volume_factor data mulFactor = (push_bit 7 data * mulFactor) sdiv 128"

definition pan_left :: "int \<Rightarrow> int \<Rightarrow> int" where
  "pan_left data panValue = drop_bit 10 ((push_bit 7 data * (128 - panValue)) sdiv 128)"

definition pan_right :: "int \<Rightarrow> int \<Rightarrow> int" where
  "pan_right data panValue = drop_bit 10 ((push_bit 7 data * panValue) sdiv 128)"

definition master_volume :: "int \<Rightarrow> int \<Rightarrow> int" where
  "master_volume sample masterVol = (push_bit 13 sample * masterVol) sdiv 128 sdiv 64"

definition mix_channel :: "u32 \<Rightarrow> int \<Rightarrow> int \<times> int" where
  "mix_channel cnt data =
     (let data = volume_divider data (divShift_of cnt);
          data = volume_factor data (mulFactor_of cnt)
      in (pan_left data (panValue_of cnt), pan_right data (panValue_of cnt)))"

text \<open>One pass through the body of \<^verbatim>\<open>for (int i = 0; i < 16; i++)\<close>.\<close>

definition run_channel :: "memory \<Rightarrow> nat \<Rightarrow> spu \<times> int \<times> int \<Rightarrow> spu \<times> int \<times> int" where
  "run_channel mem i = (\<lambda>(s, sampleLeft, sampleRight).
     if \<not> enabled s i then (s, sampleLeft, sampleRight)
     else
       (let format = format_of (soundCnt s i);
            data = read_data mem i format s;
            s = s\<lparr>soundTimers := (soundTimers s)(i := soundTimers s i + 512)\<rparr>;
            s = (if soundTimers s i < 512 then reload_loop mem i format s else s);
            (l, r) = mix_channel (soundCnt s i) data
        in (s, sampleLeft + l, sampleRight + r)))"

definition mix_channels :: "memory \<Rightarrow> spu \<Rightarrow> spu \<times> int \<times> int" where
  "mix_channels mem s = fold (run_channel mem) [0..<16] (s, 0, 0)"

definition clip :: "int \<Rightarrow> int" where
  "clip sample =
     (let sample = (if sample < 0x000 then 0x000 else sample)
      in if sample > 0x3FF then 0x3FF else sample)"

definition output_sample :: "u16 \<Rightarrow> u16 \<Rightarrow> int \<Rightarrow> int" where
  "output_sample mainCnt bias sample =
     (let sample = master_volume sample (masterVol_of mainCnt);
          sample = drop_bit 21 sample + uint bias;
          sample = clip sample
      in push_bit 5 (sample - 0x200))"

definition pack_frame :: "int \<Rightarrow> int \<Rightarrow> u32" where
  "pack_frame sampleLeft sampleRight = word_of_int (push_bit 16 sampleRight OR (sampleLeft AND 0xFFFF))"

text \<open>The two samples of the tick that starts in state \<open>s\<close>, and the frame made of them.\<close>

definition tick_samples :: "memory \<Rightarrow> spu \<Rightarrow> int \<times> int" where
  "tick_samples mem s =
     (let (s, sampleLeft, sampleRight) = mix_channels mem s
      in (output_sample (mainSoundCnt s) (soundBias s) sampleLeft,
          output_sample (mainSoundCnt s) (soundBias s) sampleRight))"

definition tick_frame :: "memory \<Rightarrow> spu \<Rightarrow> u32" where
  "tick_frame mem s = (let (sampleLeft, sampleRight) = tick_samples mem s in pack_frame sampleLeft sampleRight)"

subsection \<open>runSample: the buffer exchange\<close>

text \<open>
  The producer's wait \<^verbatim>\<open>while (wait) { if (!ready) wait = false; }\<close>. Only the consumer
  clears \<^verbatim>\<open>ready\<close>; in this sequential embedding the loop returns when the flag is
  clear and does not return (\<open>None\<close>) when it is set.
\<close>

partial_function (option) wait_played :: "spu \<Rightarrow> spu option" where
  "wait_played s = (if \<not> ready s then Some s else wait_played s)"

declare wait_played.simps [code]

definition write_frame :: "bool \<Rightarrow> u32 \<Rightarrow> spu \<Rightarrow> spu option" where
  "write_frame limitFps frame s =
     (let s = s\<lparr>bufferIn := (bufferIn s)[bufferPointer s := frame],
                bufferPointer := bufferPointer s + 1\<rparr>
      in if bufferPointer s = bufferSize s then
           (case (if limitFps then wait_played s else Some s) of
              None \<Rightarrow> None
            | Some s \<Rightarrow>
                Some (s\<lparr>bufferOut := bufferIn s, bufferIn := bufferOut s,
                        ready := True, bufferPointer := 0\<rparr>))
         else Some s)"

definition runSample :: "memory \<Rightarrow> bool \<Rightarrow> spu \<Rightarrow> spu option" where
  "runSample mem limitFps s =
     (let frame = tick_frame mem s;
          s = fst (mix_channels mem s)
      in if bufferSize s = 0 then Some s else write_frame limitFps frame s)"

text \<open>\<open>n\<close> calls of \<^verbatim>\<open>runSample\<close> in a row, and the frames they compute.\<close>

fun runSamples :: "memory \<Rightarrow> bool \<Rightarrow> nat \<Rightarrow> spu \<Rightarrow> spu option" where
  "runSamples mem limitFps 0 s = Some s"
| "runSamples mem limitFps (Suc n) s =
     (case runSample mem limitFps s of
        None \<Rightarrow> None
      | Some s' \<Rightarrow> runSamples mem limitFps n s')"

fun produced_frames :: "memory \<Rightarrow> bool \<Rightarrow> nat \<Rightarrow> spu \<Rightarrow> u32 list" where
  "produced_frames mem limitFps 0 s = []"
| "produced_frames mem limitFps (Suc n) s =
     tick_frame mem s #
       (case runSample mem limitFps s of
          None \<Rightarrow> []
        | Some s' \<Rightarrow> produced_frames mem limitFps n s')"

subsection \<open>getSamples\<close>

text \<open>
  \<^verbatim>\<open>new uint32_t[count]\<close> throws for a negative \<^verbatim>\<open>count\<close> and leaves the cells of the
  new array indeterminate: their contents are the parameters \<open>newIn\<close> and \<open>newOut\<close>.
\<close>

datatype error = BadArrayNewLength

definition init_buffers :: "(nat \<Rightarrow> u32) \<Rightarrow> (nat \<Rightarrow> u32) \<Rightarrow> nat \<Rightarrow> spu \<Rightarrow> spu" where
  "init_buffers newIn newOut count s =
     (if bufferSize s \<noteq> count then
        s\<lparr>bufferIn := map newIn [0..<count], bufferOut := map newOut [0..<count],
          bufferSize := count, bufferPointer := 0\<rparr>
      else s)"

text \<open>
  The consumer's polling loop, bounded by the clock: \<open>polls\<close> is the number of further
  passes the clock allows before the 500000/60 microseconds are over. The result is the
  final value of \<^verbatim>\<open>wait\<close>.
\<close>

fun await_ready :: "nat \<Rightarrow> spu \<Rightarrow> bool" where
  "await_ready 0 s = (if ready s then False else True)"
| "await_ready (Suc polls) s = (if ready s then False else await_ready polls s)"

definition getSamples ::
    "(nat \<Rightarrow> u32) \<Rightarrow> (nat \<Rightarrow> u32) \<Rightarrow> nat \<Rightarrow> int \<Rightarrow> spu \<Rightarrow> error + (u32 list \<times> spu)" where
  "getSamples newIn newOut polls count s =
     (if count < 0 then Inl BadArrayNewLength
      else
        (let s = init_buffers newIn newOut (nat count) s;
             wait = await_ready polls s;
             out = (if wait then map (\<lambda>i. bufferOut s ! (nat count - 1)) [0..<nat count]
                    else take (nat count) (bufferOut s))
         in Inr (out, s\<lparr>ready := False\<rparr>)))"

subsection \<open>Register writes\<close>

text \<open>The parameter \<^verbatim>\<open>mask\<close> of the register writes is \<open>msk\<close> here.\<close>

text \<open>The body of the \<^verbatim>\<open>if\<close> of \<^verbatim>\<open>writeSoundCnt\<close> (lines 352 to 378).\<close>

definition reload_registers :: "memory \<Rightarrow> nat \<Rightarrow> spu \<Rightarrow> spu" where
  "reload_registers mem channel s =
     (let s = s\<lparr>soundCurrent := (soundCurrent s)(channel := soundSad s channel)\<rparr>;
          s = s\<lparr>soundTimers := (soundTimers s)(channel := soundTmr s channel)\<rparr>;
          format = format_of (soundCnt s channel)
      in if format = 2 then
           (let header = read_u32 mem (soundSad s channel);
                s = s\<lparr>adpcmValue := (adpcmValue s)(channel := sint (ucast header :: u16))\<rparr>;
                s = s\<lparr>adpcmIndex := (adpcmIndex s)
                       (channel := uint (drop_bit 16 (header AND 0x007F0000)))\<rparr>;
                s = (if adpcmIndex s channel > 88
                     then s\<lparr>adpcmIndex := (adpcmIndex s)(channel := 88)\<rparr> else s);
                s = s\<lparr>adpcmToggle := (adpcmToggle s)(channel := False)\<rparr>
            in s\<lparr>soundCurrent := (soundCurrent s)(channel := soundCurrent s channel + 4)\<rparr>)
         else if format = 3 then
           (if 8 \<le> channel \<and> channel \<le> 13 then
              s\<lparr>dutyCycles := (dutyCycles s)(channel - 8 := 0)\<rparr>
            else if 14 \<le> channel then
              s\<lparr>noiseValues := (noiseValues s)(channel - 14 := 0x7FFF)\<rparr>
            else s)
         else s)"

definition writeSoundCnt :: "memory \<Rightarrow> nat \<Rightarrow> u32 \<Rightarrow> u32 \<Rightarrow> spu \<Rightarrow> spu" where
  "writeSoundCnt mem channel msk value s =
     (let s = (if \<not> (soundCnt s channel AND BIT 31 \<noteq> 0) \<and> value AND BIT 31 \<noteq> 0
               then reload_registers mem channel s else s);
          msk = msk AND 0xFF7F837F
      in s\<lparr>soundCnt := (soundCnt s)
             (channel := (soundCnt s channel AND NOT msk) OR (value AND msk))\<rparr>)"

definition writeSoundSad :: "nat \<Rightarrow> u32 \<Rightarrow> u32 \<Rightarrow> spu \<Rightarrow> spu" where
  "writeSoundSad channel msk value s =
     (let msk = msk AND 0x07FFFFFC
      in s\<lparr>soundSad := (soundSad s)
             (channel := (soundSad s channel AND NOT msk) OR (value AND msk))\<rparr>)"

definition writeSoundTmr :: "nat \<Rightarrow> u16 \<Rightarrow> u16 \<Rightarrow> spu \<Rightarrow> spu" where
  "writeSoundTmr channel msk value s =
     s\<lparr>soundTmr := (soundTmr s)
        (channel := (soundTmr s channel AND NOT msk) OR (value AND msk))\<rparr>"

definition writeSoundPnt :: "nat \<Rightarrow> u16 \<Rightarrow> u16 \<Rightarrow> spu \<Rightarrow> spu" where
  "writeSoundPnt channel msk value s =
     s\<lparr>soundPnt := (soundPnt s)
        (channel := (soundPnt s channel AND NOT msk) OR (value AND msk))\<rparr>"

definition writeSoundLen :: "nat \<Rightarrow> u32 \<Rightarrow> u32 \<Rightarrow> spu \<Rightarrow> spu" where
  "writeSoundLen channel msk value s =
     (let msk = msk AND 0x003FFFFF
      in s\<lparr>soundLen := (soundLen s)
             (channel := (soundLen s channel AND NOT msk) OR (value AND msk))\<rparr>)"

definition writeMainSoundCnt :: "u16 \<Rightarrow> u16 \<Rightarrow> spu \<Rightarrow> spu" where
  "writeMainSoundCnt msk value s =
     (let msk = msk AND 0xBF7F
      in s\<lparr>mainSoundCnt := (mainSoundCnt s AND NOT msk) OR (value AND msk)\<rparr>)"

definition writeSoundBias :: "u16 \<Rightarrow> u16 \<Rightarrow> spu \<Rightarrow> spu" where
  "writeSoundBias msk value s =
     (let msk = msk AND 0x03FF
      in s\<lparr>soundBias := (soundBias s AND NOT msk) OR (value AND msk)\<rparr>)"

subsection \<open>The states the engine can be in\<close>

text \<open>
  Every state the class reaches from its construction by register writes on the sixteen
  channels, calls of \<^verbatim>\<open>runSample\<close> that return and calls of \<^verbatim>\<open>getSamples\<close>. The
  memory collaborator may differ from call to call.
\<close>

inductive reachable :: "spu \<Rightarrow> bool" where
  r_init: "reachable (spu_init r)"
| r_runSample: "reachable s \<Longrightarrow> runSample mem limitFps s = Some s' \<Longrightarrow> reachable s'"
| r_getSamples: "reachable s \<Longrightarrow> getSamples newIn newOut polls count s = Inr (out, s') \<Longrightarrow> reachable s'"
| r_writeSoundCnt: "reachable s \<Longrightarrow> channel < 16 \<Longrightarrow> reachable (writeSoundCnt mem channel m v s)"
| r_writeSoundSad: "reachable s \<Longrightarrow> channel < 16 \<Longrightarrow> reachable (writeSoundSad channel m v s)"
| r_writeSoundTmr: "reachable s \<Longrightarrow> channel < 16 \<Longrightarrow> reachable (writeSoundTmr channel m16 v16 s)"
| r_writeSoundPnt: "reachable s \<Longrightarrow> channel < 16 \<Longrightarrow> reachable (writeSoundPnt channel m16 v16 s)"
| r_writeSoundLen: "reachable s \<Longrightarrow> channel < 16 \<Longrightarrow> reachable (writeSoundLen channel m v s)"
| r_writeMainSoundCnt: "reachable s \<Longrightarrow> reachable (writeMainSoundCnt m16 v16 s)"
| r_writeSoundBias: "reachable s \<Longrightarrow> reachable (writeSoundBias m16 v16 s)"

subsection \<open>Views of the state\<close>

text \<open>
  The members that the channel loop of \<^verbatim>\<open>runSample\<close> never assigns, and the members
  that belong to channel \<open>i\<close>.
\<close>

definition static_of ::
    "spu \<Rightarrow> u32 list \<times> u32 list \<times> nat \<times> nat \<times> bool \<times> (nat \<Rightarrow> u32) \<times> (nat \<Rightarrow> u16)
       \<times> (nat \<Rightarrow> u16) \<times> (nat \<Rightarrow> u32) \<times> u16 \<times> u16" where
  "static_of s = (bufferIn s, bufferOut s, bufferSize s, bufferPointer s, ready s,
     soundSad s, soundTmr s, soundPnt s, soundLen s, mainSoundCnt s, soundBias s)"

definition chan_of ::
    "spu \<Rightarrow> nat \<Rightarrow> u32 \<times> u32 \<times> u16 \<times> int \<times> int \<times> bool \<times> int \<times> int \<times> int \<times> u16" where
  "chan_of s i = (soundCnt s i, soundCurrent s i, soundTimers s i,
     adpcmValue s i, adpcmIndex s i, adpcmToggle s i, adpcmLoopValue s i, adpcmLoopIndex s i,
     (if 8 \<le> i \<and> i \<le> 13 then dutyCycles s (i - 8) else 0),
     (if 14 \<le> i then noiseValues s (i - 14) else 0))"

subsection \<open>Concrete inputs\<close>

text \<open>
  A memory holding the ADPCM header 34 12 00 00 at address 0, and an engine whose
  channel 0 has the ADPCM format selected but is not enabled.
\<close>

definition header_1234 :: memory where
  "header_1234 = (\<lambda>a. if a = 0 then 0x34 else if a = 1 then 0x12 else 0)"

definition adpcm_idle :: spu where
  "adpcm_idle = writeSoundCnt header_1234 0 0xFFFFFFFF 0x40000000 (spu_init False)"

text \<open>The same header followed by the data byte 7C.\<close>

definition adpcm_data :: memory where
  "adpcm_data = (\<lambda>a. if a = 0 then 0x34 else if a = 1 then 0x12 else if a = 4 then 0x7C else 0)"

text \<open>The engine after the host has asked for blocks of two frames once.\<close>

definition buffered :: spu where
  "buffered = init_buffers (\<lambda>_. 0) (\<lambda>_. 0) 2 (spu_init False)"

text \<open>
  The ADPCM step in the words of the specification: the nibble, the magnitude from the
  step table, the clamped predictor, the clamped index, the selector, the address and
  the loop snapshot.
\<close>

definition spec_nibble :: "memory \<Rightarrow> nat \<Rightarrow> spu \<Rightarrow> int" where
  "spec_nibble mem i s =
     (let byte = uint (mem (soundCurrent s i))
      in if adpcmToggle s i then byte div 16 else byte mod 16)"

definition spec_magnitude :: "int \<Rightarrow> int \<Rightarrow> int" where
  "spec_magnitude index nibble =
     (let step = adpcmTable ! nat index
      in step div 8 + (if bit nibble 0 then step div 4 else 0)
           + (if bit nibble 1 then step div 2 else 0) + (if bit nibble 2 then step else 0))"

definition spec_predictor :: "int \<Rightarrow> int \<Rightarrow> int \<Rightarrow> int" where
  "spec_predictor predictor magnitude nibble =
     (if bit nibble 3 then min 32767 (predictor + magnitude)
      else max (- 32767) (predictor - magnitude))"

definition spec_index :: "int \<Rightarrow> int \<Rightarrow> int" where
  "spec_index index nibble = max 0 (min 88 (index + indexTable ! nat (nibble mod 8)))"

definition adpcm_decode_spec :: "memory \<Rightarrow> nat \<Rightarrow> spu \<Rightarrow> spu" where
  "adpcm_decode_spec mem i s =
     (let nibble = spec_nibble mem i s;
          magnitude = spec_magnitude (adpcmIndex s i) nibble;
          predictor = spec_predictor (adpcmValue s i) magnitude nibble;
          index = spec_index (adpcmIndex s i) nibble;
          address = (if adpcmToggle s i then soundCurrent s i + 1 else soundCurrent s i);
          snapshot = (address = soundSad s i + 4 * ucast (soundPnt s i) \<and> adpcmToggle s i)
      in s\<lparr>adpcmValue := (adpcmValue s)(i := predictor),
           adpcmIndex := (adpcmIndex s)(i := index),
           adpcmToggle := (adpcmToggle s)(i := \<not> adpcmToggle s i),
           soundCurrent := (soundCurrent s)(i := address),
           adpcmLoopValue := (if snapshot then (adpcmLoopValue s)(i := predictor) else adpcmLoopValue s),
           adpcmLoopIndex := (if snapshot then (adpcmLoopIndex s)(i := index) else adpcmLoopIndex s)\<rparr>)"

text \<open>An engine whose out buffer holds two frames that the host has already played.\<close>

definition starved :: spu where
  "starved = buffered\<lparr>bufferOut := [0x00010001, 0x00020002]\<rparr>"

subsection \<open>The ADPCM invariant\<close>

text \<open>
  A step index inside the table with a predictor that fits in 16 bits, for the running
  pair and for the loop pair of every channel.
\<close>

definition adpcm_ok :: "int \<Rightarrow> int \<Rightarrow> bool" where
  "adpcm_ok idx v = (0 \<le> idx \<and> idx \<le> 88 \<and> - 0x8000 \<le> v \<and> v \<le> 0x7FFF)"

definition adpcm_inv :: "spu \<Rightarrow> bool" where
  "adpcm_inv s = (\<forall>i. adpcm_ok (adpcmIndex s i) (adpcmValue s i)
     \<and> adpcm_ok (adpcmLoopIndex s i) (adpcmLoopValue s i))"

text \<open>A memory whose ADPCM header at address 0 is 00 80 00 00, and channel 0 enabled on it.\<close>

definition header_8000 :: memory where
  "header_8000 = (\<lambda>a. if a = 1 then 0x80 else 0)"

definition predictor_min :: spu where
  "predictor_min = writeSoundCnt header_8000 0 0xFFFFFFFF 0xC0000000 adpcm_idle"

text \<open>
  Channel 0 as a PCM8 channel with the reload period 0xFFFF: \<open>pcm8_fast\<close> is enabled
  after the period was written, so its timer starts at the period; \<open>pcm8_slow\<close> was
  enabled before, so its timer starts at 0. The sound of \<open>pcm8_fast\<close> has the greatest
  length.
\<close>

definition pcm8_fast :: spu where
  "pcm8_fast =
     writeSoundCnt header_1234 0 0xFFFFFFFF 0x80000000
       (writeSoundTmr 0 0xFFFF 0xFFFF (writeSoundLen 0 0xFFFFFFFF 0x003FFFFF (spu_init False)))"

definition pcm8_slow :: spu where
  "pcm8_slow =
     writeSoundTmr 0 0xFFFF 0xFFFF
       (writeSoundCnt header_1234 0 0xFFFFFFFF 0x80000000 (spu_init False))"

text \<open>The statement \<^verbatim>\<open>soundTimers[i] += 512\<close> at the start of the pass for channel \<open>i\<close>.\<close>

definition tick_timer :: "nat \<Rightarrow> spu \<Rightarrow> spu" where
  "tick_timer i s = s\<lparr>soundTimers := (soundTimers s)(i := soundTimers s i + 512)\<rparr>"

text \<open>Two states that agree on channel \<open>i\<close> and on what the channel loop leaves alone.\<close>

definition agree :: "nat \<Rightarrow> spu \<Rightarrow> spu \<Rightarrow> bool" where
  "agree i s t = (chan_of s i = chan_of t i \<and> static_of s = static_of t)"

text \<open>
  One timer reload of an ADPCM channel in the words of the specification: the timer is
  reloaded, the next nibble is decoded, and the end of the data is handled.
\<close>

definition adpcm_reload_spec :: "memory \<Rightarrow> nat \<Rightarrow> spu \<Rightarrow> spu" where
  "adpcm_reload_spec mem i s =
     end_of_data i 2
       (adpcm_decode_spec mem i
          (s\<lparr>soundTimers := (soundTimers s)(i := soundTimers s i + soundTmr s i)\<rparr>))"

text \<open>
  Channel 0 playing the ADPCM data of \<open>adpcm_data\<close> with the reload period 0xFE00, so
  that every tick reloads the timer once.
\<close>

definition adpcm_playing :: spu where
  "adpcm_playing =
     writeSoundCnt adpcm_data 0 0xFFFFFFFF 0xC0000000 (writeSoundTmr 0 0xFFFF 0xFE00 adpcm_idle)"

text \<open>
  An engine with buffers of two frames whose only enabled channel is the pulse channel 8:
  duty selector 6, volume factor 127, panning 64, reload period 0xFE00 (one reload in
  every tick), master volume 127 and sound bias 0x80. \<open>pulse_state\<close> holds of this
  engine and of the states its ticks lead to.
\<close>

definition pulse_on :: spu where
  "pulse_on =
     init_buffers (\<lambda>_. 0) (\<lambda>_. 0) 2
       (writeSoundCnt header_1234 8 0xFFFFFFFF 0xE640007F
          (writeSoundTmr 8 0xFFFF 0xFE00
             (writeMainSoundCnt 0xFFFF 0x007F (writeSoundBias 0xFFFF 0x0080 (spu_init False)))))"

definition pulse_state :: "spu \<Rightarrow> bool" where
  "pulse_state s = ((\<forall>j. j \<noteq> 8 \<longrightarrow> \<not> enabled s j) \<and> soundCnt s 8 = 0xE640007F
     \<and> soundTimers s 8 = 0xFE00 \<and> soundTmr s 8 = 0xFE00
     \<and> mainSoundCnt s = 0x007F \<and> soundBias s = 0x0080)"

text \<open>
  The pulse channel 8 of \<open>pulse_on\<close> together with channel 0 as a one-shot ADPCM channel of
  length 1 with volume factor 127 and panning 64, just enabled: the first tick mixes both
  channels and ends the sound of channel 0.
\<close>

definition one_shot_mixed :: spu where
  "one_shot_mixed =
     writeSoundCnt adpcm_data 0 0xFFFFFFFF 0xD040007F
       (writeSoundCnt adpcm_data 0 0xFFFFFFFF 0x5040007F
          (writeSoundTmr 0 0xFFFF 0xFE00
             (writeSoundLen 0 0xFFFFFFFF 1
                (writeSoundCnt header_1234 8 0xFFFFFFFF 0xE640007F
                   (writeSoundTmr 8 0xFFFF 0xFE00
                      (writeMainSoundCnt 0xFFFF 0x007F
                         (writeSoundBias 0xFFFF 0x0080 (spu_init False))))))))"

section \<open>Basic lemmas\<close>

lemma test_BIT: "(w AND BIT n \<noteq> 0) = bit w n"
  by (simp add: BIT_def and_exp_eq_0_iff_not_bit)

lemma test_BIT0: "(w AND BIT n = 0) = (\<not> bit w n)"
  by (simp add: BIT_def and_exp_eq_0_iff_not_bit)

lemma hw_mask_bit31: "bit (0xFF7F837F :: u32) 31"
  by simp

lemma written_bit31:
  "bit msk 31 \<Longrightarrow> bit v 31 \<Longrightarrow>
   bit ((c AND NOT (msk AND 0xFF7F837F)) OR (v AND (msk AND (0xFF7F837F :: u32)))) 31"
  using hw_mask_bit31
  by (simp add: bit_or_iff bit_and_iff bit_not_iff del: bit_numeral_simps)

lemma unwritten_bit31:
  "\<not> bit msk 31 \<Longrightarrow>
   bit ((c AND NOT (msk AND 0xFF7F837F)) OR (v AND (msk AND (0xFF7F837F :: u32)))) 31 = bit c 31"
  by (simp add: bit_or_iff bit_and_iff bit_not_iff del: bit_numeral_simps)

subsection \<open>What the channel loop leaves alone\<close>

lemma static_upd:
  "static_of (s\<lparr>soundTimers := a\<rparr>) = static_of s"
  "static_of (s\<lparr>soundCurrent := b\<rparr>) = static_of s"
  "static_of (s\<lparr>soundCnt := c\<rparr>) = static_of s"
  "static_of (s\<lparr>adpcmValue := d\<rparr>) = static_of s"
  "static_of (s\<lparr>adpcmIndex := e\<rparr>) = static_of s"
  "static_of (s\<lparr>adpcmToggle := f\<rparr>) = static_of s"
  "static_of (s\<lparr>adpcmLoopValue := g\<rparr>) = static_of s"
  "static_of (s\<lparr>adpcmLoopIndex := h\<rparr>) = static_of s"
  "static_of (s\<lparr>dutyCycles := k\<rparr>) = static_of s"
  "static_of (s\<lparr>noiseValues := l\<rparr>) = static_of s"
  by (simp_all add: static_of_def)

lemma static_adpcm_step: "static_of (adpcm_step mem i s) = static_of s"
  by (simp add: adpcm_step_def Let_def static_upd)

lemma static_psg_step: "static_of (psg_step i s) = static_of s"
  by (simp add: psg_step_def static_upd)

lemma static_advance: "static_of (advance mem i format s) = static_of s"
  by (simp add: advance_def static_adpcm_step static_psg_step static_upd)

lemma static_end_of_data: "static_of (end_of_data i format s) = static_of s"
  by (simp add: end_of_data_def Let_def static_upd)

lemma static_reload_body: "static_of (reload_body mem i format s) = static_of s"
  by (simp add: reload_body_def static_advance static_end_of_data static_upd)

lemma static_reload_loop: "static_of (reload_loop mem i format s) = static_of s"
  by (induction mem i format s rule: reload_loop.induct)
     (subst reload_loop.simps, simp add: static_reload_body)

lemma static_run_channel: "static_of (fst (run_channel mem i st)) = static_of (fst st)"
  by (cases st) (simp add: run_channel_def Let_def split_beta static_reload_loop static_upd)

lemma static_fold: "static_of (fst (fold (run_channel mem) js st)) = static_of (fst st)"
  by (induction js arbitrary: st) (simp_all add: static_run_channel)

lemma static_mix_channels: "static_of (fst (mix_channels mem s)) = static_of s"
  by (simp add: mix_channels_def static_fold)

lemma chan_upd:
  "a i = soundTimers s i \<Longrightarrow> chan_of (s\<lparr>soundTimers := a\<rparr>) i = chan_of s i"
  "b i = soundCurrent s i \<Longrightarrow> chan_of (s\<lparr>soundCurrent := b\<rparr>) i = chan_of s i"
  "c i = soundCnt s i \<Longrightarrow> chan_of (s\<lparr>soundCnt := c\<rparr>) i = chan_of s i"
  "d i = adpcmValue s i \<Longrightarrow> chan_of (s\<lparr>adpcmValue := d\<rparr>) i = chan_of s i"
  "e i = adpcmIndex s i \<Longrightarrow> chan_of (s\<lparr>adpcmIndex := e\<rparr>) i = chan_of s i"
  "f i = adpcmToggle s i \<Longrightarrow> chan_of (s\<lparr>adpcmToggle := f\<rparr>) i = chan_of s i"
  "g i = adpcmLoopValue s i \<Longrightarrow> chan_of (s\<lparr>adpcmLoopValue := g\<rparr>) i = chan_of s i"
  "h i = adpcmLoopIndex s i \<Longrightarrow> chan_of (s\<lparr>adpcmLoopIndex := h\<rparr>) i = chan_of s i"
  by (simp_all add: chan_of_def)

lemma chan_upd_psg:
  "i \<noteq> j \<Longrightarrow> 8 \<le> j \<Longrightarrow>
     chan_of (s\<lparr>dutyCycles := (dutyCycles s)(j - 8 := k)\<rparr>) i = chan_of s i"
  "i \<noteq> j \<Longrightarrow> 14 \<le> j \<Longrightarrow>
     chan_of (s\<lparr>noiseValues := (noiseValues s)(j - 14 := l)\<rparr>) i = chan_of s i"
  by (auto simp add: chan_of_def)

lemma chan_adpcm_step: "i \<noteq> j \<Longrightarrow> chan_of (adpcm_step mem j s) i = chan_of s i"
  by (simp add: adpcm_step_def Let_def chan_upd)

lemma chan_psg_step: "i \<noteq> j \<Longrightarrow> chan_of (psg_step j s) i = chan_of s i"
  by (simp add: psg_step_def chan_upd_psg)

lemma chan_advance: "i \<noteq> j \<Longrightarrow> chan_of (advance mem j format s) i = chan_of s i"
  by (simp add: advance_def chan_adpcm_step chan_psg_step chan_upd)

lemma chan_end_of_data: "i \<noteq> j \<Longrightarrow> chan_of (end_of_data j format s) i = chan_of s i"
  by (simp add: end_of_data_def Let_def chan_upd)

lemma chan_reload_body: "i \<noteq> j \<Longrightarrow> chan_of (reload_body mem j format s) i = chan_of s i"
  by (simp add: reload_body_def chan_advance chan_end_of_data chan_upd)

lemma chan_reload_loop: "i \<noteq> j \<Longrightarrow> chan_of (reload_loop mem j format s) i = chan_of s i"
  by (induction mem j format s rule: reload_loop.induct)
     (subst reload_loop.simps, simp add: chan_reload_body)

lemma chan_run_channel:
  "i \<noteq> j \<Longrightarrow> chan_of (fst (run_channel mem j st)) i = chan_of (fst st) i"
  by (cases st) (simp add: run_channel_def Let_def split_beta chan_reload_loop chan_upd)

lemma chan_fold:
  "i \<notin> set js \<Longrightarrow> chan_of (fst (fold (run_channel mem) js st)) i = chan_of (fst st) i"
  by (induction js arbitrary: st) (auto simp add: chan_run_channel)

lemma upt_split3: "i < n \<Longrightarrow> [0..<n] = [0..<i] @ i # [Suc i..<n]"
  by (metis less_imp_add_positive upt_add_eq_append upt_conv_Cons le0 upt_rec)

text \<open>
  What a tick does to channel \<open>i\<close> is what the pass of the loop for \<open>i\<close> does, on a
  state that agrees with the state of the tick on that channel.
\<close>

lemma mix_channels_chan:
  assumes i: "i < 16"
    and step: "\<And>t l r. chan_of t i = chan_of s i \<Longrightarrow> static_of t = static_of s
       \<Longrightarrow> R (chan_of (fst (run_channel mem i (t, l, r))) i)"
  shows "R (chan_of (fst (mix_channels mem s)) i)"
proof -
  define st1 where "st1 = fold (run_channel mem) [0..<i] (s, 0, 0)"
  have c1: "chan_of (fst st1) i = chan_of s i"
    unfolding st1_def by (simp add: chan_fold)
  have s1: "static_of (fst st1) = static_of s"
    unfolding st1_def by (simp add: static_fold)
  have split: "mix_channels mem s = fold (run_channel mem) [Suc i..<16] (run_channel mem i st1)"
    unfolding mix_channels_def st1_def using upt_split3[OF i] by simp
  have "R (chan_of (fst (run_channel mem i st1)) i)"
    using step[of "fst st1" "fst (snd st1)" "snd (snd st1)"] c1 s1 by simp
  then show ?thesis
    unfolding split by (simp add: chan_fold)
qed

subsection \<open>The buffer exchange leaves the channels alone\<close>

lemma wait_played_Some:
  assumes "wait_played s = Some s'"
  shows "s' = s \<and> \<not> ready s"
  by (rule wait_played.raw_induct[where P = "\<lambda>s s'. s' = s \<and> \<not> ready s", OF _ assms])
     (simp split: if_splits)

lemma static_ofD:
  assumes "static_of a = static_of b"
  shows "bufferIn a = bufferIn b" "bufferOut a = bufferOut b" "bufferSize a = bufferSize b"
    "bufferPointer a = bufferPointer b" "ready a = ready b" "soundSad a = soundSad b"
    "soundTmr a = soundTmr b" "soundPnt a = soundPnt b" "soundLen a = soundLen b"
    "mainSoundCnt a = mainSoundCnt b" "soundBias a = soundBias b"
  using assms by (simp_all add: static_of_def)

lemmas mixed_static = static_ofD[OF static_mix_channels]

lemma chan_upd_buffers:
  "chan_of (s\<lparr>bufferIn := a\<rparr>) i = chan_of s i"
  "chan_of (s\<lparr>bufferOut := b\<rparr>) i = chan_of s i"
  "chan_of (s\<lparr>bufferSize := c\<rparr>) i = chan_of s i"
  "chan_of (s\<lparr>bufferPointer := d\<rparr>) i = chan_of s i"
  "chan_of (s\<lparr>ready := e\<rparr>) i = chan_of s i"
  by (simp_all add: chan_of_def)

lemma wait_played_clear: "\<not> ready s \<Longrightarrow> wait_played s = Some s"
  by (subst wait_played.simps) simp

lemma wait_played_set: "ready s \<Longrightarrow> wait_played s = None"
proof (rule ccontr)
  assume r: "ready s" and "wait_played s \<noteq> None"
  then obtain s' where "wait_played s = Some s'" by auto
  from wait_played_Some[OF this] r show False by simp
qed

lemma write_frame_keep:
  assumes "bufferPointer m + 1 \<noteq> bufferSize m"
  shows "write_frame lim f m =
     Some (m\<lparr>bufferIn := (bufferIn m)[bufferPointer m := f], bufferPointer := bufferPointer m + 1\<rparr>)"
  using assms by (simp add: write_frame_def Let_def)

lemma write_frame_swap:
  assumes "bufferPointer m + 1 = bufferSize m" and "lim \<longrightarrow> \<not> ready m"
  shows "write_frame lim f m =
     Some (m\<lparr>bufferOut := (bufferIn m)[bufferPointer m := f], bufferIn := bufferOut m,
             ready := True, bufferPointer := 0\<rparr>)"
  using assms by (simp add: write_frame_def Let_def wait_played_clear)

lemma write_frame_blocked:
  assumes "bufferPointer m + 1 = bufferSize m" and "lim" and "ready m"
  shows "write_frame lim f m = None"
  using assms by (simp add: write_frame_def Let_def wait_played_set)

lemma write_frame_chan: "write_frame lim f m = Some s' \<Longrightarrow> chan_of s' i = chan_of m i"
  by (cases "bufferPointer m + 1 = bufferSize m"; cases "lim \<and> ready m")
     (auto simp add: write_frame_keep write_frame_swap write_frame_blocked chan_upd_buffers)

lemma runSample_unfold:
  "runSample mem lim s =
     (if bufferSize s = 0 then Some (fst (mix_channels mem s))
      else write_frame lim (tick_frame mem s) (fst (mix_channels mem s)))"
  by (simp add: runSample_def Let_def mixed_static)

lemma runSample_chan:
  "runSample mem lim s = Some s' \<Longrightarrow> chan_of s' i = chan_of (fst (mix_channels mem s)) i"
  by (auto simp add: runSample_unfold write_frame_chan split: if_splits)

lemma runSample_written:
  assumes "bufferSize s \<noteq> 0" and "runSample mem lim s = Some s'"
  shows "bufferPointer s + 1 \<noteq> bufferSize s \<Longrightarrow>
           bufferIn s' = (bufferIn s)[bufferPointer s := tick_frame mem s]"
    and "bufferPointer s + 1 = bufferSize s \<Longrightarrow>
           bufferOut s' = (bufferIn s)[bufferPointer s := tick_frame mem s]"
proof -
  let ?m = "fst (mix_channels mem s)"
  have w: "write_frame lim (tick_frame mem s) ?m = Some s'"
    using assms by (simp add: runSample_unfold)
  show "bufferIn s' = (bufferIn s)[bufferPointer s := tick_frame mem s]"
    if "bufferPointer s + 1 \<noteq> bufferSize s"
    using w that by (auto simp add: write_frame_keep mixed_static)
  show "bufferOut s' = (bufferIn s)[bufferPointer s := tick_frame mem s]"
    if "bufferPointer s + 1 = bufferSize s"
  proof (cases "lim \<and> ready s")
    case True
    with w that show ?thesis by (simp add: write_frame_blocked mixed_static)
  next
    case False
    then have "lim \<longrightarrow> \<not> ready ?m" by (simp add: mixed_static)
    with w that show ?thesis by (auto simp add: write_frame_swap mixed_static)
  qed
qed

subsection \<open>The output stage\<close>

lemma clip_range: "0 \<le> clip x \<and> clip x \<le> 0x3FF"
  by (simp add: clip_def Let_def)

lemma output_sample_unfold:
  "output_sample m b x =
     push_bit 5 (clip (drop_bit 21 (master_volume x (masterVol_of m)) + uint b) - 0x200)"
  by (simp add: output_sample_def Let_def)

lemma output_sample_range: "- 0x4000 \<le> output_sample m b x \<and> output_sample m b x \<le> 0x3FE0"
  using clip_range[of "drop_bit 21 (master_volume x (masterVol_of m)) + uint b"]
  by (simp add: output_sample_unfold push_bit_eq_mult)

lemma mask16: "(0xFFFF :: int) = mask 16"
  by (simp add: mask_eq_exp_minus_1)

lemma pack_frame_low:
  assumes "- 0x8000 \<le> l" and "l < 0x8000"
  shows "sint (ucast (pack_frame l r) :: u16) = l"
proof -
  have "(ucast (pack_frame l r) :: u16) = word_of_int l"
    by (rule bit_word_eqI) (auto simp add: pack_frame_def mask16 bit_simps)
  moreover have "sint (word_of_int l :: u16) = l"
    using assms by (simp add: sint_sbintrunc' signed_take_bit_int_eq_self)
  ultimately show ?thesis by simp
qed

lemma pack_frame_high:
  assumes "- 0x8000 \<le> r" and "r < 0x8000"
  shows "sint (ucast (drop_bit 16 (pack_frame l r)) :: u16) = r"
proof -
  have "(ucast (drop_bit 16 (pack_frame l r)) :: u16) = word_of_int r"
    by (rule bit_word_eqI) (auto simp add: pack_frame_def mask16 bit_simps)
  moreover have "sint (word_of_int r :: u16) = r"
    using assms by (simp add: sint_sbintrunc' signed_take_bit_int_eq_self)
  ultimately show ?thesis by simp
qed

lemma tick_samples_range:
  "- 0x4000 \<le> fst (tick_samples mem s)" "fst (tick_samples mem s) \<le> 0x3FE0"
  "- 0x4000 \<le> snd (tick_samples mem s)" "snd (tick_samples mem s) \<le> 0x3FE0"
  using output_sample_range by (simp_all add: tick_samples_def split_beta)

lemma tick_frame_halves:
  "sint (ucast (tick_frame mem s) :: u16) = fst (tick_samples mem s)"
  "sint (ucast (drop_bit 16 (tick_frame mem s)) :: u16) = snd (tick_samples mem s)"
proof -
  have f: "tick_frame mem s = pack_frame (fst (tick_samples mem s)) (snd (tick_samples mem s))"
    by (simp add: tick_frame_def split_beta)
  show "sint (ucast (tick_frame mem s) :: u16) = fst (tick_samples mem s)"
    unfolding f using tick_samples_range(1,2)[of mem s] by (intro pack_frame_low) simp_all
  show "sint (ucast (drop_bit 16 (tick_frame mem s)) :: u16) = snd (tick_samples mem s)"
    unfolding f using tick_samples_range(3,4)[of mem s] by (intro pack_frame_high) simp_all
qed

lemma adpcm_idle_regs:
  "soundCnt adpcm_idle 0 = 0x40000000" "soundSad adpcm_idle 0 = 0" "soundTmr adpcm_idle 0 = 0"
  "soundPnt adpcm_idle 0 = 0" "soundLen adpcm_idle 0 = 0"
  by (simp_all add: adpcm_idle_def writeSoundCnt_def spu_init_def BIT_def Let_def)

lemma await_ready_eq: "await_ready polls s = (\<not> ready s)"
  by (induction polls) simp_all

lemma init_buffers_length:
  "length (bufferOut s) = bufferSize s \<Longrightarrow>
   length (bufferOut (init_buffers newIn newOut n s)) = n"
  by (simp add: init_buffers_def)

subsection \<open>Silent channels\<close>

lemma run_channel_disabled: "\<not> enabled s i \<Longrightarrow> run_channel mem i (s, l, r) = (s, l, r)"
  by (simp add: run_channel_def)

lemma fold_disabled:
  "(\<And>j. j \<in> set js \<Longrightarrow> \<not> enabled s j) \<Longrightarrow> fold (run_channel mem) js (s, l, r) = (s, l, r)"
  by (induction js) (simp_all add: run_channel_disabled)

lemma mix_channels_silent: "(\<And>j. \<not> enabled s j) \<Longrightarrow> mix_channels mem s = (s, 0, 0)"
  by (simp add: mix_channels_def fold_disabled)

subsection \<open>The ADPCM step\<close>

lemma adpcmTable_range: "x \<in> set adpcmTable \<Longrightarrow> 0 \<le> x \<and> x \<le> 0x7FFF"
  by (auto simp add: adpcmTable_def)

lemma adpcmTable_length: "length adpcmTable = 89"
  by (simp add: adpcmTable_def)

lemma adpcmTable_nth: "0 \<le> idx \<Longrightarrow> idx \<le> 88 \<Longrightarrow>
    0 \<le> adpcmTable ! nat idx \<and> adpcmTable ! nat idx \<le> 0x7FFF"
  by (rule adpcmTable_range) (simp add: adpcmTable_length)

lemma sdiv_nonneg: "0 \<le> a \<Longrightarrow> 0 \<le> b \<Longrightarrow> (a :: int) sdiv b = a div b"
  by (simp add: signed_divide_int_def sgn_if)

lemma nibble_value: "uint (adpcm_nibble mem i s) = spec_nibble mem i s"
proof -
  have hi: "uint (drop_bit 4 (b AND 0xF0)) = uint b div 16" for b :: u8
  proof -
    have e: "(15 :: u8) = mask 4"
      by (simp add: mask_eq_exp_minus_1)
    have b15: "bit (15 :: u8) n = (n < 4)" for n
      by (simp only: e bit_mask_iff) auto
    have e': "(15 :: int) = mask 4"
      by (simp add: mask_eq_exp_minus_1)
    have b15': "bit (15 :: int) n = (n < 4)" for n
      by (simp only: e' bit_mask_iff) auto
    have "drop_bit 4 (b AND 0xF0) = drop_bit 4 b"
      by (rule bit_word_eqI) (auto simp add: bit_simps b15 b15' dest: bit_imp_le_length)
    then show ?thesis by (simp add: drop_bit_eq_div uint_div_distrib)
  qed
  have lo: "uint (b AND 0x0F) = uint b mod 16" for b :: u8
  proof -
    have "b AND 0x0F = take_bit 4 b"
      by (simp add: take_bit_eq_mask mask_eq_exp_minus_1)
    then show ?thesis by (simp add: take_bit_eq_mod uint_mod_distrib)
  qed
  show ?thesis
  proof (cases "adpcmToggle s i")
    case True
    then show ?thesis
      unfolding adpcm_nibble_def read_u8_def spec_nibble_def Let_def by (simp only: if_True hi)
  next
    case False
    then show ?thesis
      unfolding adpcm_nibble_def read_u8_def spec_nibble_def Let_def by (simp only: if_False lo)
  qed
qed

lemma nibble_bit: "(d AND BIT k \<noteq> 0) = bit (uint d) k" for d :: u8
  by (auto simp add: test_BIT bit_uint_iff dest: bit_imp_le_length)

lemma adpcm_diff_spec:
  assumes "0 \<le> idx" and "idx \<le> 88"
  shows "adpcm_diff idx d = spec_magnitude idx (uint d)"
  using adpcmTable_nth[OF assms]
  by (simp add: adpcm_diff_def spec_magnitude_def Let_def nibble_bit sdiv_nonneg)

lemma adpcm_apply_spec:
  "adpcm_apply v diff d = spec_predictor v diff (uint d)"
  by (simp add: adpcm_apply_def spec_predictor_def Let_def nibble_bit min_def max_def)

lemma adpcm_next_index_spec:
  "adpcm_next_index idx d = spec_index idx (uint d)"
proof -
  have "d AND 0x7 = take_bit 3 d"
    by (simp add: take_bit_eq_mask mask_eq_exp_minus_1)
  then have "uint (d AND 0x7) = uint d mod 8"
    by (simp add: take_bit_eq_mod uint_mod_distrib)
  then have "unat (d AND 0x7) = nat (uint d mod 8)"
    by (simp only: unat_eq_nat_uint)
  then show ?thesis
    by (simp add: adpcm_next_index_def spec_index_def Let_def min_def max_def)
qed

lemma adpcm_idle_adpcm:
  "adpcmValue adpcm_idle 0 = 0" "adpcmIndex adpcm_idle 0 = 0" "soundCurrent adpcm_idle 0 = 0"
  by (simp_all add: adpcm_idle_def writeSoundCnt_def spu_init_def BIT_def Let_def)

lemma adpcm_step_changed:
  "adpcmValue (adpcm_step mem i s) = (adpcmValue s)
     (i := adpcm_apply (adpcmValue s i) (adpcm_diff (adpcmIndex s i) (adpcm_nibble mem i s))
        (adpcm_nibble mem i s))"
  "adpcmIndex (adpcm_step mem i s) = (adpcmIndex s)
     (i := adpcm_next_index (adpcmIndex s i) (adpcm_nibble mem i s))"
  "adpcmToggle (adpcm_step mem i s) = (adpcmToggle s)(i := \<not> adpcmToggle s i)"
  "soundCurrent (adpcm_step mem i s) = (soundCurrent s)
     (i := if adpcmToggle s i then soundCurrent s i + 1 else soundCurrent s i)"
  "adpcmLoopValue (adpcm_step mem i s) =
     (if soundCurrent s i + 1 = loop_point s i \<and> adpcmToggle s i
      then (adpcmLoopValue s)
        (i := adpcm_apply (adpcmValue s i) (adpcm_diff (adpcmIndex s i) (adpcm_nibble mem i s))
           (adpcm_nibble mem i s))
      else adpcmLoopValue s)"
  "adpcmLoopIndex (adpcm_step mem i s) =
     (if soundCurrent s i + 1 = loop_point s i \<and> adpcmToggle s i
      then (adpcmLoopIndex s)(i := adpcm_next_index (adpcmIndex s i) (adpcm_nibble mem i s))
      else adpcmLoopIndex s)"
  by (simp_all add: adpcm_step_def Let_def loop_point_def)

lemma adpcm_step_unchanged:
  "soundTimers (adpcm_step mem i s) = soundTimers s"
  "soundCnt (adpcm_step mem i s) = soundCnt s"
  "dutyCycles (adpcm_step mem i s) = dutyCycles s"
  "noiseValues (adpcm_step mem i s) = noiseValues s"
  "spu.more (adpcm_step mem i s) = spu.more s"
  by (simp_all add: adpcm_step_def Let_def)

lemma adpcm_decode_spec_fields:
  "adpcmValue (adpcm_decode_spec mem i s) = (adpcmValue s)
     (i := spec_predictor (adpcmValue s i)
        (spec_magnitude (adpcmIndex s i) (spec_nibble mem i s)) (spec_nibble mem i s))"
  "adpcmIndex (adpcm_decode_spec mem i s) = (adpcmIndex s)
     (i := spec_index (adpcmIndex s i) (spec_nibble mem i s))"
  "adpcmToggle (adpcm_decode_spec mem i s) = (adpcmToggle s)(i := \<not> adpcmToggle s i)"
  "soundCurrent (adpcm_decode_spec mem i s) = (soundCurrent s)
     (i := if adpcmToggle s i then soundCurrent s i + 1 else soundCurrent s i)"
  "adpcmLoopValue (adpcm_decode_spec mem i s) =
     (if soundCurrent s i + 1 = loop_point s i \<and> adpcmToggle s i
      then (adpcmLoopValue s)
        (i := spec_predictor (adpcmValue s i)
           (spec_magnitude (adpcmIndex s i) (spec_nibble mem i s)) (spec_nibble mem i s))
      else adpcmLoopValue s)"
  "adpcmLoopIndex (adpcm_decode_spec mem i s) =
     (if soundCurrent s i + 1 = loop_point s i \<and> adpcmToggle s i
      then (adpcmLoopIndex s)(i := spec_index (adpcmIndex s i) (spec_nibble mem i s))
      else adpcmLoopIndex s)"
  "soundTimers (adpcm_decode_spec mem i s) = soundTimers s"
  "soundCnt (adpcm_decode_spec mem i s) = soundCnt s"
  "dutyCycles (adpcm_decode_spec mem i s) = dutyCycles s"
  "noiseValues (adpcm_decode_spec mem i s) = noiseValues s"
  "spu.more (adpcm_decode_spec mem i s) = spu.more s"
  "static_of (adpcm_decode_spec mem i s) = static_of s"
  by (simp_all add: adpcm_decode_spec_def Let_def loop_point_def static_of_def mult.commute)

lemma adpcm_step_spec:
  assumes "0 \<le> adpcmIndex s i" and "adpcmIndex s i \<le> 88"
  shows "adpcm_step mem i s = adpcm_decode_spec mem i s"
proof (rule spu.equality)
  have st: "static_of (adpcm_step mem i s) = static_of (adpcm_decode_spec mem i s)"
    by (simp add: static_adpcm_step adpcm_decode_spec_fields)
  note sf = static_ofD[OF st]
  note c = adpcm_step_changed adpcm_decode_spec_fields adpcm_diff_spec[OF assms]
    adpcm_apply_spec adpcm_next_index_spec nibble_value
  show "bufferIn (adpcm_step mem i s) = bufferIn (adpcm_decode_spec mem i s)" by (rule sf)
  show "bufferOut (adpcm_step mem i s) = bufferOut (adpcm_decode_spec mem i s)" by (rule sf)
  show "bufferSize (adpcm_step mem i s) = bufferSize (adpcm_decode_spec mem i s)" by (rule sf)
  show "bufferPointer (adpcm_step mem i s) = bufferPointer (adpcm_decode_spec mem i s)" by (rule sf)
  show "ready (adpcm_step mem i s) = ready (adpcm_decode_spec mem i s)" by (rule sf)
  show "soundSad (adpcm_step mem i s) = soundSad (adpcm_decode_spec mem i s)" by (rule sf)
  show "soundTmr (adpcm_step mem i s) = soundTmr (adpcm_decode_spec mem i s)" by (rule sf)
  show "soundPnt (adpcm_step mem i s) = soundPnt (adpcm_decode_spec mem i s)" by (rule sf)
  show "soundLen (adpcm_step mem i s) = soundLen (adpcm_decode_spec mem i s)" by (rule sf)
  show "mainSoundCnt (adpcm_step mem i s) = mainSoundCnt (adpcm_decode_spec mem i s)" by (rule sf)
  show "soundBias (adpcm_step mem i s) = soundBias (adpcm_decode_spec mem i s)" by (rule sf)
  show "adpcmValue (adpcm_step mem i s) = adpcmValue (adpcm_decode_spec mem i s)"
    by (simp only: c)
  show "adpcmIndex (adpcm_step mem i s) = adpcmIndex (adpcm_decode_spec mem i s)"
    by (simp only: c)
  show "adpcmToggle (adpcm_step mem i s) = adpcmToggle (adpcm_decode_spec mem i s)"
    by (simp only: c)
  show "soundCurrent (adpcm_step mem i s) = soundCurrent (adpcm_decode_spec mem i s)"
    by (simp only: c)
  show "adpcmLoopValue (adpcm_step mem i s) = adpcmLoopValue (adpcm_decode_spec mem i s)"
    by (simp only: c)
  show "adpcmLoopIndex (adpcm_step mem i s) = adpcmLoopIndex (adpcm_decode_spec mem i s)"
    by (simp only: c)
  show "soundTimers (adpcm_step mem i s) = soundTimers (adpcm_decode_spec mem i s)"
    by (simp only: adpcm_step_unchanged adpcm_decode_spec_fields)
  show "soundCnt (adpcm_step mem i s) = soundCnt (adpcm_decode_spec mem i s)"
    by (simp only: adpcm_step_unchanged adpcm_decode_spec_fields)
  show "dutyCycles (adpcm_step mem i s) = dutyCycles (adpcm_decode_spec mem i s)"
    by (simp only: adpcm_step_unchanged adpcm_decode_spec_fields)
  show "noiseValues (adpcm_step mem i s) = noiseValues (adpcm_decode_spec mem i s)"
    by (simp only: adpcm_step_unchanged adpcm_decode_spec_fields)
  show "spu.more (adpcm_step mem i s) = spu.more (adpcm_decode_spec mem i s)"
    by (simp only: adpcm_step_unchanged adpcm_decode_spec_fields)
qed

subsection \<open>The ADPCM invariant is kept\<close>

lemma adpcm_inv_upd:
  "adpcm_inv (s\<lparr>bufferIn := a1\<rparr>) = adpcm_inv s"
  "adpcm_inv (s\<lparr>bufferOut := a2\<rparr>) = adpcm_inv s"
  "adpcm_inv (s\<lparr>bufferSize := a3\<rparr>) = adpcm_inv s"
  "adpcm_inv (s\<lparr>bufferPointer := a4\<rparr>) = adpcm_inv s"
  "adpcm_inv (s\<lparr>ready := a5\<rparr>) = adpcm_inv s"
  "adpcm_inv (s\<lparr>adpcmToggle := a6\<rparr>) = adpcm_inv s"
  "adpcm_inv (s\<lparr>dutyCycles := a7\<rparr>) = adpcm_inv s"
  "adpcm_inv (s\<lparr>noiseValues := a8\<rparr>) = adpcm_inv s"
  "adpcm_inv (s\<lparr>soundCurrent := a9\<rparr>) = adpcm_inv s"
  "adpcm_inv (s\<lparr>soundTimers := b1\<rparr>) = adpcm_inv s"
  "adpcm_inv (s\<lparr>soundCnt := b2\<rparr>) = adpcm_inv s"
  "adpcm_inv (s\<lparr>soundSad := b3\<rparr>) = adpcm_inv s"
  "adpcm_inv (s\<lparr>soundTmr := b4\<rparr>) = adpcm_inv s"
  "adpcm_inv (s\<lparr>soundPnt := b5\<rparr>) = adpcm_inv s"
  "adpcm_inv (s\<lparr>soundLen := b6\<rparr>) = adpcm_inv s"
  "adpcm_inv (s\<lparr>mainSoundCnt := b7\<rparr>) = adpcm_inv s"
  "adpcm_inv (s\<lparr>soundBias := b8\<rparr>) = adpcm_inv s"
  by (simp_all add: adpcm_inv_def)

lemma adpcm_inv_set:
  "adpcm_inv s \<Longrightarrow> adpcm_ok x p \<Longrightarrow>
     adpcm_inv (s\<lparr>adpcmValue := (adpcmValue s)(i := p), adpcmIndex := (adpcmIndex s)(i := x)\<rparr>)"
  by (simp add: adpcm_inv_def)

lemma adpcm_inv_set_loop:
  "adpcm_inv s \<Longrightarrow>
     adpcm_inv (s\<lparr>adpcmLoopValue := (adpcmLoopValue s)(i := adpcmValue s i),
                   adpcmLoopIndex := (adpcmLoopIndex s)(i := adpcmIndex s i)\<rparr>)"
  by (simp add: adpcm_inv_def)

lemma adpcm_inv_restore:
  "adpcm_inv s \<Longrightarrow>
     adpcm_inv (s\<lparr>adpcmValue := (adpcmValue s)(i := adpcmLoopValue s i),
                   adpcmIndex := (adpcmIndex s)(i := adpcmLoopIndex s i)\<rparr>)"
  by (simp add: adpcm_inv_def)

lemma adpcm_diff_range:
  assumes "0 \<le> idx" and "idx \<le> 88"
  shows "0 \<le> adpcm_diff idx d \<and> adpcm_diff idx d \<le> 4 * 0x7FFF"
  using adpcmTable_nth[OF assms]
  by (simp add: adpcm_diff_spec[OF assms] spec_magnitude_def Let_def)
     (auto simp add: div_le_dividend intro: add_nonneg_nonneg)

lemma adpcm_apply_range:
  assumes "0 \<le> diff" and "- 0x8000 \<le> v" and "v \<le> 0x7FFF"
  shows "- 0x8000 \<le> adpcm_apply v diff d \<and> adpcm_apply v diff d \<le> 0x7FFF"
  using assms by (simp add: adpcm_apply_def Let_def)

lemma adpcm_next_index_range: "0 \<le> adpcm_next_index idx d \<and> adpcm_next_index idx d \<le> 88"
  by (simp add: adpcm_next_index_def Let_def)

lemma adpcm_ok_step:
  assumes "adpcm_ok idx v"
  shows "adpcm_ok (adpcm_next_index idx d) (adpcm_apply v (adpcm_diff idx d) d)"
proof -
  from assms have r: "0 \<le> idx" "idx \<le> 88" "- 0x8000 \<le> v" "v \<le> 0x7FFF"
    by (simp_all add: adpcm_ok_def)
  from adpcm_diff_range[OF r(1,2)] have "0 \<le> adpcm_diff idx d" by simp
  from adpcm_apply_range[OF this r(3,4)] adpcm_next_index_range show ?thesis
    by (simp add: adpcm_ok_def)
qed

text \<open>Under the invariant the ADPCM arithmetic of \<^verbatim>\<open>runSample\<close> stays inside \<^verbatim>\<open>int32_t\<close>.\<close>

lemma adpcm_step_fits_int32:
  assumes "adpcm_ok idx v"
  shows "- (2 ^ 31) \<le> v - adpcm_diff idx d \<and> v + adpcm_diff idx d < 2 ^ 31"
proof -
  from assms have r: "0 \<le> idx" "idx \<le> 88" "- 0x8000 \<le> v" "v \<le> 0x7FFF"
    by (simp_all add: adpcm_ok_def)
  from adpcm_diff_range[OF r(1,2), of d] r(3,4) show ?thesis
    by simp
qed

lemma adpcm_inv_adpcm_step:
  assumes "adpcm_inv s"
  shows "adpcm_inv (adpcm_step mem i s)"
proof -
  from assms have "adpcm_ok (adpcmIndex s i) (adpcmValue s i)"
    by (simp add: adpcm_inv_def)
  from adpcm_ok_step[OF this, of "adpcm_nibble mem i s"] assms show ?thesis
    by (simp add: adpcm_inv_def adpcm_step_changed)
qed

lemma adpcm_inv_psg_step: "adpcm_inv s \<Longrightarrow> adpcm_inv (psg_step i s)"
  by (simp add: psg_step_def adpcm_inv_upd)

lemma adpcm_inv_advance: "adpcm_inv s \<Longrightarrow> adpcm_inv (advance mem i format s)"
  by (simp add: advance_def adpcm_inv_upd adpcm_inv_adpcm_step adpcm_inv_psg_step)

lemma adpcm_inv_end_of_data:
  assumes "adpcm_inv s"
  shows "adpcm_inv (end_of_data i format s)"
proof -
  have r: "adpcm_inv (t\<lparr>adpcmValue := (adpcmValue t)(i := adpcmLoopValue t i),
      adpcmIndex := (adpcmIndex t)(i := adpcmLoopIndex t i),
      adpcmToggle := (adpcmToggle t)(i := False)\<rparr>)" if "adpcm_inv t" for t
    using adpcm_inv_restore[OF that, of i] by (simp add: adpcm_inv_upd)
  have c: "adpcm_inv (s\<lparr>soundCurrent := a\<rparr>)" for a
    using assms by (simp add: adpcm_inv_upd)
  show ?thesis
    using assms r[OF c] by (simp add: end_of_data_def Let_def adpcm_inv_upd)
qed

lemma adpcm_inv_reload_body: "adpcm_inv s \<Longrightarrow> adpcm_inv (reload_body mem i format s)"
  by (simp add: reload_body_def adpcm_inv_end_of_data adpcm_inv_advance adpcm_inv_upd)

lemma adpcm_inv_reload_loop: "adpcm_inv s \<Longrightarrow> adpcm_inv (reload_loop mem i format s)"
  by (induction mem i format s rule: reload_loop.induct)
     (subst reload_loop.simps, simp add: adpcm_inv_reload_body)

lemma adpcm_inv_run_channel:
  "adpcm_inv (fst st) \<Longrightarrow> adpcm_inv (fst (run_channel mem i st))"
  by (cases st) (simp add: run_channel_def Let_def split_beta adpcm_inv_reload_loop adpcm_inv_upd)

lemma adpcm_inv_fold:
  "adpcm_inv (fst st) \<Longrightarrow> adpcm_inv (fst (fold (run_channel mem) js st))"
  by (induction js arbitrary: st) (simp_all add: adpcm_inv_run_channel)

lemma adpcm_inv_mix_channels: "adpcm_inv s \<Longrightarrow> adpcm_inv (fst (mix_channels mem s))"
  by (simp add: mix_channels_def adpcm_inv_fold)

lemma adpcm_inv_write_frame:
  "adpcm_inv m \<Longrightarrow> write_frame lim f m = Some s' \<Longrightarrow> adpcm_inv s'"
  by (cases "bufferPointer m + 1 = bufferSize m"; cases "lim \<and> ready m")
     (auto simp add: write_frame_keep write_frame_swap write_frame_blocked adpcm_inv_upd)

lemma adpcm_inv_runSample:
  "adpcm_inv s \<Longrightarrow> runSample mem lim s = Some s' \<Longrightarrow> adpcm_inv s'"
  using adpcm_inv_mix_channels[of s mem] adpcm_inv_write_frame
  by (auto simp add: runSample_unfold split: if_splits)

lemma adpcm_inv_getSamples:
  "adpcm_inv s \<Longrightarrow> getSamples newIn newOut polls count s = Inr (out, s') \<Longrightarrow> adpcm_inv s'"
  by (auto simp add: getSamples_def Let_def init_buffers_def adpcm_inv_upd split: if_splits)

lemma adpcm_ok_header:
  "adpcm_ok (min 88 (uint (drop_bit 16 (header AND 0x007F0000)))) (sint (ucast header :: u16))"
  for header :: u32
  using sint_ge[of "ucast header :: u16"] sint_lt[of "ucast header :: u16"]
  by (simp add: adpcm_ok_def)

lemma adpcm_inv_reload_registers:
  assumes "adpcm_inv s"
  shows "adpcm_inv (reload_registers mem channel s)"
proof -
  let ?h = "read_u32 mem (soundSad s channel)"
  have 1: "adpcm_inv (s\<lparr>adpcmValue := (adpcmValue s)(channel := sint (ucast ?h :: u16)),
     adpcmIndex := (adpcmIndex s)(channel := min 88 (uint (drop_bit 16 (?h AND 0x007F0000))))\<rparr>)"
    using assms adpcm_ok_header by (rule adpcm_inv_set)
  have "adpcmValue (reload_registers mem channel s) =
      (if format_of (soundCnt s channel) = 2
       then (adpcmValue s)(channel := sint (ucast ?h :: u16)) else adpcmValue s)"
    "adpcmIndex (reload_registers mem channel s) =
      (if format_of (soundCnt s channel) = 2
       then (adpcmIndex s)(channel := min 88 (uint (drop_bit 16 (?h AND 0x007F0000))))
       else adpcmIndex s)"
    "adpcmLoopValue (reload_registers mem channel s) = adpcmLoopValue s"
    "adpcmLoopIndex (reload_registers mem channel s) = adpcmLoopIndex s"
    by (simp_all add: reload_registers_def Let_def min_def)
  with 1 assms show ?thesis
    by (simp add: adpcm_inv_def split: if_splits)
qed

lemma adpcm_inv_writes:
  assumes "adpcm_inv s"
  shows "adpcm_inv (writeSoundCnt mem channel m v s)"
    "adpcm_inv (writeSoundSad channel m v s)"
    "adpcm_inv (writeSoundTmr channel m16 v16 s)"
    "adpcm_inv (writeSoundPnt channel m16 v16 s)"
    "adpcm_inv (writeSoundLen channel m v s)"
    "adpcm_inv (writeMainSoundCnt m16 v16 s)"
    "adpcm_inv (writeSoundBias m16 v16 s)"
  using assms adpcm_inv_reload_registers[OF assms]
  by (simp_all add: writeSoundCnt_def writeSoundSad_def writeSoundTmr_def writeSoundPnt_def
      writeSoundLen_def writeMainSoundCnt_def writeSoundBias_def Let_def adpcm_inv_upd)

lemma adpcm_inv_init: "adpcm_inv (spu_init r)"
  by (simp add: adpcm_inv_def adpcm_ok_def spu_init_def)

lemma reachable_adpcm_inv: "reachable s \<Longrightarrow> adpcm_inv s"
proof (induction rule: reachable.induct)
  case (r_init r)
  show ?case by (rule adpcm_inv_init)
next
  case (r_runSample s mem limitFps s')
  then show ?case by (auto intro: adpcm_inv_runSample)
next
  case (r_getSamples s newIn newOut polls count out s')
  then show ?case by (auto intro: adpcm_inv_getSamples)
qed (simp_all add: adpcm_inv_writes)

lemma reachable_adpcm_idle: "reachable adpcm_idle"
  unfolding adpcm_idle_def by (rule r_writeSoundCnt[OF r_init]) simp

lemma reachable_predictor_min: "reachable predictor_min"
  unfolding predictor_min_def by (rule r_writeSoundCnt[OF reachable_adpcm_idle]) simp

lemma predictor_min_fields:
  "adpcmValue predictor_min 0 = - 32768" "adpcmIndex predictor_min 0 = 0"
  "soundCnt predictor_min 0 = 0xC0000000"
  by (simp_all add: predictor_min_def writeSoundCnt_def reload_registers_def Let_def
      adpcm_idle_regs BIT_def format_of_def read_u32_def header_8000_def)

subsection \<open>The enable flag\<close>

lemma clear_BIT: "bit (c AND NOT (BIT n)) m = (bit c m \<and> m \<noteq> n)" for c :: "'a::len word"
  by (auto simp add: BIT_def bit_simps dest: bit_imp_le_length)

lemma enabled_bit: "enabled s i = bit (soundCnt s i) 31"
  by (simp add: enabled_def test_BIT)

lemma enabled_upd:
  "enabled (s\<lparr>soundTimers := a\<rparr>) i = enabled s i"
  "enabled (s\<lparr>soundCurrent := b\<rparr>) i = enabled s i"
  "enabled (s\<lparr>adpcmValue := d\<rparr>) i = enabled s i"
  "enabled (s\<lparr>adpcmIndex := e\<rparr>) i = enabled s i"
  "enabled (s\<lparr>adpcmToggle := f\<rparr>) i = enabled s i"
  "enabled (s\<lparr>adpcmLoopValue := g\<rparr>) i = enabled s i"
  "enabled (s\<lparr>adpcmLoopIndex := h\<rparr>) i = enabled s i"
  "enabled (s\<lparr>dutyCycles := k\<rparr>) i = enabled s i"
  "enabled (s\<lparr>noiseValues := l\<rparr>) i = enabled s i"
  "enabled (s\<lparr>bufferIn := a1\<rparr>) i = enabled s i"
  "enabled (s\<lparr>bufferOut := a2\<rparr>) i = enabled s i"
  "enabled (s\<lparr>bufferPointer := a4\<rparr>) i = enabled s i"
  "enabled (s\<lparr>ready := a5\<rparr>) i = enabled s i"
  by (simp_all add: enabled_def)

lemma soundCnt_advance: "soundCnt (advance mem j format s) = soundCnt s"
  by (simp add: advance_def adpcm_step_def psg_step_def Let_def)

lemma enabled_advance: "enabled (advance mem j format s) i = enabled s i"
  by (simp add: enabled_def soundCnt_advance)

lemma enabled_end_of_data: "enabled (end_of_data j format s) i \<Longrightarrow> enabled s i"
  by (auto simp add: end_of_data_def Let_def enabled_bit clear_BIT split: if_splits)

lemma end_of_data_one_shot:
  assumes "format \<noteq> 3" and "soundCurrent s i = end_point s i"
    and "drop_bit 27 (soundCnt s i AND 0x18000000) \<noteq> 1"
  shows "\<not> enabled (end_of_data i format s) i"
    and "soundCurrent (end_of_data i format s) i = soundCurrent s i"
  using assms by (simp_all add: end_of_data_def enabled_bit clear_BIT)

lemma enabled_reload_body: "enabled (reload_body mem j format s) i \<Longrightarrow> enabled s i"
  using enabled_end_of_data[of j format _ i]
  by (fastforce simp add: reload_body_def enabled_advance enabled_upd)

lemma enabled_reload_loop: "enabled (reload_loop mem j format s) i \<Longrightarrow> enabled s i"
proof (induction mem j format s rule: reload_loop.induct)
  case (1 mem j format s)
  from "1.prems" show ?case
    by (subst (asm) reload_loop.simps)
       (auto split: if_splits dest: "1.IH" enabled_reload_body)
qed

lemma enabled_run_channel: "enabled (fst (run_channel mem j st)) i \<Longrightarrow> enabled (fst st) i"
  by (cases st)
     (auto simp add: run_channel_def Let_def split_beta enabled_upd split: if_splits
        dest!: enabled_reload_loop)

lemma enabled_fold: "enabled (fst (fold (run_channel mem) js st)) i \<Longrightarrow> enabled (fst st) i"
proof (induction js arbitrary: st)
  case Nil
  then show ?case by simp
next
  case (Cons j js)
  from Cons.prems have "enabled (fst (fold (run_channel mem) js (run_channel mem j st))) i"
    by simp
  then have "enabled (fst (run_channel mem j st)) i"
    by (rule Cons.IH)
  then show ?case
    by (rule enabled_run_channel)
qed

lemma enabled_runSample:
  assumes "runSample mem lim s = Some s'" and "enabled s' i"
  shows "enabled s i"
proof -
  have "soundCnt s' i = soundCnt (fst (mix_channels mem s)) i"
    using runSample_chan[OF assms(1), of i] by (simp add: chan_of_def)
  with assms(2) have "enabled (fst (mix_channels mem s)) i"
    by (simp add: enabled_def)
  then show ?thesis
    unfolding mix_channels_def by (auto dest: enabled_fold)
qed

lemma enabled_runSamples:
  "runSamples mem lim n s = Some s' \<Longrightarrow> enabled s' i \<Longrightarrow> enabled s i"
  by (induction n arbitrary: s) (auto split: option.splits dest: enabled_runSample)

text \<open>A tick is the tick without the pass for a channel that is not enabled.\<close>

lemma fold_skip_disabled:
  "\<not> enabled (fst st) i \<Longrightarrow>
     fold (run_channel mem) js st = fold (run_channel mem) (filter (\<lambda>j. j \<noteq> i) js) st"
proof (induction js arbitrary: st)
  case Nil
  show ?case by simp
next
  case (Cons j js)
  show ?case
  proof (cases "j = i")
    case True
    with Cons.prems have "run_channel mem j st = st"
      by (cases st) (simp add: run_channel_disabled)
    with True Cons show ?thesis by simp
  next
    case False
    from Cons.prems have "\<not> enabled (fst (run_channel mem j st)) i"
      by (auto dest: enabled_run_channel)
    from Cons.IH[OF this] False show ?thesis by simp
  qed
qed

subsection \<open>Filling the buffer\<close>

lemma runSample_regs:
  assumes "runSample mem lim s = Some s'"
  shows "soundSad s' = soundSad s" "soundTmr s' = soundTmr s" "soundPnt s' = soundPnt s"
    "soundLen s' = soundLen s" "mainSoundCnt s' = mainSoundCnt s" "soundBias s' = soundBias s"
    "bufferSize s' = bufferSize s"
proof -
  let ?m = "fst (mix_channels mem s)"
  have w: "s' = ?m \<or> write_frame lim (tick_frame mem s) ?m = Some s'"
    using assms by (auto simp add: runSample_unfold split: if_splits)
  have k: "write_frame lim f m = Some t \<Longrightarrow>
      soundSad t = soundSad m \<and> soundTmr t = soundTmr m \<and> soundPnt t = soundPnt m
      \<and> soundLen t = soundLen m \<and> mainSoundCnt t = mainSoundCnt m \<and> soundBias t = soundBias m
      \<and> bufferSize t = bufferSize m" for f m t
    by (cases "bufferPointer m + 1 = bufferSize m"; cases "lim \<and> ready m")
       (auto simp add: write_frame_keep write_frame_swap write_frame_blocked)
  from w k[of "tick_frame mem s" ?m s']
  show "soundSad s' = soundSad s" "soundTmr s' = soundTmr s" "soundPnt s' = soundPnt s"
    "soundLen s' = soundLen s" "mainSoundCnt s' = mainSoundCnt s" "soundBias s' = soundBias s"
    "bufferSize s' = bufferSize s"
    by (auto simp add: mixed_static)
qed

lemma runSample_keep:
  assumes "bufferSize s \<noteq> 0" and "bufferPointer s + 1 \<noteq> bufferSize s"
  shows "\<exists>s'. runSample mem lim s = Some s'
    \<and> bufferIn s' = (bufferIn s)[bufferPointer s := tick_frame mem s]
    \<and> bufferOut s' = bufferOut s \<and> bufferPointer s' = bufferPointer s + 1
    \<and> ready s' = ready s \<and> bufferSize s' = bufferSize s"
  using assms by (simp add: runSample_unfold write_frame_keep mixed_static)

lemma runSample_swap:
  assumes "bufferSize s \<noteq> 0" and "bufferPointer s + 1 = bufferSize s" and "lim \<longrightarrow> \<not> ready s"
  shows "\<exists>s'. runSample mem lim s = Some s'
    \<and> bufferOut s' = (bufferIn s)[bufferPointer s := tick_frame mem s]
    \<and> bufferIn s' = bufferOut s \<and> bufferPointer s' = 0
    \<and> ready s' \<and> bufferSize s' = bufferSize s"
  using assms by (simp add: runSample_unfold write_frame_swap mixed_static)

lemma update_last: "length xs = Suc p \<Longrightarrow> xs[p := f] = take p xs @ [f]"
  by (induction xs arbitrary: p) (auto split: nat.splits)

lemma take_update: "p < length xs \<Longrightarrow> take (Suc p) (xs[p := f]) = take p xs @ [f]"
  by (induction xs arbitrary: p) (auto split: nat.splits)

lemma length_produced_frames:
  "runSamples mem lim k s = Some s' \<Longrightarrow> length (produced_frames mem lim k s) = k"
  by (induction k arbitrary: s) (auto split: option.splits)

lemma fill_buffer:
  assumes "bufferSize s = n" and "length (bufferIn s) = n" and "bufferPointer s + k = n"
    and "0 < k" and "lim \<longrightarrow> \<not> ready s"
  shows "\<exists>s'. runSamples mem lim k s = Some s' \<and> ready s' \<and> bufferSize s' = n
    \<and> bufferOut s' = take (bufferPointer s) (bufferIn s) @ produced_frames mem lim k s"
  using assms
proof (induction k arbitrary: s)
  case 0
  then show ?case by simp
next
  case (Suc k)
  show ?case
  proof (cases "k = 0")
    case True
    with Suc.prems have p: "bufferPointer s + 1 = bufferSize s" and nz: "bufferSize s \<noteq> 0"
      by simp_all
    from runSample_swap[OF nz p Suc.prems(5), of mem] obtain s' where
      r: "runSample mem lim s = Some s'" "ready s'" "bufferSize s' = bufferSize s"
        "bufferOut s' = (bufferIn s)[bufferPointer s := tick_frame mem s]"
      by blast
    from Suc.prems p have "length (bufferIn s) = Suc (bufferPointer s)"
      by simp
    from update_last[OF this] r True Suc.prems(1) show ?thesis
      by simp
  next
    case False
    with Suc.prems have p: "bufferPointer s + 1 \<noteq> bufferSize s" and nz: "bufferSize s \<noteq> 0"
      and lt: "bufferPointer s < length (bufferIn s)"
      by simp_all
    from runSample_keep[OF nz p, of mem lim] obtain s1 where
      r: "runSample mem lim s = Some s1"
        "bufferIn s1 = (bufferIn s)[bufferPointer s := tick_frame mem s]"
        "bufferPointer s1 = bufferPointer s + 1" "ready s1 = ready s"
        "bufferSize s1 = bufferSize s"
      by blast
    have "\<exists>s'. runSamples mem lim k s1 = Some s' \<and> ready s' \<and> bufferSize s' = n
      \<and> bufferOut s' = take (bufferPointer s1) (bufferIn s1) @ produced_frames mem lim k s1"
      using Suc.prems False r by (intro Suc.IH) simp_all
    then obtain s' where
      i: "runSamples mem lim k s1 = Some s'" "ready s'" "bufferSize s' = n"
        "bufferOut s' = take (bufferPointer s1) (bufferIn s1) @ produced_frames mem lim k s1"
      by blast
    from i r take_update[OF lt, of "tick_frame mem s"] show ?thesis
      by simp
  qed
qed

subsection \<open>The timer of a PCM8 channel\<close>

lemma u16_bound: "unat (x :: u16) < 65536"
  using unsigned_less[of x, where 'a = nat] by simp
lemma u32_bound: "unat (x :: u32) < 4294967296"
  using unsigned_less[of x, where 'a = nat] by simp
lemma timer_pred:
  assumes "(x :: u16) \<noteq> 0"
  shows "unat (x + 0xFFFF) = unat x - 1"
proof -
  have e: "x + 0xFFFF = x - 1" by simp
  show ?thesis unfolding e using assms by (rule unat_minus_one)
qed
lemma timer_wraps: "((x :: u16) + 0xFFFF < 0xFFFF) = (x \<noteq> 0)"
proof (cases "x = 0")
  case True
  then show ?thesis by simp
next
  case False
  have u: "unat (0xFFFF :: u16) = 65535" by simp
  from False have "0 < unat x" by (simp add: unat_gt_0)
  with timer_pred[OF False] u16_bound[of x] have "unat (x + 0xFFFF) < 65535"
    by linarith
  with False show ?thesis
    by (simp only: word_less_nat_alt u) simp
qed
lemma tick_no_wrap:
  assumes "unat (x :: u16) + 512 < 65536"
  shows "\<not> (x + 512 < 512)" and "unat (x + 512) = unat x + 512"
proof -
  have "unat x + unat (512 :: u16) < 2 ^ LENGTH(16)"
    using assms by simp
  then have "unat (x + 512) = unat x + unat (512 :: u16)"
    by (rule unat_add_lem[THEN iffD1])
  then show u: "unat (x + 512) = unat x + 512" by simp
  have "unat (512 :: u16) = 512" by simp
  with u show "\<not> (x + 512 < 512)"
    by (simp add: word_less_nat_alt)
qed
lemma address_succ:
  assumes "unat (c :: u32) + 1 < unat (e :: u32)"
  shows "unat (c + 1) = unat c + 1" and "c + 1 \<noteq> e"
proof -
  have "unat c + unat (1 :: u32) < 2 ^ LENGTH(32)"
    using assms u32_bound[of e] by simp
  then have "unat (c + 1) = unat c + unat (1 :: u32)"
    by (rule unat_add_lem[THEN iffD1])
  then show u: "unat (c + 1) = unat c + 1" by simp
  from u assms show "c + 1 \<noteq> e"
    by auto
qed

lemma pcm8_body:
  "soundTimers (reload_body mem i 0 s) i = soundTimers s i + soundTmr s i"
  "soundCurrent (reload_body mem i 0 s) i =
     (if soundCurrent s i + 1 = end_point s i \<and> drop_bit 27 (soundCnt s i AND 0x18000000) = 1
      then loop_point s i else soundCurrent s i + 1)"
  "soundCurrent s i + 1 \<noteq> end_point s i \<Longrightarrow> soundCnt (reload_body mem i 0 s) i = soundCnt s i"
  by (simp_all add: reload_body_def advance_def end_of_data_def end_point_def loop_point_def Let_def)

lemma regs_reload_body:
  "soundTmr (reload_body mem i format s) = soundTmr s"
  "end_point (reload_body mem i format s) j = end_point s j"
  using static_ofD[OF static_reload_body[of mem i format s]]
  by (simp_all add: end_point_def)

lemma pcm8_fast_loop:
  "format = 0 \<Longrightarrow> soundTmr s i = 0xFFFF \<Longrightarrow>
   unat (soundCurrent s i) + unat (soundTimers s i) + 1 < unat (end_point s i) \<Longrightarrow>
     soundCnt (reload_loop mem i format s) i = soundCnt s i
   \<and> unat (soundCurrent (reload_loop mem i format s) i)
        = unat (soundCurrent s i) + unat (soundTimers s i) + 1
   \<and> soundTimers (reload_loop mem i format s) i = 0xFFFF"
proof (induction mem i format s rule: reload_loop.induct)
  case (1 mem i format s)
  let ?b = "reload_body mem i format s"
  from "1.prems" have f: "format = 0" and tmr: "soundTmr s i = 0xFFFF"
    and lt: "unat (soundCurrent s i) + unat (soundTimers s i) + 1 < unat (end_point s i)"
    by simp_all
  from lt have lt1: "unat (soundCurrent s i) + 1 < unat (end_point s i)"
    by simp
  note a = address_succ[OF lt1]
  have bt: "soundTimers ?b i = soundTimers s i + 0xFFFF"
    using pcm8_body(1)[of mem i s] f tmr by simp
  have bc: "soundCurrent ?b i = soundCurrent s i + 1"
    using pcm8_body(2)[of mem i s] f a(2) by simp
  have bn: "soundCnt ?b i = soundCnt s i"
    using pcm8_body(3)[of s i mem] f a(2) by simp
  show ?case
  proof (cases "reload_overflow i s")
    case True
    then have nz: "soundTimers s i \<noteq> 0"
      by (simp add: reload_overflow_def tmr timer_wraps)
    then have pos: "0 < unat (soundTimers s i)"
      by (simp add: unat_gt_0)
    have p: "unat (soundTimers ?b i) = unat (soundTimers s i) - 1"
      using timer_pred[OF nz] bt by simp
    have "unat (soundCurrent ?b i) + unat (soundTimers ?b i) + 1 < unat (end_point ?b i)"
      using lt pos by (simp add: bc a(1) p regs_reload_body)
    from "1.IH"[OF True f _ this] tmr
    have "soundCnt (reload_loop mem i format ?b) i = soundCnt ?b i
      \<and> unat (soundCurrent (reload_loop mem i format ?b) i)
           = unat (soundCurrent ?b i) + unat (soundTimers ?b i) + 1
      \<and> soundTimers (reload_loop mem i format ?b) i = 0xFFFF"
      by (simp add: regs_reload_body)
    moreover have "reload_loop mem i format s = reload_loop mem i format ?b"
      using True by (subst reload_loop.simps) simp
    ultimately show ?thesis
      using pos by (simp add: bn bc a(1) p)
  next
    case False
    then have z: "soundTimers s i = 0"
      by (simp add: reload_overflow_def tmr timer_wraps)
    have "reload_loop mem i format s = ?b"
      using False by (subst reload_loop.simps) simp
    then show ?thesis
      by (simp add: bn bc bt a(1) z)
  qed
qed

subsection \<open>A pass of the channel loop only reads its own channel\<close>

lemma chan_ofD:
  assumes "chan_of s i = chan_of t i"
  shows "soundCnt s i = soundCnt t i" "soundCurrent s i = soundCurrent t i"
    "soundTimers s i = soundTimers t i" "adpcmValue s i = adpcmValue t i"
    "adpcmIndex s i = adpcmIndex t i" "adpcmToggle s i = adpcmToggle t i"
    "adpcmLoopValue s i = adpcmLoopValue t i" "adpcmLoopIndex s i = adpcmLoopIndex t i"
    "8 \<le> i \<Longrightarrow> i \<le> 13 \<Longrightarrow> dutyCycles s (i - 8) = dutyCycles t (i - 8)"
    "14 \<le> i \<Longrightarrow> noiseValues s (i - 14) = noiseValues t (i - 14)"
  using assms by (simp_all add: chan_of_def)

lemma agreeD:
  assumes "agree i s t"
  shows "soundCnt s i = soundCnt t i" "soundCurrent s i = soundCurrent t i"
    "soundTimers s i = soundTimers t i" "adpcmValue s i = adpcmValue t i"
    "adpcmIndex s i = adpcmIndex t i" "adpcmToggle s i = adpcmToggle t i"
    "adpcmLoopValue s i = adpcmLoopValue t i" "adpcmLoopIndex s i = adpcmLoopIndex t i"
    "soundSad s = soundSad t" "soundTmr s = soundTmr t" "soundPnt s = soundPnt t"
    "soundLen s = soundLen t"
    "loop_point s i = loop_point t i" "end_point s i = end_point t i"
    "enabled s i = enabled t i"
proof -
  from assms have c: "chan_of s i = chan_of t i" and st: "static_of s = static_of t"
    by (simp_all add: agree_def)
  note d = chan_ofD[OF c] static_ofD[OF st]
  show "soundCnt s i = soundCnt t i" "soundCurrent s i = soundCurrent t i"
    "soundTimers s i = soundTimers t i" "adpcmValue s i = adpcmValue t i"
    "adpcmIndex s i = adpcmIndex t i" "adpcmToggle s i = adpcmToggle t i"
    "adpcmLoopValue s i = adpcmLoopValue t i" "adpcmLoopIndex s i = adpcmLoopIndex t i"
    "soundSad s = soundSad t" "soundTmr s = soundTmr t" "soundPnt s = soundPnt t"
    "soundLen s = soundLen t"
    by (rule d)+
  show "loop_point s i = loop_point t i" "end_point s i = end_point t i"
    "enabled s i = enabled t i"
    by (simp_all add: loop_point_def end_point_def enabled_def d)
qed

lemma agree_refl: "agree i s s"
  by (simp add: agree_def)

lemma agree_upd:
  assumes "agree i s t"
  shows "agree i (s\<lparr>soundTimers := (soundTimers s)(i := a)\<rparr>)
                 (t\<lparr>soundTimers := (soundTimers t)(i := a)\<rparr>)"
    "agree i (s\<lparr>soundCurrent := (soundCurrent s)(i := b)\<rparr>)
             (t\<lparr>soundCurrent := (soundCurrent t)(i := b)\<rparr>)"
    "agree i (s\<lparr>soundCnt := (soundCnt s)(i := c)\<rparr>)
             (t\<lparr>soundCnt := (soundCnt t)(i := c)\<rparr>)"
  using assms by (auto simp add: agree_def chan_of_def static_of_def split: if_splits)

lemma agree_adpcm_step:
  assumes "agree i s t"
  shows "agree i (adpcm_step mem i s) (adpcm_step mem i t)"
proof -
  note d = agreeD[OF assms]
  have n: "adpcm_nibble mem i s = adpcm_nibble mem i t"
    by (simp add: adpcm_nibble_def d)
  have "chan_of (adpcm_step mem i s) i = chan_of (adpcm_step mem i t) i"
    using assms
    by (auto simp add: chan_of_def adpcm_step_changed adpcm_step_unchanged n d agree_def
        split: if_splits)
  moreover have "static_of (adpcm_step mem i s) = static_of (adpcm_step mem i t)"
    using assms by (simp add: static_adpcm_step agree_def)
  ultimately show ?thesis
    by (simp add: agree_def)
qed

lemma agree_psg_step:
  assumes "agree i s t"
  shows "agree i (psg_step i s) (psg_step i t)"
  using assms
  by (auto simp add: agree_def psg_step_def chan_of_def static_of_def split: if_splits)

lemma agree_advance:
  assumes "agree i s t"
  shows "agree i (advance mem i format s) (advance mem i format t)"
  using assms agree_adpcm_step[OF assms] agree_psg_step[OF assms]
    agree_upd(2)[OF assms] agreeD(2)[OF assms]
  by (simp add: advance_def)

lemma agree_end_of_data:
  assumes "agree i s t"
  shows "agree i (end_of_data i format s) (end_of_data i format t)"
proof -
  note d = agreeD[OF assms]
  have "chan_of (end_of_data i format s) i = chan_of (end_of_data i format t) i"
    using assms
    by (auto simp add: end_of_data_def Let_def chan_of_def d agree_def split: if_splits)
  moreover have "static_of (end_of_data i format s) = static_of (end_of_data i format t)"
    using assms by (simp add: static_end_of_data agree_def)
  ultimately show ?thesis
    by (simp add: agree_def)
qed

lemma agree_reload_body:
  assumes "agree i s t"
  shows "agree i (reload_body mem i format s) (reload_body mem i format t)"
  unfolding reload_body_def
  using agree_upd(1)[OF assms, of "soundTimers s i + soundTmr s i"] agreeD(3,10)[OF assms]
  by (intro agree_end_of_data agree_advance) simp

lemma agree_overflow: "agree i s t \<Longrightarrow> reload_overflow i s = reload_overflow i t"
  by (simp add: reload_overflow_def agreeD(3,10))

lemma agree_reload_loop:
  "agree i s t \<Longrightarrow> agree i (reload_loop mem i format s) (reload_loop mem i format t)"
proof (induction mem i format s arbitrary: t rule: reload_loop.induct)
  case (1 mem i format s)
  note b = agree_reload_body[OF "1.prems", of mem format]
  note o = agree_overflow[OF "1.prems"]
  show ?case
  proof (cases "reload_overflow i s")
    case True
    from "1.IH"[OF True b] True o show ?thesis
      by (subst reload_loop.simps, subst (2) reload_loop.simps) simp
  next
    case False
    with b o show ?thesis
      by (subst reload_loop.simps, subst (2) reload_loop.simps) simp
  qed
qed

text \<open>The state after the pass for channel \<open>i\<close>, without the two accumulators.\<close>

lemma run_channel_state:
  "fst (run_channel mem i (s, l, r)) =
     (if \<not> enabled s i then s
      else if soundTimers (tick_timer i s) i < 512
           then reload_loop mem i (format_of (soundCnt s i)) (tick_timer i s)
           else tick_timer i s)"
  by (simp add: run_channel_def tick_timer_def Let_def split_beta)

lemma agree_tick_timer: "agree i s t \<Longrightarrow> agree i (tick_timer i s) (tick_timer i t)"
  unfolding tick_timer_def
  using agree_upd(1)[of i s t "soundTimers s i + 512"] agreeD(3)[of i s t] by simp

lemma agree_run_channel:
  assumes "agree i s t"
  shows "agree i (fst (run_channel mem i (s, l, r))) (fst (run_channel mem i (t, l', r')))"
proof -
  note d = agreeD[OF assms]
  note tt = agree_tick_timer[OF assms]
  from agreeD(3)[OF tt] agree_reload_loop[OF tt] tt assms show ?thesis
    by (simp add: run_channel_state d)
qed

text \<open>
  Channel \<open>i\<close> after a call of runSample is channel \<open>i\<close> after its own pass of the
  channel loop, run on the state before the call.
\<close>

lemma runSample_channel:
  assumes "i < 16" and "runSample mem lim s = Some s'"
  shows "chan_of s' i = chan_of (fst (run_channel mem i (s, 0, 0))) i"
proof -
  have "chan_of (fst (mix_channels mem s)) i = chan_of (fst (run_channel mem i (s, 0, 0))) i"
  proof (rule mix_channels_chan[OF assms(1)])
    fix t l r
    assume "chan_of t i = chan_of s i" and "static_of t = static_of s"
    then have "agree i t s"
      by (simp add: agree_def)
    from agree_run_channel[OF this, of mem l r 0 0]
    show "chan_of (fst (run_channel mem i (t, l, r))) i
        = chan_of (fst (run_channel mem i (s, 0, 0))) i"
      by (simp add: agree_def)
  qed
  with runSample_chan[OF assms(2), of i] show ?thesis
    by simp
qed

lemma runSample_False_total: "\<exists>s'. runSample mem False s = Some s'"
  by (cases "bufferPointer (fst (mix_channels mem s)) + 1 = bufferSize (fst (mix_channels mem s))")
     (simp_all add: runSample_unfold write_frame_keep write_frame_swap)

lemma runSamples_False_total: "\<exists>s'. runSamples mem False n s = Some s'"
proof (induction n arbitrary: s)
  case 0
  show ?case by simp
next
  case (Suc n)
  from runSample_False_total[of mem s] obtain s1 where "runSample mem False s = Some s1"
    by blast
  with Suc[of s1] show ?case by simp
qed

lemma runSamples_add:
  "runSamples mem lim (a + b) s =
     (case runSamples mem lim a s of None \<Rightarrow> None | Some t \<Rightarrow> runSamples mem lim b t)"
  by (induction a arbitrary: s) (simp_all split: option.splits)

subsection \<open>A tick of an ADPCM channel\<close>

lemma adpcm_reload_body_spec:
  assumes "0 \<le> adpcmIndex s i" and "adpcmIndex s i \<le> 88"
  shows "reload_body mem i 2 s = adpcm_reload_spec mem i s"
proof -
  let ?t = "s\<lparr>soundTimers := (soundTimers s)(i := soundTimers s i + soundTmr s i)\<rparr>"
  have "0 \<le> adpcmIndex ?t i" "adpcmIndex ?t i \<le> 88"
    using assms by simp_all
  from adpcm_step_spec[OF this, of mem] show ?thesis
    by (simp add: reload_body_def adpcm_reload_spec_def advance_def)
qed

lemma run_channel_chan:
  assumes "i < 16" and "enabled s i" and "runSample mem lim s = Some s'"
  shows "chan_of s' i =
     chan_of (if soundTimers s i + 512 < 512
              then reload_loop mem i (format_of (soundCnt s i)) (tick_timer i s)
              else tick_timer i s) i"
proof -
  have "soundTimers (tick_timer i s) i = soundTimers s i + 512"
    by (simp add: tick_timer_def)
  with runSample_channel[OF assms(1,3)] assms(2) show ?thesis
    by (simp add: run_channel_state)
qed

lemma adpcm_playing_fields:
  "soundCnt adpcm_playing 0 = 0xC0000000" "soundTmr adpcm_playing 0 = 0xFE00"
  "soundTimers adpcm_playing 0 = 0xFE00" "adpcmValue adpcm_playing 0 = 0x1234"
  "adpcmIndex adpcm_playing 0 = 0" "soundCurrent adpcm_playing 0 = 4"
  "\<not> adpcmToggle adpcm_playing 0" "soundSad adpcm_playing 0 = 0"
  "soundPnt adpcm_playing 0 = 0" "soundLen adpcm_playing 0 = 0" "bufferSize adpcm_playing = 0"
  by (simp_all add: adpcm_playing_def writeSoundCnt_def writeSoundTmr_def reload_registers_def
      Let_def adpcm_idle_def spu_init_def BIT_def format_of_def read_u32_def adpcm_data_def)

lemma adpcm_playing_reload:
  "adpcmValue (adpcm_reload_spec adpcm_data 0 (tick_timer 0 adpcm_playing)) 0 = 0x123B"
  "adpcmIndex (adpcm_reload_spec adpcm_data 0 (tick_timer 0 adpcm_playing)) 0 = 2"
  "adpcmToggle (adpcm_reload_spec adpcm_data 0 (tick_timer 0 adpcm_playing)) 0"
  "soundCurrent (adpcm_reload_spec adpcm_data 0 (tick_timer 0 adpcm_playing)) 0 = 4"
  "soundTimers (adpcm_reload_spec adpcm_data 0 (tick_timer 0 adpcm_playing)) 0 = 0xFE00"
proof -
  let ?u = "(tick_timer 0 adpcm_playing)\<lparr>soundTimers :=
      (soundTimers (tick_timer 0 adpcm_playing))
        (0 := soundTimers (tick_timer 0 adpcm_playing) 0 + soundTmr (tick_timer 0 adpcm_playing) 0)\<rparr>"
  let ?d = "adpcm_decode_spec adpcm_data 0 ?u"
  have u: "adpcmValue ?u 0 = 0x1234" "adpcmIndex ?u 0 = 0" "soundCurrent ?u 0 = 4"
    "\<not> adpcmToggle ?u 0" "soundTimers ?u 0 = 0xFE00" "soundSad ?u 0 = 0" "soundPnt ?u 0 = 0"
    "soundLen ?u 0 = 0"
    by (simp_all add: tick_timer_def adpcm_playing_fields)
  have n: "spec_nibble adpcm_data 0 ?u = 12"
    by (simp add: spec_nibble_def tick_timer_def adpcm_playing_fields adpcm_data_def)
  have t0: "adpcmTable ! 0 = 7" and i4: "indexTable ! 4 = 2"
    by (simp_all add: adpcmTable_def indexTable_def)
  have b: "bit (12 :: int) 2" "bit (12 :: int) 3" "\<not> bit (12 :: int) 0" "\<not> bit (12 :: int) 1"
    by (simp_all add: bit_iff_odd)
  have m: "spec_magnitude 0 12 = 7" "spec_predictor 0x1234 7 12 = 0x123B" "spec_index 0 12 = 2"
    by (simp_all add: spec_magnitude_def spec_predictor_def spec_index_def t0 i4 b)
  have d: "adpcmValue ?d 0 = 0x123B" "adpcmIndex ?d 0 = 2" "adpcmToggle ?d 0"
    "soundCurrent ?d 0 = 4" "soundTimers ?d 0 = 0xFE00"
    using n by (simp_all add: adpcm_decode_spec_fields tick_timer_def adpcm_playing_fields m)
  have st: "static_of ?d = static_of ?u"
    by (rule adpcm_decode_spec_fields)
  have ep: "end_point ?d 0 = 0"
    using static_ofD[OF st]
    by (simp add: end_point_def tick_timer_def adpcm_playing_fields)
  have e: "end_of_data 0 2 ?d = ?d"
    by (simp add: end_of_data_def ep d)
  have r: "adpcm_reload_spec adpcm_data 0 (tick_timer 0 adpcm_playing) = ?d"
    unfolding adpcm_reload_spec_def by (rule e)
  show "adpcmValue (adpcm_reload_spec adpcm_data 0 (tick_timer 0 adpcm_playing)) 0 = 0x123B"
    "adpcmIndex (adpcm_reload_spec adpcm_data 0 (tick_timer 0 adpcm_playing)) 0 = 2"
    "adpcmToggle (adpcm_reload_spec adpcm_data 0 (tick_timer 0 adpcm_playing)) 0"
    "soundCurrent (adpcm_reload_spec adpcm_data 0 (tick_timer 0 adpcm_playing)) 0 = 4"
    "soundTimers (adpcm_reload_spec adpcm_data 0 (tick_timer 0 adpcm_playing)) 0 = 0xFE00"
    unfolding r by (rule d)+
qed

subsection \<open>The end of a one-shot sound\<close>

lemma mode_clear:
  "drop_bit 27 ((c AND NOT (BIT 31)) AND 0x18000000) = drop_bit 27 (c AND (0x18000000 :: u32))"
proof -
  have h: "\<not> bit (0x18000000 :: u32) 31"
    by simp
  have b: "bit ((c AND NOT (BIT 31)) AND 0x18000000) n = bit (c AND (0x18000000 :: u32)) n" for n
  proof -
    have "bit ((c AND NOT (BIT 31)) AND 0x18000000) n
        = (bit (c AND NOT (BIT 31)) n \<and> bit (0x18000000 :: u32) n)"
      by (rule bit_and_iff)
    also have "\<dots> = ((bit c n \<and> n \<noteq> 31) \<and> bit (0x18000000 :: u32) n)"
      by (simp only: clear_BIT)
    also have "\<dots> = (bit c n \<and> bit (0x18000000 :: u32) n)"
      using h by (cases "n = 31") simp_all
    also have "\<dots> = bit (c AND 0x18000000) n"
      by (simp only: bit_and_iff)
    finally show ?thesis .
  qed
  have "(c AND NOT (BIT 31)) AND 0x18000000 = c AND (0x18000000 :: u32)"
    by (rule bit_word_eqI) (rule b)
  then show ?thesis by (simp only:)
qed

lemma mode_end_of_data:
  "drop_bit 27 (soundCnt (end_of_data j format s) i AND 0x18000000)
     = drop_bit 27 (soundCnt s i AND 0x18000000)"
  by (simp add: end_of_data_def Let_def mode_clear del: drop_bit_and)

lemma mode_reload_body:
  "drop_bit 27 (soundCnt (reload_body mem j format s) i AND 0x18000000)
     = drop_bit 27 (soundCnt s i AND 0x18000000)"
  unfolding reload_body_def
  by (simp only: mode_end_of_data soundCnt_advance) simp

lemma reload_body_one_shot:
  assumes f: "format \<noteq> 3" and m: "drop_bit 27 (soundCnt s i AND 0x18000000) \<noteq> 1"
    and e: "soundCurrent (reload_body mem i format s) i = end_point s i"
  shows "\<not> enabled (reload_body mem i format s) i"
proof -
  let ?t = "advance mem i format (s\<lparr>soundTimers := (soundTimers s)(i := soundTimers s i + soundTmr s i)\<rparr>)"
  have st: "static_of ?t = static_of s"
    by (simp add: static_advance static_upd)
  have ep: "end_point ?t i = end_point s i"
    using static_ofD[OF st] by (simp add: end_point_def)
  have cnt: "soundCnt ?t i = soundCnt s i"
    by (simp add: soundCnt_advance)
  have rb: "reload_body mem i format s = end_of_data i format ?t"
    by (simp add: reload_body_def)
  have "soundCurrent ?t i = end_point ?t i"
  proof (rule ccontr)
    assume ne: "soundCurrent ?t i \<noteq> end_point ?t i"
    then have "end_of_data i format ?t = ?t"
      by (simp add: end_of_data_def)
    with e rb ne ep show False by simp
  qed
  from end_of_data_one_shot(1)[OF f this] m cnt rb show ?thesis
    by simp
qed

lemma disabled_after_pass:
  assumes "\<not> enabled (reload_body mem i format u) i"
  shows "\<not> enabled (reload_loop mem i format u) i"
proof (cases "reload_overflow i u")
  case True
  then have "reload_loop mem i format u = reload_loop mem i format (reload_body mem i format u)"
    by (subst reload_loop.simps) simp
  with assms show ?thesis
    by (auto dest: enabled_reload_loop)
next
  case False
  then have "reload_loop mem i format u = reload_body mem i format u"
    by (subst reload_loop.simps) simp
  with assms show ?thesis by simp
qed

lemma passes_keep:
  "end_point ((reload_body mem i format ^^ k) t) j = end_point t j"
  "drop_bit 27 (soundCnt ((reload_body mem i format ^^ k) t) j AND 0x18000000)
     = drop_bit 27 (soundCnt t j AND 0x18000000)"
  by (induction k) (simp_all add: regs_reload_body mode_reload_body del: drop_bit_and)

lemma reload_loop_skip:
  "(\<And>j. j < k \<Longrightarrow> reload_overflow i ((reload_body mem i format ^^ j) t)) \<Longrightarrow>
     reload_loop mem i format t = reload_loop mem i format ((reload_body mem i format ^^ k) t)"
proof (induction k)
  case 0
  show ?case by simp
next
  case (Suc k)
  have "reload_loop mem i format t = reload_loop mem i format ((reload_body mem i format ^^ k) t)"
    using Suc.prems by (intro Suc.IH) simp
  also have "\<dots> = reload_loop mem i format
      (reload_body mem i format ((reload_body mem i format ^^ k) t))"
    using Suc.prems[of k] by (subst reload_loop.simps) simp
  finally show ?case by simp
qed

lemma loop_end_one_shot:
  "format \<noteq> 3 \<Longrightarrow> drop_bit 27 (soundCnt u i AND 0x18000000) \<noteq> 1 \<Longrightarrow>
   soundCurrent (reload_loop mem i format u) i = end_point u i \<Longrightarrow>
   \<not> enabled (reload_loop mem i format u) i"
proof (induction mem i format u rule: reload_loop.induct)
  case (1 mem i format u)
  show ?case
  proof (cases "reload_overflow i u")
    case True
    then have r: "reload_loop mem i format u
        = reload_loop mem i format (reload_body mem i format u)"
      by (subst reload_loop.simps) simp
    have "\<not> enabled (reload_loop mem i format (reload_body mem i format u)) i"
      using "1.prems" r
      by (intro "1.IH"[OF True]) (simp_all add: mode_reload_body regs_reload_body del: drop_bit_and)
    with r show ?thesis by simp
  next
    case False
    then have r: "reload_loop mem i format u = reload_body mem i format u"
      by (subst reload_loop.simps) simp
    from reload_body_one_shot[OF "1.prems"(1,2)] "1.prems"(3) r show ?thesis
      by simp
  qed
qed

lemma tick_timer_regs:
  "end_point (tick_timer i s) j = end_point s j" "soundCnt (tick_timer i s) = soundCnt s"
  "soundCurrent (tick_timer i s) = soundCurrent s" "soundTmr (tick_timer i s) = soundTmr s"
  "soundTimers (tick_timer i s) i = soundTimers s i + 512"
  "enabled (tick_timer i s) j = enabled s j"
  by (simp_all add: tick_timer_def end_point_def enabled_def)

lemma current_end_of_data_one_shot:
  "drop_bit 27 (soundCnt s i AND 0x18000000) \<noteq> 1 \<Longrightarrow>
     soundCurrent (end_of_data i format s) = soundCurrent s"
  by (simp add: end_of_data_def del: drop_bit_and)

subsection \<open>A tick with a single enabled channel\<close>

lemma mix_channels_single:
  assumes i: "i < 16" and others: "\<And>j. j \<noteq> i \<Longrightarrow> \<not> enabled s j"
  shows "mix_channels mem s = run_channel mem i (s, 0, 0)"
proof -
  obtain s1 l1 r1 where r: "run_channel mem i (s, 0, 0) = (s1, l1, r1)"
    by (cases "run_channel mem i (s, 0, 0)") auto
  have pre: "fold (run_channel mem) [0..<i] (s, 0, 0) = (s, 0, 0)"
    using others by (intro fold_disabled) fastforce
  have "\<not> enabled s1 j" if "j \<noteq> i" for j
  proof
    assume "enabled s1 j"
    then have "enabled (fst (run_channel mem i (s, 0, 0))) j"
      by (simp add: r)
    then have "enabled s j"
      by (auto dest: enabled_run_channel)
    with others[OF that] show False by simp
  qed
  then have post: "fold (run_channel mem) [Suc i..<16] (s1, l1, r1) = (s1, l1, r1)"
    by (intro fold_disabled) auto
  show ?thesis
    unfolding mix_channels_def upt_split3[OF i] by (simp add: pre r post)
qed

lemma run_channel_acc:
  assumes "enabled s i"
  shows "snd (run_channel mem i (s, l, r)) =
     (l + fst (mix_channel (soundCnt (fst (run_channel mem i (s, l, r))) i)
                 (read_data mem i (format_of (soundCnt s i)) s)),
      r + snd (mix_channel (soundCnt (fst (run_channel mem i (s, l, r))) i)
                 (read_data mem i (format_of (soundCnt s i)) s)))"
  using assms by (simp add: run_channel_def Let_def split_beta)

lemma pulse_mix:
  "mix_channel 0xE640007F (- 0x7FFF) = (- 4194176, - 4194176)"
  "mix_channel 0xE640007F 0x7FFF = (4194176, 4194176)"
  by (simp_all add: mix_channel_def Let_def divShift_of_def mulFactor_of_def panValue_of_def
      volume_divider_def volume_factor_def pan_left_def pan_right_def
      signed_divide_int_def push_bit_eq_mult drop_bit_eq_div)

lemma pulse_output:
  "drop_bit 21 (master_volume (- 4194176) (masterVol_of 0x007F)) + uint (0x0080 :: u16) = - 128"
  "drop_bit 21 (master_volume 4194176 (masterVol_of 0x007F)) + uint (0x0080 :: u16) = 383"
  "clip (- 128) = 0" "clip 383 = 383"
  "output_sample 0x007F 0x0080 (- 4194176) = - 0x4000"
  "output_sample 0x007F 0x0080 4194176 = - 4128"
  by (simp_all add: output_sample_def master_volume_def masterVol_of_def clip_def Let_def
      signed_divide_int_def push_bit_eq_mult drop_bit_eq_div)

lemma pulse_frames:
  "pack_frame (- 0x4000) (- 0x4000) = 0xC000C000"
  "pack_frame (- 4128) (- 4128) = 0xEFE0EFE0"
  by (simp_all add: pack_frame_def)

lemma pulse_pass_regs:
  assumes c: "soundCnt s 8 = 0xE640007F" and t: "soundTimers s 8 = 0xFE00"
    and r: "soundTmr s 8 = 0xFE00"
  shows "fst (run_channel mem 8 (s, l0, r0)) =
     psg_step 8 (s\<lparr>soundTimers := (soundTimers s)(8 := 0xFE00)\<rparr>)"
proof -
  have en: "enabled s 8"
    by (simp add: enabled_def c BIT_def)
  have f: "format_of (soundCnt s 8) = 3"
    by (simp add: format_of_def c)
  have tt: "soundTimers (tick_timer 8 s) 8 = 0" "soundTmr (tick_timer 8 s) 8 = 0xFE00"
    by (simp_all add: tick_timer_def t r)
  have "reload_loop mem 8 3 (tick_timer 8 s) = reload_body mem 8 3 (tick_timer 8 s)"
    by (subst reload_loop.simps) (simp add: reload_overflow_def tt)
  also have "\<dots> = psg_step 8 (s\<lparr>soundTimers := (soundTimers s)(8 := 0xFE00)\<rparr>)"
  proof -
    have w: "(130560 :: u16) = 65024"
      by simp
    show ?thesis
      by (simp add: reload_body_def advance_def end_of_data_def tick_timer_def t r w)
  qed
  finally show ?thesis
    using en f tt by (simp add: run_channel_state)
qed

lemma pulse_pass:
  assumes "pulse_state s"
  shows "fst (run_channel mem 8 (s, 0, 0)) =
     psg_step 8 (s\<lparr>soundTimers := (soundTimers s)(8 := 0xFE00)\<rparr>)"
  using assms by (intro pulse_pass_regs) (simp_all add: pulse_state_def)

lemma pulse_tick:
  assumes "pulse_state s"
  shows "snd (mix_channels mem s) =
      (if dutyCycles s 0 < 1 then (- 4194176, - 4194176) else (4194176, 4194176))"
    and "tick_samples mem s =
      (if dutyCycles s 0 < 1 then (- 0x4000, - 0x4000) else (- 4128, - 4128))"
    and "tick_frame mem s = (if dutyCycles s 0 < 1 then 0xC000C000 else 0xEFE0EFE0)"
proof -
  from assms have c: "soundCnt s 8 = 0xE640007F" and o: "\<And>j. j \<noteq> 8 \<Longrightarrow> \<not> enabled s j"
    and mb: "mainSoundCnt s = 0x007F" "soundBias s = 0x0080"
    by (simp_all add: pulse_state_def)
  have en: "enabled s 8"
    by (simp add: enabled_def c BIT_def)
  have f: "format_of (soundCnt s 8) = 3"
    by (simp add: format_of_def c)
  have m: "mix_channels mem s = run_channel mem 8 (s, 0, 0)"
    by (rule mix_channels_single) (simp_all add: o)
  have c1: "soundCnt (fst (run_channel mem 8 (s, 0, 0))) 8 = 0xE640007F"
    by (simp add: pulse_pass[OF assms] psg_step_def c)
  have d: "read_data mem 8 3 s = (if dutyCycles s 0 < 1 then - 0x7FFF else 0x7FFF)"
    by (simp add: read_data_def c Let_def)
  show acc: "snd (mix_channels mem s) =
      (if dutyCycles s 0 < 1 then (- 4194176, - 4194176) else (4194176, 4194176))"
    unfolding m run_channel_acc[OF en] f c1 d by (simp add: pulse_mix)
  have ts: "tick_samples mem s =
      (output_sample 0x007F 0x0080 (fst (snd (mix_channels mem s))),
       output_sample 0x007F 0x0080 (snd (snd (mix_channels mem s))))"
    by (simp add: tick_samples_def split_beta mixed_static mb)
  show smp: "tick_samples mem s =
      (if dutyCycles s 0 < 1 then (- 0x4000, - 0x4000) else (- 4128, - 4128))"
    unfolding ts acc by (simp add: pulse_output)
  show "tick_frame mem s = (if dutyCycles s 0 < 1 then 0xC000C000 else 0xEFE0EFE0)"
    unfolding tick_frame_def smp by (simp add: pulse_frames)
qed

lemma pulse_next:
  assumes p: "pulse_state s" and r: "runSample mem lim s = Some s'"
  shows "pulse_state s'" and "dutyCycles s' 0 = (dutyCycles s 0 + 1) smod 8"
proof -
  from p have c: "soundCnt s 8 = 0xE640007F" and o: "\<And>j. j \<noteq> 8 \<Longrightarrow> \<not> enabled s j"
    and mb: "mainSoundCnt s = 0x007F" "soundBias s = 0x0080" "soundTmr s 8 = 0xFE00"
    by (simp_all add: pulse_state_def)
  have "chan_of s' 8 = chan_of (fst (run_channel mem 8 (s, 0, 0))) 8"
    using r by (intro runSample_channel) simp_all
  then have ch: "chan_of s' 8 = chan_of (psg_step 8 (s\<lparr>soundTimers := (soundTimers s)(8 := 0xFE00)\<rparr>)) 8"
    by (simp only: pulse_pass[OF p])
  have 1: "soundCnt s' 8 = 0xE640007F" "soundTimers s' 8 = 0xFE00"
    and 2: "dutyCycles s' 0 = (dutyCycles s 0 + 1) smod 8"
    using ch by (simp_all add: chan_of_def psg_step_def c)
  have 3: "\<not> enabled s' j" if "j \<noteq> 8" for j
    using o[OF that] enabled_runSample[OF r] by blast
  from 1 3 mb runSample_regs[OF r] show "pulse_state s'"
    by (simp add: pulse_state_def)
  from 2 show "dutyCycles s' 0 = (dutyCycles s 0 + 1) smod 8" .
qed

lemma pulse_on_fields:
  "pulse_state pulse_on" "dutyCycles pulse_on 0 = 0" "bufferSize pulse_on = 2"
  "bufferPointer pulse_on = 0" "bufferIn pulse_on = [0, 0]" "\<not> ready pulse_on"
  "mainSoundCnt pulse_on = 0x007F" "soundBias pulse_on = 0x0080"
  by (simp_all add: pulse_state_def pulse_on_def init_buffers_def writeSoundCnt_def
      writeSoundTmr_def writeMainSoundCnt_def writeSoundBias_def reload_registers_def Let_def
      spu_init_def enabled_def BIT_def format_of_def upt_rec)

lemma pulse_on_frames:
  "produced_frames mem lim 2 pulse_on = [0xC000C000, 0xEFE0EFE0]"
proof -
  from runSample_keep[of pulse_on mem lim] obtain s1 where
    r: "runSample mem lim pulse_on = Some s1"
    by (auto simp add: pulse_on_fields)
  have p1: "pulse_state s1" and d1: "dutyCycles s1 0 = 1"
    using pulse_next[OF pulse_on_fields(1) r]
    by (simp_all add: pulse_on_fields signed_modulo_int_def)
  have f0: "tick_frame mem pulse_on = 0xC000C000"
    by (simp add: pulse_tick(3)[OF pulse_on_fields(1)] pulse_on_fields)
  have f1: "tick_frame mem s1 = 0xEFE0EFE0"
    by (simp add: pulse_tick(3)[OF p1] d1)
  show ?thesis
    by (simp add: numeral_2_eq_2 r f0 f1 split: option.splits)
qed

subsection \<open>PCM8 with the reload period 0xFFFF\<close>

lemma idle_tick:
  assumes "i < 16" and "enabled s i" and "unat (soundTimers s i) + 512 < 65536"
    and "runSample mem lim s = Some s'"
  shows "chan_of s' i = chan_of (tick_timer i s) i"
  using run_channel_chan[OF assms(1,2,4)] tick_no_wrap(1)[OF assms(3)] by simp

lemma idle_tick_fields:
  assumes "i < 16" and "enabled s i" and "unat (soundTimers s i) + 512 < 65536"
    and "runSample mem lim s = Some s'"
  shows "soundCnt s' i = soundCnt s i" "soundCurrent s' i = soundCurrent s i"
    "unat (soundTimers s' i) = unat (soundTimers s i) + 512" "enabled s' i"
    "soundTmr s' = soundTmr s" "end_point s' i = end_point s i"
    "loop_point s' i = loop_point s i"
proof -
  note c = chan_ofD[OF idle_tick[OF assms]]
  show 1: "soundCnt s' i = soundCnt s i"
    using c(1) by (simp add: tick_timer_regs)
  show "soundCurrent s' i = soundCurrent s i"
    using c(2) by (simp add: tick_timer_regs)
  show "unat (soundTimers s' i) = unat (soundTimers s i) + 512"
    using c(3) tick_no_wrap(2)[OF assms(3)] by (simp add: tick_timer_regs)
  show "enabled s' i"
    using assms(2) by (simp add: enabled_bit 1)
  show "soundTmr s' = soundTmr s" "end_point s' i = end_point s i"
    "loop_point s' i = loop_point s i"
    using runSample_regs[OF assms(4)] by (simp_all add: end_point_def loop_point_def)
qed

lemma idle_ticks:
  "i < 16 \<Longrightarrow> enabled s i \<Longrightarrow> unat (soundTimers s i) + 512 * k < 65536 \<Longrightarrow>
   runSamples mem lim k s = Some s' \<Longrightarrow>
     soundCnt s' i = soundCnt s i \<and> soundCurrent s' i = soundCurrent s i
   \<and> unat (soundTimers s' i) = unat (soundTimers s i) + 512 * k
   \<and> soundTmr s' = soundTmr s \<and> end_point s' i = end_point s i
   \<and> loop_point s' i = loop_point s i"
proof (induction k arbitrary: s)
  case 0
  then show ?case by simp
next
  case (Suc k)
  from Suc.prems(4) obtain t where t: "runSample mem lim s = Some t"
    and r: "runSamples mem lim k t = Some s'"
    by (auto split: option.splits)
  from Suc.prems(3) have b: "unat (soundTimers s i) + 512 < 65536"
    by simp
  note f = idle_tick_fields[OF Suc.prems(1,2) b t]
  have "unat (soundTimers t i) + 512 * k < 65536"
    using Suc.prems(3) f(3) by simp
  from Suc.IH[OF Suc.prems(1) f(4) this r] show ?case
    by (simp add: f)
qed

lemma reload_tick:
  assumes "i < 16" and "enabled t i" and "format_of (soundCnt t i) = 0"
    and "soundTmr t i = 0xFFFF" and "soundTimers t i = 0xFE00"
    and "runSample mem lim t = Some s'"
  shows "chan_of s' i = chan_of (reload_body mem i 0 (tick_timer i t)) i"
proof -
  have z: "soundTimers (tick_timer i t) i = 0" "soundTmr (tick_timer i t) i = 0xFFFF"
    by (simp_all add: tick_timer_regs assms)
  have "reload_loop mem i 0 (tick_timer i t) = reload_body mem i 0 (tick_timer i t)"
    by (subst reload_loop.simps) (simp add: reload_overflow_def z)
  with run_channel_chan[OF assms(1,2,6)] show ?thesis
    by (simp add: assms(3,5))
qed

lemma fast_tick:
  assumes "i < 16" and "enabled s i" and "format_of (soundCnt s i) = 0"
    and "soundTmr s i = 0xFFFF" and "soundTimers s i = 0xFFFF"
    and "unat (soundCurrent s i) + 512 < unat (end_point s i)"
    and "runSample mem lim s = Some s'"
  shows "soundCnt s' i = soundCnt s i"
    "unat (soundCurrent s' i) = unat (soundCurrent s i) + 512"
    "soundTimers s' i = 0xFFFF" "soundTmr s' = soundTmr s" "end_point s' i = end_point s i"
proof -
  have z: "soundTimers (tick_timer i s) i = 511" "soundTmr (tick_timer i s) i = 0xFFFF"
    by (simp_all add: tick_timer_regs assms)
  have "unat (soundCurrent (tick_timer i s) i) + unat (soundTimers (tick_timer i s) i) + 1
      < unat (end_point (tick_timer i s) i)"
    using assms(6) by (simp add: tick_timer_regs(1-4) z)
  from pcm8_fast_loop[OF refl z(2) this, of mem]
  have l: "soundCnt (reload_loop mem i 0 (tick_timer i s)) i = soundCnt s i"
    "unat (soundCurrent (reload_loop mem i 0 (tick_timer i s)) i)
       = unat (soundCurrent s i) + 512"
    "soundTimers (reload_loop mem i 0 (tick_timer i s)) i = 0xFFFF"
    by (simp_all add: tick_timer_regs(1-4) z)
  from run_channel_chan[OF assms(1,2,7)]
  have "chan_of s' i = chan_of (reload_loop mem i 0 (tick_timer i s)) i"
    by (simp add: assms(3,5))
  note c = chan_ofD[OF this]
  show "soundCnt s' i = soundCnt s i"
    "unat (soundCurrent s' i) = unat (soundCurrent s i) + 512"
    "soundTimers s' i = 0xFFFF"
    using c(1,2,3) l by simp_all
  show "soundTmr s' = soundTmr s" "end_point s' i = end_point s i"
    using runSample_regs[OF assms(7)] by (simp_all add: end_point_def)
qed

lemma fast_ticks:
  "i < 16 \<Longrightarrow> enabled s i \<Longrightarrow> format_of (soundCnt s i) = 0 \<Longrightarrow> soundTmr s i = 0xFFFF \<Longrightarrow>
   soundTimers s i = 0xFFFF \<Longrightarrow> unat (soundCurrent s i) + 512 * k < unat (end_point s i) \<Longrightarrow>
   runSamples mem lim k s = Some s' \<Longrightarrow>
     unat (soundCurrent s' i) = unat (soundCurrent s i) + 512 * k"
proof (induction k arbitrary: s)
  case 0
  then show ?case by simp
next
  case (Suc k)
  from Suc.prems(7) obtain t where t: "runSample mem lim s = Some t"
    and r: "runSamples mem lim k t = Some s'"
    by (auto split: option.splits)
  from Suc.prems(6) have b: "unat (soundCurrent s i) + 512 < unat (end_point s i)"
    by simp
  note f = fast_tick[OF Suc.prems(1-5) b t]
  have e: "enabled t i"
    using Suc.prems(2) by (simp add: enabled_bit f(1))
  have "unat (soundCurrent t i) + 512 * k < unat (end_point t i)"
    using Suc.prems(6) by (simp add: f)
  from Suc.IH[OF Suc.prems(1) e _ _ f(3) this r] Suc.prems(3,4) show ?case
    by (simp add: f)
qed

lemma pcm8_slow_fields:
  "enabled pcm8_slow 0" "format_of (soundCnt pcm8_slow 0) = 0" "soundTmr pcm8_slow 0 = 0xFFFF"
  "soundTimers pcm8_slow 0 = 0" "soundCurrent pcm8_slow 0 = 0" "end_point pcm8_slow 0 = 0"
  by (simp_all add: pcm8_slow_def writeSoundCnt_def writeSoundTmr_def reload_registers_def
      Let_def spu_init_def enabled_def BIT_def format_of_def end_point_def)

lemma pcm8_fast_fields:
  "enabled pcm8_fast 0" "format_of (soundCnt pcm8_fast 0) = 0" "soundTmr pcm8_fast 0 = 0xFFFF"
  "soundTimers pcm8_fast 0 = 0xFFFF" "soundCurrent pcm8_fast 0 = 0"
  "end_point pcm8_fast 0 = 0xFFFFFC"
  by (simp_all add: pcm8_fast_def writeSoundCnt_def writeSoundTmr_def writeSoundLen_def
      reload_registers_def Let_def spu_init_def enabled_def BIT_def format_of_def end_point_def)

subsection \<open>A tick with two enabled channels, one of them at the end of its sound\<close>

lemma fold_disabled_state:
  "(\<And>j. j \<in> set js \<Longrightarrow> \<not> enabled (fst st) j) \<Longrightarrow> fold (run_channel mem) js st = st"
  by (cases st) (simp add: fold_disabled)

lemma mix_channels_pair:
  assumes ij: "i < j" and j: "j < 16"
    and others: "\<And>k. k \<noteq> i \<Longrightarrow> k \<noteq> j \<Longrightarrow> \<not> enabled s k"
  shows "mix_channels mem s = run_channel mem j (run_channel mem i (s, 0, 0))"
proof -
  let ?a = "run_channel mem i (s, 0, 0)"
  let ?b = "run_channel mem j ?a"
  have sp: "[0..<16] = [0..<i] @ i # [Suc i..<j] @ j # [Suc j..<16]"
    using upt_split3[OF j] upt_split3[OF ij] by simp
  have 1: "fold (run_channel mem) [0..<i] (s, 0, 0) = (s, 0, 0)"
    using others ij by (intro fold_disabled) fastforce
  have a: "\<not> enabled (fst ?a) k" if "k \<noteq> i" "k \<noteq> j" for k
    using others[OF that] enabled_run_channel[of mem i "(s, 0, 0)" k] by auto
  have 2: "fold (run_channel mem) [Suc i..<j] ?a = ?a"
    using a by (intro fold_disabled_state) fastforce
  have b: "\<not> enabled (fst ?b) k" if "k \<noteq> i" "k \<noteq> j" for k
    using a[OF that] enabled_run_channel[of mem j ?a k] by auto
  have 3: "fold (run_channel mem) [Suc j..<16] ?b = ?b"
    using b ij by (intro fold_disabled_state) fastforce
  show ?thesis
    unfolding mix_channels_def sp by (simp add: 1 2 3)
qed

lemma one_shot_mixed_fields:
  "soundCnt one_shot_mixed 0 = 0xD040007F" "soundTmr one_shot_mixed 0 = 0xFE00"
  "soundTimers one_shot_mixed 0 = 0xFE00" "soundCurrent one_shot_mixed 0 = 4"
  "adpcmValue one_shot_mixed 0 = 0x1234" "adpcmIndex one_shot_mixed 0 = 0"
  "\<not> adpcmToggle one_shot_mixed 0" "soundSad one_shot_mixed 0 = 0"
  "soundPnt one_shot_mixed 0 = 0" "soundLen one_shot_mixed 0 = 1"
  "bufferSize one_shot_mixed = 0"
  "soundCnt one_shot_mixed 8 = 0xE640007F" "soundTimers one_shot_mixed 8 = 0xFE00"
  "soundTmr one_shot_mixed 8 = 0xFE00" "dutyCycles one_shot_mixed 0 = 0"
  "mainSoundCnt one_shot_mixed = 0x007F" "soundBias one_shot_mixed = 0x0080"
  by (simp_all add: one_shot_mixed_def writeSoundCnt_def writeSoundTmr_def writeSoundLen_def
      writeMainSoundCnt_def writeSoundBias_def reload_registers_def Let_def spu_init_def
      BIT_def format_of_def read_u32_def adpcm_data_def)

lemma one_shot_mixed_others:
  "k \<noteq> 0 \<Longrightarrow> k \<noteq> 8 \<Longrightarrow> \<not> enabled one_shot_mixed k"
  by (simp add: one_shot_mixed_def writeSoundCnt_def writeSoundTmr_def writeSoundLen_def
      writeMainSoundCnt_def writeSoundBias_def reload_registers_def Let_def spu_init_def
      enabled_def BIT_def format_of_def)

lemma one_shot_mixed_pass:
  "fst (run_channel adpcm_data 0 (one_shot_mixed, l, r))
     = reload_body adpcm_data 0 2 (tick_timer 0 one_shot_mixed)"
  "soundCnt (reload_body adpcm_data 0 2 (tick_timer 0 one_shot_mixed)) 0 = 0x5040007F"
  "adpcmValue (reload_body adpcm_data 0 2 (tick_timer 0 one_shot_mixed)) 0 = 0x123B"
  "soundCurrent (reload_body adpcm_data 0 2 (tick_timer 0 one_shot_mixed)) 0 = 4"
proof -
  let ?s = one_shot_mixed
  let ?u = "(tick_timer 0 ?s)\<lparr>soundTimers :=
      (soundTimers (tick_timer 0 ?s))
        (0 := soundTimers (tick_timer 0 ?s) 0 + soundTmr (tick_timer 0 ?s) 0)\<rparr>"
  let ?d = "adpcm_decode_spec adpcm_data 0 ?u"
  have en: "enabled ?s 0" and fm: "format_of (soundCnt ?s 0) = 2"
    by (simp_all add: enabled_def format_of_def one_shot_mixed_fields BIT_def)
  have tt: "soundTimers (tick_timer 0 ?s) 0 = 0" "soundTmr (tick_timer 0 ?s) 0 = 0xFE00"
    by (simp_all add: tick_timer_def one_shot_mixed_fields)
  have "reload_loop adpcm_data 0 2 (tick_timer 0 ?s) = reload_body adpcm_data 0 2 (tick_timer 0 ?s)"
    by (subst reload_loop.simps) (simp add: reload_overflow_def tt)
  then show "fst (run_channel adpcm_data 0 (?s, l, r)) = reload_body adpcm_data 0 2 (tick_timer 0 ?s)"
    using en fm tt by (simp add: run_channel_state)
  have n: "spec_nibble adpcm_data 0 ?u = 12"
    by (simp add: spec_nibble_def tick_timer_def one_shot_mixed_fields adpcm_data_def)
  have t0: "adpcmTable ! 0 = 7" and i4: "indexTable ! 4 = 2"
    by (simp_all add: adpcmTable_def indexTable_def)
  have b: "bit (12 :: int) 2" "bit (12 :: int) 3" "\<not> bit (12 :: int) 0" "\<not> bit (12 :: int) 1"
    by (simp_all add: bit_iff_odd)
  have m: "spec_magnitude 0 12 = 7" "spec_predictor 0x1234 7 12 = 0x123B"
    by (simp_all add: spec_magnitude_def spec_predictor_def t0 b)
  have d: "adpcmValue ?d 0 = 0x123B" "soundCurrent ?d 0 = 4" "soundCnt ?d 0 = 0xD040007F"
    using n by (simp_all add: adpcm_decode_spec_fields tick_timer_def one_shot_mixed_fields m)
  have st: "static_of ?d = static_of ?u"
    by (rule adpcm_decode_spec_fields)
  have ep: "end_point ?d 0 = 4"
    using static_ofD[OF st]
    by (simp add: end_point_def tick_timer_def one_shot_mixed_fields)
  have md: "drop_bit 27 ((0xD040007F :: u32) AND 0x18000000) \<noteq> 1"
    by simp
  have e: "end_of_data 0 2 ?d = ?d\<lparr>soundCnt := (soundCnt ?d)(0 := soundCnt ?d 0 AND NOT (BIT 31))\<rparr>"
    using md by (simp add: end_of_data_def ep d del: drop_bit_and)
  have ix: "0 \<le> adpcmIndex (tick_timer 0 ?s) 0" "adpcmIndex (tick_timer 0 ?s) 0 \<le> 88"
    by (simp_all add: tick_timer_def one_shot_mixed_fields)
  have rb: "reload_body adpcm_data 0 2 (tick_timer 0 ?s)
      = ?d\<lparr>soundCnt := (soundCnt ?d)(0 := soundCnt ?d 0 AND NOT (BIT 31))\<rparr>"
    unfolding adpcm_reload_body_spec[OF ix] adpcm_reload_spec_def by (rule e)
  have c: "(0xD040007F :: u32) AND NOT (BIT 31) = 0x5040007F"
    by (simp add: BIT_def)
  show "soundCnt (reload_body adpcm_data 0 2 (tick_timer 0 ?s)) 0 = 0x5040007F"
    "adpcmValue (reload_body adpcm_data 0 2 (tick_timer 0 ?s)) 0 = 0x123B"
    "soundCurrent (reload_body adpcm_data 0 2 (tick_timer 0 ?s)) 0 = 4"
    unfolding rb by (simp_all add: d c)
qed

lemma one_shot_mix:
  "mix_channel 0x5040007F 0x1234 = (596480, 596480)"
  "mix_channel 0x5040007F 0x123B = (597376, 597376)"
  by (simp_all add: mix_channel_def Let_def divShift_of_def mulFactor_of_def panValue_of_def
      volume_divider_def volume_factor_def pan_left_def pan_right_def
      signed_divide_int_def push_bit_eq_mult drop_bit_eq_div)

lemma one_shot_mixed_first:
  "snd (mix_channels adpcm_data one_shot_mixed) = (- 3597696, - 3597696)"
proof -
  let ?s = one_shot_mixed
  let ?a = "run_channel adpcm_data 0 (?s, 0, 0)"
  have en: "enabled ?s 0" and fm: "format_of (soundCnt ?s 0) = 2"
    by (simp_all add: enabled_def format_of_def one_shot_mixed_fields BIT_def)
  have m: "mix_channels adpcm_data ?s = run_channel adpcm_data 8 ?a"
    by (rule mix_channels_pair) (simp_all add: one_shot_mixed_others)
  have rd: "read_data adpcm_data 0 2 ?s = 0x1234"
    by (simp add: read_data_def one_shot_mixed_fields)
  have sa: "snd ?a = (596480, 596480)"
    unfolding run_channel_acc[OF en] fm rd one_shot_mixed_pass by (simp add: one_shot_mix)
  have ch: "chan_of (fst ?a) 8 = chan_of ?s 8"
    using chan_run_channel[of 8 0 adpcm_data "(?s, 0, 0)"] by simp
  have tm: "soundTmr (fst ?a) = soundTmr ?s"
    using static_ofD[OF static_run_channel[of adpcm_data 0 "(?s, 0, 0)"]] by simp
  have c8: "soundCnt (fst ?a) 8 = 0xE640007F" and t8: "soundTimers (fst ?a) 8 = 0xFE00"
    and d0: "dutyCycles (fst ?a) 0 = 0"
    using chan_ofD(1,3)[OF ch] chan_ofD(9)[OF ch] by (simp_all add: one_shot_mixed_fields)
  have r8: "soundTmr (fst ?a) 8 = 0xFE00"
    by (simp add: tm one_shot_mixed_fields)
  have e8: "enabled (fst ?a) 8" and f8: "format_of (soundCnt (fst ?a) 8) = 3"
    by (simp_all add: enabled_def format_of_def c8 BIT_def)
  have c8': "soundCnt (fst (run_channel adpcm_data 8 (fst ?a, 596480, 596480))) 8 = 0xE640007F"
    by (simp add: pulse_pass_regs[OF c8 t8 r8] psg_step_def c8)
  have d: "read_data adpcm_data 8 3 (fst ?a) = - 0x7FFF"
    by (simp add: read_data_def c8 d0 Let_def)
  have a: "?a = (fst ?a, 596480, 596480)"
    using sa by (cases ?a) simp
  have "snd (run_channel adpcm_data 8 (fst ?a, 596480, 596480)) = (- 3597696, - 3597696)"
    unfolding run_channel_acc[OF e8] f8 c8' d by (simp add: pulse_mix)
  with a m show ?thesis
    by simp
qed

lemma one_shot_mixed_next:
  assumes "runSample adpcm_data lim one_shot_mixed = Some s'"
  shows "soundCnt s' 0 = 0x5040007F" "adpcmValue s' 0 = 0x123B" "soundCnt s' 8 = 0xE640007F"
    "soundTimers s' 8 = 0xFE00" "soundTmr s' 8 = 0xFE00" "dutyCycles s' 0 = 1"
    "mainSoundCnt s' = 0x007F" "soundBias s' = 0x0080"
    "\<And>k. k \<noteq> 0 \<Longrightarrow> k \<noteq> 8 \<Longrightarrow> \<not> enabled s' k"
proof -
  let ?s = one_shot_mixed
  have "chan_of s' 0 = chan_of (fst (run_channel adpcm_data 0 (?s, 0, 0))) 0"
    using assms by (intro runSample_channel) simp_all
  then have c0: "chan_of s' 0 = chan_of (reload_body adpcm_data 0 2 (tick_timer 0 ?s)) 0"
    by (simp only: one_shot_mixed_pass(1))
  show "soundCnt s' 0 = 0x5040007F" "adpcmValue s' 0 = 0x123B"
    using chan_ofD(1,4)[OF c0] by (simp_all add: one_shot_mixed_pass)
  have "chan_of s' 8 = chan_of (fst (run_channel adpcm_data 8 (?s, 0, 0))) 8"
    using assms by (intro runSample_channel) simp_all
  then have c8: "chan_of s' 8
      = chan_of (psg_step 8 (?s\<lparr>soundTimers := (soundTimers ?s)(8 := 0xFE00)\<rparr>)) 8"
    by (simp only: pulse_pass_regs[OF one_shot_mixed_fields(12,13,14)])
  show "soundCnt s' 8 = 0xE640007F" "soundTimers s' 8 = 0xFE00" "dutyCycles s' 0 = 1"
    using c8 by (simp_all add: chan_of_def psg_step_def one_shot_mixed_fields
        signed_modulo_int_def)
  show "soundTmr s' 8 = 0xFE00" "mainSoundCnt s' = 0x007F" "soundBias s' = 0x0080"
    using runSample_regs[OF assms] by (simp_all add: one_shot_mixed_fields)
  show "\<not> enabled s' k" if "k \<noteq> 0" "k \<noteq> 8" for k
    using one_shot_mixed_others[OF that] enabled_runSample[OF assms] by blast
qed

section \<open>The claims\<close>

text \<open>
  C6. Writing SOUNDCNT with the enable bit set in the value, on a channel whose stored
  enable bit is clear and whose stored format is ADPCM, with the four bytes
  34 12 00 00 at the source address: the predictor becomes 0x1234, the step index 0,
  the current address the source address plus 4, the nibble selector is reset and the
  timer holds the reload period. If the mask covers the enable bit, the channel is
  enabled afterwards.
\<close>

theorem writeSoundCnt_enable_adpcm:
  assumes off: "soundCnt s channel AND BIT 31 = 0"
    and on: "value AND BIT 31 \<noteq> 0"
    and fmt: "format_of (soundCnt s channel) = 2"
    and b0: "mem (soundSad s channel) = 0x34"
    and b1: "mem (soundSad s channel + 1) = 0x12"
    and b2: "mem (soundSad s channel + 2) = 0x00"
    and b3: "mem (soundSad s channel + 3) = 0x00"
  shows "adpcmValue (writeSoundCnt mem channel msk value s) channel = 0x1234
    \<and> adpcmIndex (writeSoundCnt mem channel msk value s) channel = 0
    \<and> soundCurrent (writeSoundCnt mem channel msk value s) channel = soundSad s channel + 4
    \<and> \<not> adpcmToggle (writeSoundCnt mem channel msk value s) channel
    \<and> soundTimers (writeSoundCnt mem channel msk value s) channel = soundTmr s channel
    \<and> (msk AND BIT 31 \<noteq> 0 \<longrightarrow> enabled (writeSoundCnt mem channel msk value s) channel)"
proof -
  have hdr: "read_u32 mem (soundSad s channel) = 0x1234"
    by (simp add: read_u32_def b0 b1 b2 b3)
  have en: "msk AND BIT 31 \<noteq> 0 \<Longrightarrow> enabled (writeSoundCnt mem channel msk value s) channel"
  proof -
    assume "msk AND BIT 31 \<noteq> 0"
    then have "bit msk 31" by (simp add: test_BIT)
    moreover from on have "bit value 31" by (simp add: test_BIT)
    ultimately have "bit ((soundCnt s channel AND NOT (msk AND 0xFF7F837F))
        OR (value AND (msk AND 0xFF7F837F))) 31"
      by (rule written_bit31)
    then show ?thesis
      using off on fmt
      by (simp add: writeSoundCnt_def reload_registers_def Let_def enabled_def test_BIT test_BIT0)
  qed
  have rest: "adpcmValue (writeSoundCnt mem channel msk value s) channel = 0x1234
    \<and> adpcmIndex (writeSoundCnt mem channel msk value s) channel = 0
    \<and> soundCurrent (writeSoundCnt mem channel msk value s) channel = soundSad s channel + 4
    \<and> \<not> adpcmToggle (writeSoundCnt mem channel msk value s) channel
    \<and> soundTimers (writeSoundCnt mem channel msk value s) channel = soundTmr s channel"
    using off on fmt
    by (simp add: writeSoundCnt_def reload_registers_def Let_def hdr)
  from rest en show ?thesis by blast
qed

theorem writeSoundCnt_enable_adpcm_witness:
  "soundCnt adpcm_idle 0 AND BIT 31 = 0
   \<and> (0xC0000000 :: u32) AND BIT 31 \<noteq> 0
   \<and> (0xFFFFFFFF :: u32) AND BIT 31 \<noteq> 0
   \<and> format_of (soundCnt adpcm_idle 0) = 2
   \<and> adpcmValue (writeSoundCnt header_1234 0 0xFFFFFFFF 0xC0000000 adpcm_idle) 0 = 0x1234
   \<and> adpcmIndex (writeSoundCnt header_1234 0 0xFFFFFFFF 0xC0000000 adpcm_idle) 0 = 0
   \<and> soundCurrent (writeSoundCnt header_1234 0 0xFFFFFFFF 0xC0000000 adpcm_idle) 0 = 4
   \<and> \<not> adpcmToggle (writeSoundCnt header_1234 0 0xFFFFFFFF 0xC0000000 adpcm_idle) 0
   \<and> soundTimers (writeSoundCnt header_1234 0 0xFFFFFFFF 0xC0000000 adpcm_idle) 0 = 0
   \<and> enabled (writeSoundCnt header_1234 0 0xFFFFFFFF 0xC0000000 adpcm_idle) 0"
proof -
  have h1: "soundCnt adpcm_idle 0 AND BIT 31 = 0"
    by (simp add: adpcm_idle_regs BIT_def)
  have h2: "(0xC0000000 :: u32) AND BIT 31 \<noteq> 0" and h2': "(0xFFFFFFFF :: u32) AND BIT 31 \<noteq> 0"
    by (simp_all add: BIT_def)
  have h3: "format_of (soundCnt adpcm_idle 0) = 2"
    by (simp add: adpcm_idle_regs format_of_def)
  have bs: "header_1234 (soundSad adpcm_idle 0) = 0x34"
    "header_1234 (soundSad adpcm_idle 0 + 1) = 0x12"
    "header_1234 (soundSad adpcm_idle 0 + 2) = 0x00"
    "header_1234 (soundSad adpcm_idle 0 + 3) = 0x00"
    by (simp_all add: adpcm_idle_regs header_1234_def)
  from writeSoundCnt_enable_adpcm[OF h1 h2 h3 bs, of "0xFFFFFFFF"] h1 h2 h2' h3
  show ?thesis
    by (simp add: adpcm_idle_regs)
qed

text \<open>
  C5. A 7-bit factor of 127 is used as 128 in the multiplier stage, in the panning stage
  and in the master volume stage, and a divider selector of 3 is used as 4: with such a
  field the output of the channel (of the output stage, for the master volume) is the one
  computed with 128 (with 4), for every sample and whatever the other fields are.
\<close>

theorem factor_127_is_128:
  "(uint (cnt AND 0x0000007F) = 127 \<longrightarrow>
      mix_channel cnt data =
        (pan_left (volume_factor (volume_divider data (divShift_of cnt)) 128) (panValue_of cnt),
         pan_right (volume_factor (volume_divider data (divShift_of cnt)) 128) (panValue_of cnt)))
   \<and> (uint (drop_bit 16 (cnt AND 0x007F0000)) = 127 \<longrightarrow>
      mix_channel cnt data =
        (pan_left (volume_factor (volume_divider data (divShift_of cnt)) (mulFactor_of cnt)) 128,
         pan_right (volume_factor (volume_divider data (divShift_of cnt)) (mulFactor_of cnt)) 128))
   \<and> (uint (mainCnt AND 0x007F) = 127 \<longrightarrow>
      output_sample mainCnt bias sample =
        push_bit 5 (clip (drop_bit 21 (master_volume sample 128) + uint bias) - 0x200))
   \<and> (unat (drop_bit 8 (cnt AND 0x00000300)) = 3 \<longrightarrow>
      mix_channel cnt data =
        (pan_left (volume_factor (volume_divider data 4) (mulFactor_of cnt)) (panValue_of cnt),
         pan_right (volume_factor (volume_divider data 4) (mulFactor_of cnt)) (panValue_of cnt)))"
  by (simp add: mix_channel_def Let_def mulFactor_of_def panValue_of_def masterVol_of_def
      divShift_of_def output_sample_unfold)

theorem factor_127_is_128_witness:
  "uint ((0x007F037F :: u32) AND 0x0000007F) = 127
   \<and> uint (drop_bit 16 ((0x007F037F :: u32) AND 0x007F0000)) = 127
   \<and> uint ((0x007F :: u16) AND 0x007F) = 127
   \<and> unat (drop_bit 8 ((0x007F037F :: u32) AND 0x00000300)) = 3
   \<and> mix_channel 0x007F037F 0x1234 =
        (pan_left (volume_factor (volume_divider 0x1234 4) 128) 128,
         pan_right (volume_factor (volume_divider 0x1234 4) 128) 128)
   \<and> mix_channel 0x007F037F 0x1234 = (0, 0x1234 * 16)
   \<and> output_sample 0x007F 0x200 (0x1234 * 16) =
        push_bit 5 (clip (drop_bit 21 (master_volume (0x1234 * 16) 128) + 0x200) - 0x200)"
proof -
  have f: "uint ((0x007F037F :: u32) AND 0x0000007F) = 127"
    "uint (drop_bit 16 ((0x007F037F :: u32) AND 0x007F0000)) = 127"
    "uint ((0x007F :: u16) AND 0x007F) = 127"
    "unat (drop_bit 8 ((0x007F037F :: u32) AND 0x00000300)) = 3"
    by simp_all
  have v: "mulFactor_of 0x007F037F = 128" "panValue_of 0x007F037F = 128"
    "divShift_of 0x007F037F = 4"
    by (simp_all add: mulFactor_of_def panValue_of_def divShift_of_def)
  have n: "pan_left (volume_factor (volume_divider 0x1234 4) 128) 128 = 0"
    "pan_right (volume_factor (volume_divider 0x1234 4) 128) 128 = 0x1234 * 16"
    by (simp_all add: pan_left_def pan_right_def volume_factor_def volume_divider_def
        signed_divide_int_def push_bit_eq_mult drop_bit_eq_div)
  from factor_127_is_128[of "0x007F037F" "0x1234" "0x007F" "0x200" "0x1234 * 16"] f v n
  show ?thesis
    by simp
qed

text \<open>
  C8. A call of getSamples returns with the ready flag clear, on the timeout path as on
  the success path. When the flag was not set during the wait, the block returned holds
  \<open>count\<close> copies of the frame at index \<open>count - 1\<close> of the out buffer, which is
  its last frame, and the out buffer keeps its contents.
\<close>

theorem getSamples_timeout:
  assumes "0 \<le> count"
  shows "\<exists>out s'. getSamples newIn newOut polls count s = Inr (out, s') \<and> \<not> ready s'
     \<and> (\<not> ready s \<longrightarrow>
           out = replicate (nat count) (bufferOut s' ! (nat count - 1))
         \<and> bufferOut s' = bufferOut (init_buffers newIn newOut (nat count) s)
         \<and> (bufferSize s = nat count \<longrightarrow> bufferOut s' = bufferOut s \<and> bufferIn s' = bufferIn s)
         \<and> (length (bufferOut s) = bufferSize s \<and> 0 < count \<longrightarrow>
               bufferOut s' ! (nat count - 1) = last (bufferOut s')))"
proof -
  let ?s1 = "init_buffers newIn newOut (nat count) s"
  have r1: "ready ?s1 = ready s"
    by (simp add: init_buffers_def)
  have same: "bufferSize s = nat count \<Longrightarrow> ?s1 = s"
    by (simp add: init_buffers_def)
  have len: "length (bufferOut s) = bufferSize s \<Longrightarrow> 0 < count \<Longrightarrow>
      bufferOut ?s1 ! (nat count - 1) = last (bufferOut ?s1)"
  proof -
    assume a: "length (bufferOut s) = bufferSize s" and c: "0 < count"
    have l: "length (bufferOut ?s1) = nat count"
      using a by (rule init_buffers_length)
    with c have "bufferOut ?s1 \<noteq> []"
      by auto
    then show ?thesis
      by (simp add: last_conv_nth l)
  qed
  have rep: "map (\<lambda>i. x) [0..<n] = replicate n x" for x :: u32 and n
    by (simp add: map_replicate_const)
  show ?thesis
    using assms r1 same len
    by (simp add: getSamples_def Let_def await_ready_eq rep)
qed

theorem getSamples_timeout_witness:
  "(0 :: int) \<le> 2 \<and> \<not> ready starved \<and> bufferSize starved = nat 2
   \<and> length (bufferOut starved) = bufferSize starved
   \<and> getSamples (\<lambda>_. 0) (\<lambda>_. 0) 5 2 starved = Inr ([0x00020002, 0x00020002], starved\<lparr>ready := False\<rparr>)
   \<and> bufferOut (starved\<lparr>ready := False\<rparr>) = [0x00010001, 0x00020002]"
proof -
  have f: "\<not> ready starved" "bufferSize starved = 2" "bufferOut starved = [0x00010001, 0x00020002]"
    by (simp_all add: starved_def buffered_def init_buffers_def spu_init_def)
  have g: "getSamples (\<lambda>_. 0) (\<lambda>_. 0) 5 2 starved
      = Inr ([0x00020002, 0x00020002], starved\<lparr>ready := False\<rparr>)"
    by (simp add: getSamples_def Let_def await_ready_eq init_buffers_def f upt_rec)
  from getSamples_timeout[of 2 "\<lambda>_. 0" "\<lambda>_. 0" 5 starved] f g show ?thesis
    by (simp add: init_buffers_def)
qed

text \<open>
  C10. The reload of writeSoundCnt depends on the stored enable bit and on bit 31 of the
  value, not on the mask: when the stored bit is clear and bit 31 of the value is set, the
  timer is reset to the reload period and the channel is set up again by the format of
  the control word as it was before the write. For a stored format ADPCM the header is
  read, the predictor, the index and the selector are seeded and the address is the
  source address plus 4; for any other stored format the address is the source address
  and the ADPCM state is untouched, whatever format the write stores; for the stored
  format 3 the duty counter or the noise register is reset. A mask without bit 31 leaves
  the channel disabled all the same.
\<close>

theorem writeSoundCnt_reload_ignores_mask:
  assumes off: "soundCnt s channel AND BIT 31 = 0"
    and on: "value AND BIT 31 \<noteq> 0"
  shows "soundTimers (writeSoundCnt mem channel msk value s) channel = soundTmr s channel
    \<and> (format_of (soundCnt s channel) = 2 \<longrightarrow>
         soundCurrent (writeSoundCnt mem channel msk value s) channel = soundSad s channel + 4
       \<and> adpcmValue (writeSoundCnt mem channel msk value s) channel
            = sint (ucast (read_u32 mem (soundSad s channel)) :: u16)
       \<and> adpcmIndex (writeSoundCnt mem channel msk value s) channel
            = min 88 (uint (drop_bit 16 (read_u32 mem (soundSad s channel) AND 0x007F0000)))
       \<and> \<not> adpcmToggle (writeSoundCnt mem channel msk value s) channel)
    \<and> (format_of (soundCnt s channel) \<noteq> 2 \<longrightarrow>
         soundCurrent (writeSoundCnt mem channel msk value s) channel = soundSad s channel
       \<and> adpcmValue (writeSoundCnt mem channel msk value s) = adpcmValue s
       \<and> adpcmIndex (writeSoundCnt mem channel msk value s) = adpcmIndex s
       \<and> adpcmToggle (writeSoundCnt mem channel msk value s) = adpcmToggle s)
    \<and> (format_of (soundCnt s channel) = 3 \<and> 8 \<le> channel \<and> channel \<le> 13 \<longrightarrow>
         dutyCycles (writeSoundCnt mem channel msk value s) (channel - 8) = 0)
    \<and> (format_of (soundCnt s channel) = 3 \<and> 14 \<le> channel \<longrightarrow>
         noiseValues (writeSoundCnt mem channel msk value s) (channel - 14) = 0x7FFF)
    \<and> (msk AND BIT 31 = 0 \<longrightarrow> \<not> enabled (writeSoundCnt mem channel msk value s) channel)"
proof -
  have w: "writeSoundCnt mem channel msk value s =
      (reload_registers mem channel s)\<lparr>soundCnt := (soundCnt (reload_registers mem channel s))
        (channel := (soundCnt (reload_registers mem channel s) channel AND NOT (msk AND 0xFF7F837F))
           OR (value AND (msk AND 0xFF7F837F)))\<rparr>"
    using off on by (simp add: writeSoundCnt_def Let_def)
  have c: "soundCnt (reload_registers mem channel s) = soundCnt s"
    by (simp add: reload_registers_def Let_def)
  have t: "soundTimers (reload_registers mem channel s) channel = soundTmr s channel"
    by (simp add: reload_registers_def Let_def)
  have a: "format_of (soundCnt s channel) = 2 \<Longrightarrow>
       soundCurrent (reload_registers mem channel s) channel = soundSad s channel + 4
     \<and> adpcmValue (reload_registers mem channel s) channel
          = sint (ucast (read_u32 mem (soundSad s channel)) :: u16)
     \<and> adpcmIndex (reload_registers mem channel s) channel
          = min 88 (uint (drop_bit 16 (read_u32 mem (soundSad s channel) AND 0x007F0000)))
     \<and> \<not> adpcmToggle (reload_registers mem channel s) channel"
    by (simp add: reload_registers_def Let_def min_def)
  have b: "format_of (soundCnt s channel) \<noteq> 2 \<Longrightarrow>
       soundCurrent (reload_registers mem channel s) channel = soundSad s channel
     \<and> adpcmValue (reload_registers mem channel s) = adpcmValue s
     \<and> adpcmIndex (reload_registers mem channel s) = adpcmIndex s
     \<and> adpcmToggle (reload_registers mem channel s) = adpcmToggle s"
    by (simp add: reload_registers_def Let_def)
  have d: "format_of (soundCnt s channel) = 3 \<Longrightarrow> 8 \<le> channel \<Longrightarrow> channel \<le> 13 \<Longrightarrow>
       dutyCycles (reload_registers mem channel s) (channel - 8) = 0"
    by (simp add: reload_registers_def Let_def)
  have n: "format_of (soundCnt s channel) = 3 \<Longrightarrow> 14 \<le> channel \<Longrightarrow>
       noiseValues (reload_registers mem channel s) (channel - 14) = 0x7FFF"
    by (simp add: reload_registers_def Let_def)
  have e: "msk AND BIT 31 = 0 \<Longrightarrow> \<not> enabled (writeSoundCnt mem channel msk value s) channel"
  proof -
    assume "msk AND BIT 31 = 0"
    then have "\<not> bit msk 31" by (simp add: test_BIT0)
    then have "bit ((soundCnt s channel AND NOT (msk AND 0xFF7F837F))
        OR (value AND (msk AND 0xFF7F837F))) 31 = bit (soundCnt s channel) 31"
      by (rule unwritten_bit31)
    moreover from off have "\<not> bit (soundCnt s channel) 31" by (simp add: test_BIT0)
    ultimately show ?thesis
      by (simp add: w c enabled_def test_BIT del: bit_and_iff bit_or_iff)
  qed
  from t a b d n e show ?thesis
    by (simp add: w)
qed

theorem writeSoundCnt_reload_ignores_mask_witness:
  "soundCnt adpcm_idle 0 AND BIT 31 = 0 \<and> (0x80000000 :: u32) AND BIT 31 \<noteq> 0
   \<and> (0x60000000 :: u32) AND BIT 31 = 0
   \<and> format_of (soundCnt adpcm_idle 0) = 2
   \<and> adpcmValue adpcm_idle 0 = 0 \<and> soundCurrent adpcm_idle 0 = 0
   \<and> soundCnt (writeSoundCnt header_1234 0 0x60000000 0x80000000 adpcm_idle) 0 = 0
   \<and> \<not> enabled (writeSoundCnt header_1234 0 0x60000000 0x80000000 adpcm_idle) 0
   \<and> adpcmValue (writeSoundCnt header_1234 0 0x60000000 0x80000000 adpcm_idle) 0 = 0x1234
   \<and> adpcmIndex (writeSoundCnt header_1234 0 0x60000000 0x80000000 adpcm_idle) 0 = 0
   \<and> soundCurrent (writeSoundCnt header_1234 0 0x60000000 0x80000000 adpcm_idle) 0 = 4"
proof -
  have h1: "soundCnt adpcm_idle 0 AND BIT 31 = 0"
    by (simp add: adpcm_idle_regs BIT_def)
  have h2: "(0x80000000 :: u32) AND BIT 31 \<noteq> 0" and h3: "(0x60000000 :: u32) AND BIT 31 = 0"
    by (simp_all add: BIT_def)
  have h4: "format_of (soundCnt adpcm_idle 0) = 2"
    by (simp add: adpcm_idle_regs format_of_def)
  have hdr: "read_u32 header_1234 0 = 0x1234"
    by (simp add: read_u32_def header_1234_def)
  have cnt: "soundCnt (writeSoundCnt header_1234 0 0x60000000 0x80000000 adpcm_idle) 0 = 0"
    by (simp add: writeSoundCnt_def Let_def reload_registers_def adpcm_idle_regs BIT_def
        format_of_def)
  from writeSoundCnt_reload_ignores_mask[OF h1 h2, of header_1234 "0x60000000"] h1 h2 h3 h4 cnt
  show ?thesis
    by (simp add: hdr adpcm_idle_regs adpcm_idle_adpcm)
qed

text \<open>
  C1. The claim as stated fails for the predictor: the header load of writeSoundCnt stores
  the sign-extended 16-bit header value without clamping it, so a header of 0x8000 gives
  the predictor -32768 on an enabled ADPCM channel of a reachable state.
\<close>

theorem adpcm_predictor_counterexample:
  "reachable predictor_min \<and> enabled predictor_min 0
   \<and> format_of (soundCnt predictor_min 0) = 2
   \<and> \<not> (- 32767 \<le> adpcmValue predictor_min 0 \<and> adpcmValue predictor_min 0 \<le> 32767)"
  using reachable_predictor_min
  by (simp add: predictor_min_fields enabled_def BIT_def format_of_def)

text \<open>
  C1, amended. In every state the engine reaches by register writes, calls of runSample
  and calls of getSamples, every channel has its step index in [0, 88] and its predictor
  in [-32768, 32767]; the same holds for the saved loop pair.
\<close>

theorem adpcm_state_in_range:
  assumes "reachable s"
  shows "0 \<le> adpcmIndex s i \<and> adpcmIndex s i \<le> 88
    \<and> - 32768 \<le> adpcmValue s i \<and> adpcmValue s i \<le> 32767
    \<and> 0 \<le> adpcmLoopIndex s i \<and> adpcmLoopIndex s i \<le> 88
    \<and> - 32768 \<le> adpcmLoopValue s i \<and> adpcmLoopValue s i \<le> 32767"
  using reachable_adpcm_inv[OF assms] by (simp add: adpcm_inv_def adpcm_ok_def)

theorem adpcm_state_in_range_witness:
  "reachable predictor_min
   \<and> adpcmIndex predictor_min 0 = 0 \<and> adpcmValue predictor_min 0 = - 32768
   \<and> 0 \<le> adpcmIndex predictor_min 0 \<and> adpcmIndex predictor_min 0 \<le> 88
   \<and> - 32768 \<le> adpcmValue predictor_min 0 \<and> adpcmValue predictor_min 0 \<le> 32767"
  using adpcm_state_in_range[OF reachable_predictor_min, of 0] reachable_predictor_min
  by (simp add: predictor_min_fields)

text \<open>
  C3. For an ADPCM channel whose step index is inside the table: the ADPCM case of the
  switch in the reload loop of runSample is the step of the specification (low nibble of
  the current byte first and high nibble second; magnitude table/8 plus table/4, table/2
  and table gated by bits 0 to 2; added to the predictor when bit 3 is set, clamping at
  32767, subtracted otherwise, clamping at -32767; index moved by the table entry of the
  low three bits and clamped to [0, 88]; selector toggled; address advanced only after the
  high nibble; predictor and index saved as the loop pair when the new address is the
  loop point and the selector is back at the low nibble). Every pass of the reload loop
  is the timer reload, this step and the end-of-data handling, and the loop repeats the
  pass as long as the reload wraps the timer. A call of runSample on an enabled ADPCM
  channel leaves the channel as this loop leaves it when the tick wraps the timer, and
  with only the timer advanced otherwise; when the tick reloads the timer exactly once,
  the channel after the call is the channel after one such pass.
\<close>

theorem adpcm_reload_step:
  assumes "0 \<le> adpcmIndex s i" and "adpcmIndex s i \<le> 88"
  shows "advance mem i 2 s = adpcm_decode_spec mem i s
    \<and> reload_body mem i 2 s = adpcm_reload_spec mem i s
    \<and> reload_loop mem i 2 s =
         (if reload_overflow i s then reload_loop mem i 2 (adpcm_reload_spec mem i s)
          else adpcm_reload_spec mem i s)
    \<and> (i < 16 \<and> enabled s i \<and> format_of (soundCnt s i) = 2
         \<and> runSample mem lim s = Some s' \<longrightarrow>
         chan_of s' i =
           chan_of (if soundTimers s i + 512 < 512 then reload_loop mem i 2 (tick_timer i s)
                    else tick_timer i s) i)
    \<and> (i < 16 \<and> enabled s i \<and> format_of (soundCnt s i) = 2
         \<and> runSample mem lim s = Some s'
         \<and> soundTimers s i + 512 < 512 \<and> \<not> reload_overflow i (tick_timer i s) \<longrightarrow>
         chan_of s' i = chan_of (adpcm_reload_spec mem i (tick_timer i s)) i)"
proof -
  have a: "advance mem i 2 s = adpcm_decode_spec mem i s"
    using adpcm_step_spec[OF assms] by (simp add: advance_def)
  have b: "reload_body mem i 2 s = adpcm_reload_spec mem i s"
    using assms by (rule adpcm_reload_body_spec)
  have c: "reload_loop mem i 2 s =
      (if reload_overflow i s then reload_loop mem i 2 (adpcm_reload_spec mem i s)
       else adpcm_reload_spec mem i s)"
    by (subst reload_loop.simps) (simp add: b)
  have d: "chan_of s' i =
      chan_of (if soundTimers s i + 512 < 512 then reload_loop mem i 2 (tick_timer i s)
               else tick_timer i s) i"
    if "i < 16" "enabled s i" "format_of (soundCnt s i) = 2" "runSample mem lim s = Some s'"
    using run_channel_chan[OF that(1,2,4)] that(3) by simp
  have e: "chan_of s' i = chan_of (adpcm_reload_spec mem i (tick_timer i s)) i"
    if h: "i < 16" "enabled s i" "format_of (soundCnt s i) = 2" "runSample mem lim s = Some s'"
      and w: "soundTimers s i + 512 < 512" and o: "\<not> reload_overflow i (tick_timer i s)"
  proof -
    have r: "0 \<le> adpcmIndex (tick_timer i s) i" "adpcmIndex (tick_timer i s) i \<le> 88"
      using assms by (simp_all add: tick_timer_def)
    have "reload_loop mem i 2 (tick_timer i s) = reload_body mem i 2 (tick_timer i s)"
      using o by (subst reload_loop.simps) simp
    with adpcm_reload_body_spec[OF r, of mem] d[OF h] w show ?thesis
      by simp
  qed
  from a b c d e show ?thesis
    by blast
qed

theorem adpcm_reload_step_witness:
  "0 \<le> adpcmIndex adpcm_playing 0 \<and> adpcmIndex adpcm_playing 0 \<le> 88
   \<and> (0 :: nat) < 16 \<and> enabled adpcm_playing 0 \<and> format_of (soundCnt adpcm_playing 0) = 2
   \<and> soundTimers adpcm_playing 0 + 512 < 512
   \<and> \<not> reload_overflow 0 (tick_timer 0 adpcm_playing)
   \<and> runSample adpcm_data False adpcm_playing
        = Some (fst (mix_channels adpcm_data adpcm_playing))
   \<and> adpcmValue adpcm_playing 0 = 0x1234
   \<and> adpcmValue (fst (mix_channels adpcm_data adpcm_playing)) 0 = 0x123B
   \<and> adpcmIndex (fst (mix_channels adpcm_data adpcm_playing)) 0 = 2
   \<and> adpcmToggle (fst (mix_channels adpcm_data adpcm_playing)) 0
   \<and> soundCurrent (fst (mix_channels adpcm_data adpcm_playing)) 0 = 4
   \<and> soundTimers (fst (mix_channels adpcm_data adpcm_playing)) 0 = 0xFE00"
proof -
  let ?s' = "fst (mix_channels adpcm_data adpcm_playing)"
  have r: "0 \<le> adpcmIndex adpcm_playing 0" "adpcmIndex adpcm_playing 0 \<le> 88"
    by (simp_all add: adpcm_playing_fields)
  have en: "enabled adpcm_playing 0" and fm: "format_of (soundCnt adpcm_playing 0) = 2"
    by (simp_all add: enabled_def format_of_def adpcm_playing_fields BIT_def)
  have w: "soundTimers adpcm_playing 0 + 512 < 512"
    by (simp add: adpcm_playing_fields)
  have o: "\<not> reload_overflow 0 (tick_timer 0 adpcm_playing)"
    by (simp add: reload_overflow_def tick_timer_def adpcm_playing_fields)
  have run: "runSample adpcm_data False adpcm_playing = Some ?s'"
    by (simp add: runSample_unfold adpcm_playing_fields)
  note inst = adpcm_reload_step[OF r, of adpcm_data False ?s']
  from inst[THEN conjunct2, THEN conjunct2, THEN conjunct2, THEN conjunct2] en fm w o run
  have "chan_of ?s' 0 = chan_of (adpcm_reload_spec adpcm_data 0 (tick_timer 0 adpcm_playing)) 0"
    by simp
  note c = chan_ofD[OF this]
  from c(2,3,4,5,6) r en fm w o run show ?thesis
    by (simp add: adpcm_playing_reload adpcm_playing_fields)
qed

text \<open>
  C9. For an enabled channel of format PCM8, PCM16 or ADPCM whose loop mode is not
  loop-infinite: if a tick wraps the timer and one of its passes through the reload loop
  leaves the current address at sourceAddress + (loopPoint + length) * 4, the state that
  runSample returns has bit 31 of the control word of the channel clear; in particular
  this is so when the address after the call is that end address. The pass that reaches
  the end clears the bit, and nothing in runSample sets it again, through the rest of the
  loop and through any number of later ticks. For a channel whose enable bit is clear the
  pass of the channel loop changes neither the state nor the two accumulators, so a tick
  is the tick without that channel.
\<close>

theorem one_shot_end_disables:
  "(i < 16 \<and> enabled s i \<and> format_of (soundCnt s i) \<noteq> 3
      \<and> drop_bit 27 (soundCnt s i AND 0x18000000) \<noteq> 1
      \<and> soundTimers s i + 512 < 512
      \<and> (\<forall>j<k. reload_overflow i
             ((reload_body mem i (format_of (soundCnt s i)) ^^ j) (tick_timer i s)))
      \<and> soundCurrent ((reload_body mem i (format_of (soundCnt s i)) ^^ Suc k) (tick_timer i s)) i
           = end_point s i
      \<and> runSample mem lim s = Some s' \<longrightarrow> \<not> enabled s' i)
   \<and> (i < 16 \<and> enabled s i \<and> format_of (soundCnt s i) \<noteq> 3
      \<and> drop_bit 27 (soundCnt s i AND 0x18000000) \<noteq> 1
      \<and> soundTimers s i + 512 < 512
      \<and> runSample mem lim s = Some s' \<and> soundCurrent s' i = end_point s i
      \<longrightarrow> \<not> enabled s' i)
   \<and> (format \<noteq> 3 \<and> drop_bit 27 (soundCnt s i AND 0x18000000) \<noteq> 1
      \<and> soundCurrent (reload_body mem i format s) i = end_point s i
      \<longrightarrow> \<not> enabled (reload_body mem i format s) i)
   \<and> (\<not> enabled s i \<longrightarrow> \<not> enabled (reload_loop mem j format s) i)
   \<and> (\<not> enabled s i \<and> runSamples mem lim n s = Some s'' \<longrightarrow> \<not> enabled s'' i)
   \<and> (\<not> enabled s i \<longrightarrow> run_channel mem i (s, l, r) = (s, l, r))
   \<and> (\<not> enabled s i \<longrightarrow>
        mix_channels mem s = fold (run_channel mem) (filter (\<lambda>j. j \<noteq> i) [0..<16]) (s, 0, 0))"
proof -
  let ?f = "format_of (soundCnt s i)"
  let ?tt = "tick_timer i s"
  have tick: "enabled s' i = enabled (reload_loop mem i ?f ?tt) i
      \<and> soundCurrent s' i = soundCurrent (reload_loop mem i ?f ?tt) i"
    if "i < 16" "enabled s i" "soundTimers s i + 512 < 512" "runSample mem lim s = Some s'"
  proof -
    from run_channel_chan[OF that(1,2,4)] that(3)
    have "chan_of s' i = chan_of (reload_loop mem i ?f ?tt) i"
      by simp
    from chan_ofD(1,2)[OF this] show ?thesis
      by (simp add: enabled_def)
  qed
  have m: "drop_bit 27 (soundCnt ?tt i AND 0x18000000) = drop_bit 27 (soundCnt s i AND 0x18000000)"
    by (simp only: tick_timer_regs)
  have a: "\<not> enabled s' i"
    if h: "i < 16" "enabled s i" "soundTimers s i + 512 < 512" "runSample mem lim s = Some s'"
      and f: "?f \<noteq> 3" and md: "drop_bit 27 (soundCnt s i AND 0x18000000) \<noteq> 1"
      and o: "\<forall>j<k. reload_overflow i ((reload_body mem i ?f ^^ j) ?tt)"
      and e: "soundCurrent ((reload_body mem i ?f ^^ Suc k) ?tt) i = end_point s i"
  proof -
    let ?u = "(reload_body mem i ?f ^^ k) ?tt"
    have skip: "reload_loop mem i ?f ?tt = reload_loop mem i ?f ?u"
      using o by (intro reload_loop_skip) simp
    have mu: "drop_bit 27 (soundCnt ?u i AND 0x18000000) \<noteq> 1"
      using md by (simp only: passes_keep m) simp
    have eu: "soundCurrent (reload_body mem i ?f ?u) i = end_point ?u i"
      using e by (simp add: passes_keep tick_timer_regs)
    from reload_body_one_shot[OF f mu eu] have "\<not> enabled (reload_loop mem i ?f ?u) i"
      by (rule disabled_after_pass)
    with skip tick[OF h] show ?thesis
      by simp
  qed
  have b: "\<not> enabled s' i"
    if h: "i < 16" "enabled s i" "soundTimers s i + 512 < 512" "runSample mem lim s = Some s'"
      and f: "?f \<noteq> 3" and md: "drop_bit 27 (soundCnt s i AND 0x18000000) \<noteq> 1"
      and e: "soundCurrent s' i = end_point s i"
  proof -
    have mt: "drop_bit 27 (soundCnt ?tt i AND 0x18000000) \<noteq> 1"
      using md by (simp only: m) simp
    have "soundCurrent (reload_loop mem i ?f ?tt) i = end_point ?tt i"
      using e tick[OF h] by (simp add: tick_timer_regs)
    from loop_end_one_shot[OF f mt this] tick[OF h] show ?thesis
      by simp
  qed
  have c: "\<not> enabled (reload_body mem i format s) i"
    if "format \<noteq> 3" "drop_bit 27 (soundCnt s i AND 0x18000000) \<noteq> 1"
      "soundCurrent (reload_body mem i format s) i = end_point s i"
    using that by (rule reload_body_one_shot)
  have d: "\<not> enabled s i \<Longrightarrow> \<not> enabled (reload_loop mem j format s) i"
    by (auto dest: enabled_reload_loop)
  have e: "\<not> enabled s i \<Longrightarrow> runSamples mem lim n s = Some s'' \<Longrightarrow> \<not> enabled s'' i"
    by (auto dest: enabled_runSamples)
  have g: "\<not> enabled s i \<Longrightarrow> run_channel mem i (s, l, r) = (s, l, r)"
    by (rule run_channel_disabled)
  have k: "\<not> enabled s i \<Longrightarrow>
      mix_channels mem s = fold (run_channel mem) (filter (\<lambda>j. j \<noteq> i) [0..<16]) (s, 0, 0)"
    unfolding mix_channels_def by (rule fold_skip_disabled) simp
  from a b c d e g k show ?thesis
    by blast
qed

theorem one_shot_end_disables_witness:
  "(0 :: nat) < 16 \<and> enabled one_shot_mixed 0
   \<and> format_of (soundCnt one_shot_mixed 0) = 2
   \<and> drop_bit 27 (soundCnt one_shot_mixed 0 AND 0x18000000) = 2
   \<and> soundTimers one_shot_mixed 0 + 512 < 512
   \<and> soundCurrent ((reload_body adpcm_data 0 2 ^^ Suc 0) (tick_timer 0 one_shot_mixed)) 0
        = end_point one_shot_mixed 0
   \<and> snd (mix_channels adpcm_data one_shot_mixed) = (- 3597696, - 3597696)
   \<and> runSample adpcm_data False one_shot_mixed
        = Some (fst (mix_channels adpcm_data one_shot_mixed))
   \<and> soundCurrent (fst (mix_channels adpcm_data one_shot_mixed)) 0 = end_point one_shot_mixed 0
   \<and> \<not> enabled (fst (mix_channels adpcm_data one_shot_mixed)) 0
   \<and> mix_channel (soundCnt (fst (mix_channels adpcm_data one_shot_mixed)) 0)
        (read_data adpcm_data 0 2 (fst (mix_channels adpcm_data one_shot_mixed)))
        = (597376, 597376)
   \<and> enabled (fst (mix_channels adpcm_data one_shot_mixed)) 8
   \<and> snd (mix_channels adpcm_data (fst (mix_channels adpcm_data one_shot_mixed)))
        = (4194176, 4194176)
   \<and> runSamples adpcm_data False 3 (fst (mix_channels adpcm_data one_shot_mixed)) \<noteq> None
   \<and> \<not> enabled (the (runSamples adpcm_data False 3
          (fst (mix_channels adpcm_data one_shot_mixed)))) 0
   \<and> run_channel adpcm_data 0 (fst (mix_channels adpcm_data one_shot_mixed), 5, 7)
        = (fst (mix_channels adpcm_data one_shot_mixed), 5, 7)
   \<and> mix_channels adpcm_data (fst (mix_channels adpcm_data one_shot_mixed))
        = fold (run_channel adpcm_data) (filter (\<lambda>j. j \<noteq> 0) [0..<16])
            (fst (mix_channels adpcm_data one_shot_mixed), 0, 0)"
proof -
  let ?s = one_shot_mixed
  let ?s' = "fst (mix_channels adpcm_data ?s)"
  have en: "enabled ?s 0"
    by (simp add: enabled_def one_shot_mixed_fields BIT_def)
  have fm: "format_of (soundCnt ?s 0) = 2"
    by (simp add: format_of_def one_shot_mixed_fields)
  have md: "drop_bit 27 (soundCnt ?s 0 AND 0x18000000) = 2"
    by (simp add: one_shot_mixed_fields)
  have w: "soundTimers ?s 0 + 512 < 512"
    by (simp add: one_shot_mixed_fields)
  have ep: "end_point ?s 0 = 4"
    by (simp add: end_point_def one_shot_mixed_fields)
  have cur: "soundCurrent ((reload_body adpcm_data 0 2 ^^ Suc 0) (tick_timer 0 ?s)) 0 = 4"
    by (simp add: one_shot_mixed_pass)
  have run: "runSample adpcm_data False ?s = Some ?s'"
    by (simp add: runSample_unfold one_shot_mixed_fields)
  note nx = one_shot_mixed_next[OF run]
  have "chan_of ?s' 0 = chan_of (fst (run_channel adpcm_data 0 (?s, 0, 0))) 0"
    using run by (intro runSample_channel) simp_all
  from chan_ofD(2)[OF this] have cur': "soundCurrent ?s' 0 = 4"
    by (simp add: one_shot_mixed_pass)
  note inst = one_shot_end_disables[of 0 ?s 0 adpcm_data False ?s']
  from inst[THEN conjunct1] en fm md w cur ep run
  have off: "\<not> enabled ?s' 0"
    by simp
  from inst[THEN conjunct2, THEN conjunct1] en fm md w cur' ep run
  have off': "\<not> enabled ?s' 0"
    by simp
  have on8: "enabled ?s' 8"
    by (simp add: enabled_def nx BIT_def)
  have others: "\<not> enabled ?s' j" if "j \<noteq> 8" for j
    using off nx(9)[of j] that by (cases "j = 0") simp_all
  have "pulse_state ?s'"
    unfolding pulse_state_def using others by (simp add: nx(3-8))
  from pulse_tick(1)[OF this, of adpcm_data]
  have second: "snd (mix_channels adpcm_data ?s') = (4194176, 4194176)"
    by (simp add: nx)
  have silent: "mix_channel (soundCnt ?s' 0) (read_data adpcm_data 0 2 ?s') = (597376, 597376)"
    by (simp add: read_data_def nx one_shot_mix)
  from runSamples_False_total[of adpcm_data 3 ?s'] obtain s'' where
    r3: "runSamples adpcm_data False 3 ?s' = Some s''"
    by blast
  note inst2 = one_shot_end_disables[of 0 ?s' 0 adpcm_data False _ 0 _ 3 s'' 5 7]
  from inst2 off r3 have rest: "\<not> enabled s'' 0"
    "run_channel adpcm_data 0 (?s', 5, 7) = (?s', 5, 7)"
    "mix_channels adpcm_data ?s'
       = fold (run_channel adpcm_data) (filter (\<lambda>j. j \<noteq> 0) [0..<16]) (?s', 0, 0)"
    by blast+
  from en fm md w cur cur' ep run off on8 second silent r3 rest one_shot_mixed_first
  show ?thesis
    by simp
qed

text \<open>
  C7. For every state of the engine, the two samples of a runSample tick are computed from
  the left and right sums of the mixed channels as follows: the sum scaled by the master
  volume and shifted right by 21 has the sound bias added, the result is clipped, which is
  the clamp max 0 (min 0x3FF y) to [0, 0x3FF], and the clipped value minus 0x200 is shifted
  left by 5, that is multiplied by 32. So both samples lie in [-0x4000, 0x3FE0]. The frame
  of the tick holds them as its two signed 16-bit halves, runSample stores this frame at
  the buffer pointer, and the two halves of the stored word are the two samples.
\<close>

theorem runSample_output_clipped:
  "tick_samples mem s =
     (push_bit 5 (clip (drop_bit 21 (master_volume (fst (snd (mix_channels mem s)))
                     (masterVol_of (mainSoundCnt s))) + uint (soundBias s)) - 0x200),
      push_bit 5 (clip (drop_bit 21 (master_volume (snd (snd (mix_channels mem s)))
                     (masterVol_of (mainSoundCnt s))) + uint (soundBias s)) - 0x200))
   \<and> clip y = max 0 (min 0x3FF y)
   \<and> push_bit 5 (clip y - 0x200) = (clip y - 0x200) * 32
   \<and> - 0x4000 \<le> fst (tick_samples mem s) \<and> fst (tick_samples mem s) \<le> 0x3FE0
   \<and> - 0x4000 \<le> snd (tick_samples mem s) \<and> snd (tick_samples mem s) \<le> 0x3FE0
   \<and> tick_frame mem s = pack_frame (fst (tick_samples mem s)) (snd (tick_samples mem s))
   \<and> sint (ucast (tick_frame mem s) :: u16) = fst (tick_samples mem s)
   \<and> sint (ucast (drop_bit 16 (tick_frame mem s)) :: u16) = snd (tick_samples mem s)
   \<and> (bufferSize s \<noteq> 0 \<and> runSample mem lim s = Some s' \<longrightarrow>
        (if bufferPointer s + 1 = bufferSize s then bufferOut s' else bufferIn s')
          = (bufferIn s)[bufferPointer s := tick_frame mem s])
   \<and> (bufferSize s \<noteq> 0 \<and> bufferPointer s < length (bufferIn s)
        \<and> runSample mem lim s = Some s' \<longrightarrow>
        sint (ucast ((if bufferPointer s + 1 = bufferSize s then bufferOut s' else bufferIn s')
                       ! bufferPointer s) :: u16)
          = fst (tick_samples mem s)
        \<and> sint (ucast (drop_bit 16
                   ((if bufferPointer s + 1 = bufferSize s then bufferOut s' else bufferIn s')
                       ! bufferPointer s)) :: u16)
          = snd (tick_samples mem s))"
proof -
  have a: "tick_samples mem s =
     (push_bit 5 (clip (drop_bit 21 (master_volume (fst (snd (mix_channels mem s)))
                     (masterVol_of (mainSoundCnt s))) + uint (soundBias s)) - 0x200),
      push_bit 5 (clip (drop_bit 21 (master_volume (snd (snd (mix_channels mem s)))
                     (masterVol_of (mainSoundCnt s))) + uint (soundBias s)) - 0x200))"
    by (simp add: tick_samples_def split_beta mixed_static output_sample_unfold)
  have b: "clip y = max 0 (min 0x3FF y)"
    by (simp add: clip_def Let_def)
  have c: "push_bit 5 (clip y - 0x200) = (clip y - 0x200) * 32"
    by (simp add: push_bit_eq_mult)
  have d: "tick_frame mem s = pack_frame (fst (tick_samples mem s)) (snd (tick_samples mem s))"
    by (simp add: tick_frame_def split_beta)
  have e: "(if bufferPointer s + 1 = bufferSize s then bufferOut s' else bufferIn s')
          = (bufferIn s)[bufferPointer s := tick_frame mem s]"
    if "bufferSize s \<noteq> 0" "runSample mem lim s = Some s'"
    using runSample_written[OF that] by simp
  have f: "(if bufferPointer s + 1 = bufferSize s then bufferOut s' else bufferIn s')
       ! bufferPointer s = tick_frame mem s"
    if "bufferSize s \<noteq> 0" "bufferPointer s < length (bufferIn s)"
      "runSample mem lim s = Some s'"
    unfolding e[OF that(1,3)] using that(2) by simp
  show ?thesis
    using a b c d e f tick_samples_range[of mem s] tick_frame_halves[of mem s]
    by (simp only:) simp
qed

theorem runSample_output_clipped_witness:
  "bufferSize pulse_on \<noteq> 0 \<and> bufferPointer pulse_on < length (bufferIn pulse_on)
   \<and> snd (mix_channels header_1234 pulse_on) = (- 4194176, - 4194176)
   \<and> drop_bit 21 (master_volume (- 4194176) (masterVol_of (mainSoundCnt pulse_on)))
       + uint (soundBias pulse_on) = - 128
   \<and> clip (- 128) = 0
   \<and> tick_samples header_1234 pulse_on = (- 0x4000, - 0x4000)
   \<and> tick_frame header_1234 pulse_on = 0xC000C000
   \<and> (\<exists>s'. runSample header_1234 True pulse_on = Some s'
        \<and> bufferIn s' = [0xC000C000, 0]
        \<and> sint (ucast (bufferIn s' ! 0) :: u16) = - 0x4000
        \<and> sint (ucast (drop_bit 16 (bufferIn s' ! 0)) :: u16) = - 0x4000)"
proof -
  from runSample_keep[of pulse_on header_1234 True] obtain s' where
    r: "runSample header_1234 True pulse_on = Some s'"
    by (auto simp add: pulse_on_fields)
  have m: "snd (mix_channels header_1234 pulse_on) = (- 4194176, - 4194176)"
    by (simp add: pulse_tick(1)[OF pulse_on_fields(1)] pulse_on_fields)
  have t: "tick_samples header_1234 pulse_on = (- 0x4000, - 0x4000)"
    by (simp add: pulse_tick(2)[OF pulse_on_fields(1)] pulse_on_fields)
  have f: "tick_frame header_1234 pulse_on = 0xC000C000"
    by (simp add: pulse_tick(3)[OF pulse_on_fields(1)] pulse_on_fields)
  have o: "drop_bit 21 (master_volume (- 4194176) (masterVol_of (mainSoundCnt pulse_on)))
       + uint (soundBias pulse_on) = - 128"
    unfolding pulse_on_fields(7,8) by (rule pulse_output(1))
  note inst = runSample_output_clipped[of header_1234 pulse_on "- 128" True s']
  have w: "bufferIn s' = [0xC000C000, 0]"
    using inst r by (simp add: pulse_on_fields f)
  have h: "sint (ucast (bufferIn s' ! 0) :: u16) = - 0x4000
      \<and> sint (ucast (drop_bit 16 (bufferIn s' ! 0)) :: u16) = - 0x4000"
    using inst r by (simp add: pulse_on_fields t f)
  have c: "clip (- 128) = 0"
    using inst by simp
  from r m t f o w h c show ?thesis
    by (simp add: pulse_on_fields)
qed

text \<open>
  C4. Starting with an empty in buffer of capacity \<open>n > 0\<close> (and, when the frame rate is
  limited, with the ready flag clear, so that the producer does not wait), \<open>n\<close> calls of
  runSample return, swap the buffers and set the ready flag; the call getSamples(n) that
  follows returns exactly the \<open>n\<close> frames of these ticks, in order, and clears the flag.
  Every frame is the word (right << 16) | (left & 0xFFFF) of the two samples of its tick.
\<close>

theorem buffer_round_trip:
  assumes "0 < n" and "bufferSize s = n" and "length (bufferIn s) = n"
    and "bufferPointer s = 0" and "lim \<longrightarrow> \<not> ready s"
  shows "\<exists>s'. runSamples mem lim n s = Some s' \<and> ready s'
      \<and> getSamples newIn newOut polls (int n) s'
           = Inr (produced_frames mem lim n s, s'\<lparr>ready := False\<rparr>)
      \<and> length (produced_frames mem lim n s) = n
      \<and> tick_frame mem t
           = word_of_int (push_bit 16 (snd (tick_samples mem t))
               OR (fst (tick_samples mem t) AND 0xFFFF))"
proof -
  from fill_buffer[of s n n lim mem] assms obtain s' where
    r: "runSamples mem lim n s = Some s'" "ready s'" "bufferSize s' = n"
      "bufferOut s' = produced_frames mem lim n s"
    by auto
  have l: "length (produced_frames mem lim n s) = n"
    using r(1) by (rule length_produced_frames)
  have g: "getSamples newIn newOut polls (int n) s'
      = Inr (produced_frames mem lim n s, s'\<lparr>ready := False\<rparr>)"
    using r l by (simp add: getSamples_def Let_def init_buffers_def await_ready_eq)
  have f: "tick_frame mem t
      = word_of_int (push_bit 16 (snd (tick_samples mem t)) OR (fst (tick_samples mem t) AND 0xFFFF))"
    by (simp add: tick_frame_def pack_frame_def split_beta)
  from r g l f show ?thesis
    by blast
qed

theorem buffer_round_trip_witness:
  "(0 :: nat) < 2 \<and> bufferSize pulse_on = 2 \<and> length (bufferIn pulse_on) = 2
   \<and> bufferPointer pulse_on = 0 \<and> \<not> ready pulse_on
   \<and> produced_frames header_1234 True 2 pulse_on = [0xC000C000, 0xEFE0EFE0]
   \<and> (\<exists>s'. runSamples header_1234 True 2 pulse_on = Some s' \<and> ready s'
        \<and> getSamples (\<lambda>_. 0) (\<lambda>_. 0) 0 2 s'
             = Inr ([0xC000C000, 0xEFE0EFE0], s'\<lparr>ready := False\<rparr>))"
proof -
  from buffer_round_trip[of 2 pulse_on True header_1234 "\<lambda>_. 0" "\<lambda>_. 0" 0 pulse_on]
    pulse_on_frames[of header_1234 True]
  show ?thesis
    by (auto simp add: pulse_on_fields)
qed

text \<open>
  C2. The claim as stated fails: a PCM8 channel that is enabled after the reload period
  0xFFFF was written starts with its timer at the period, so the timer wraps in every
  tick and the reload loop runs 512 times in each of them. After 128 ticks of runSample
  the current address has moved by 65536, and after the first tick already by 512.
\<close>

theorem pcm8_period_counterexample:
  "enabled pcm8_fast 0 \<and> format_of (soundCnt pcm8_fast 0) = 0
   \<and> soundTmr pcm8_fast 0 = 0xFFFF \<and> soundCurrent pcm8_fast 0 = 0
   \<and> runSamples header_1234 False 128 pcm8_fast \<noteq> None
   \<and> soundCurrent (the (runSamples header_1234 False 128 pcm8_fast)) 0 = 0x10000
   \<and> soundCurrent (the (runSamples header_1234 False 1 pcm8_fast)) 0 = 0x200"
proof -
  from runSamples_False_total[of header_1234 128 pcm8_fast] obtain a where
    a: "runSamples header_1234 False 128 pcm8_fast = Some a"
    by blast
  from runSamples_False_total[of header_1234 1 pcm8_fast] obtain b where
    b: "runSamples header_1234 False 1 pcm8_fast = Some b"
    by blast
  have "unat (soundCurrent a 0) = unat (soundCurrent pcm8_fast 0) + 512 * 128"
    by (rule fast_ticks[OF _ _ _ _ _ _ a]) (simp_all add: pcm8_fast_fields)
  then have "unat (soundCurrent a 0) = unat (0x10000 :: u32)"
    by (simp add: pcm8_fast_fields)
  then have 1: "soundCurrent a 0 = 0x10000"
    by (simp only: word_unat_eq_iff)
  have "unat (soundCurrent b 0) = unat (soundCurrent pcm8_fast 0) + 512 * 1"
    by (rule fast_ticks[OF _ _ _ _ _ _ b]) (simp_all add: pcm8_fast_fields)
  then have "unat (soundCurrent b 0) = unat (0x200 :: u32)"
    by (simp add: pcm8_fast_fields)
  then have 2: "soundCurrent b 0 = 0x200"
    by (simp only: word_unat_eq_iff)
  from a b 1 2 show ?thesis
    by (simp add: pcm8_fast_fields)
qed

text \<open>
  C2, amended. For an enabled PCM8 channel with the reload period 0xFFFF whose timer is 0:
  128 ticks of runSample return; none of the first 127 ticks moves the current address,
  the timer being 512 times the number of ticks; the 128th tick makes the timer wrap and
  runs the body of the reload loop exactly once. So after 128 ticks the timer is 0xFFFF
  and the current address is one more than at the start, or the loop point when that
  address is the end of the data of a looping sound.
\<close>

theorem pcm8_period_one_advance:
  assumes "i < 16" and "enabled s i" and "format_of (soundCnt s i) = 0"
    and "soundTmr s i = 0xFFFF" and "soundTimers s i = 0"
  shows "(\<exists>s'. runSamples mem False 128 s = Some s')
    \<and> (k < 128 \<and> runSamples mem lim k s = Some u \<longrightarrow>
         soundCurrent u i = soundCurrent s i \<and> unat (soundTimers u i) = 512 * k
         \<and> soundCnt u i = soundCnt s i)
    \<and> (runSamples mem lim 127 s = Some t \<and> runSample mem lim t = Some t' \<longrightarrow>
         chan_of t' i = chan_of (reload_body mem i 0 (tick_timer i t)) i)
    \<and> (runSamples mem lim 128 s = Some s' \<longrightarrow>
         soundTimers s' i = 0xFFFF
         \<and> soundCurrent s' i =
             (if soundCurrent s i + 1 = end_point s i
                 \<and> drop_bit 27 (soundCnt s i AND 0x18000000) = 1
              then loop_point s i else soundCurrent s i + 1))"
proof -
  have idle: "soundCurrent u i = soundCurrent s i \<and> unat (soundTimers u i) = 512 * k
      \<and> soundCnt u i = soundCnt s i \<and> soundTmr u = soundTmr s
      \<and> end_point u i = end_point s i \<and> loop_point u i = loop_point s i"
    if "k < 128" "runSamples mem lim k s = Some u" for k u
  proof -
    have "unat (soundTimers s i) + 512 * k < 65536"
      using that(1) by (simp add: assms(5))
    from idle_ticks[OF assms(1,2) this that(2)] show ?thesis
      by (simp add: assms(5))
  qed
  have last: "chan_of t' i = chan_of (reload_body mem i 0 (tick_timer i t)) i"
    if "runSamples mem lim 127 s = Some t" "runSample mem lim t = Some t'" for t t'
  proof -
    note f = idle[OF _ that(1)]
    have "unat (soundTimers t i) = unat (0xFE00 :: u16)"
      using f by simp
    then have tm: "soundTimers t i = 0xFE00"
      by (simp only: word_unat_eq_iff)
    have en: "enabled t i"
      using assms(2) f by (simp add: enabled_bit)
    show ?thesis
      using f by (intro reload_tick[OF assms(1) en _ _ tm that(2)]) (simp_all add: assms)
  qed
  have fin: "soundTimers s' i = 0xFFFF
         \<and> soundCurrent s' i =
             (if soundCurrent s i + 1 = end_point s i
                 \<and> drop_bit 27 (soundCnt s i AND 0x18000000) = 1
              then loop_point s i else soundCurrent s i + 1)"
    if "runSamples mem lim 128 s = Some s'" for s'
  proof -
    from that runSamples_add[of mem lim 127 1 s] obtain t where
      t: "runSamples mem lim 127 s = Some t" and r: "runSample mem lim t = Some s'"
      by (auto split: option.splits)
    note f = idle[OF _ t]
    have "unat (soundTimers t i) = unat (0xFE00 :: u16)"
      using f by simp
    then have tm: "soundTimers t i = 0xFE00"
      by (simp only: word_unat_eq_iff)
    note c = chan_ofD[OF last[OF t r]]
    have lp: "loop_point (tick_timer i t) i = loop_point t i"
      by (simp add: loop_point_def tick_timer_def)
    show ?thesis
      using f by (simp add: c(2,3) pcm8_body tick_timer_regs tm assms(4) lp)
  qed
  from runSamples_False_total[of mem 128 s] idle[of k u] last[of t t'] fin[of s']
  show ?thesis
    by blast
qed

theorem pcm8_period_one_advance_witness:
  "(0 :: nat) < 16 \<and> enabled pcm8_slow 0 \<and> format_of (soundCnt pcm8_slow 0) = 0
   \<and> soundTmr pcm8_slow 0 = 0xFFFF \<and> soundTimers pcm8_slow 0 = 0
   \<and> soundCurrent pcm8_slow 0 = 0
   \<and> (\<exists>t s'. runSamples header_1234 False 127 pcm8_slow = Some t
        \<and> soundCurrent t 0 = 0 \<and> unat (soundTimers t 0) = 0xFE00
        \<and> runSample header_1234 False t = Some s'
        \<and> chan_of s' 0 = chan_of (reload_body header_1234 0 0 (tick_timer 0 t)) 0
        \<and> runSamples header_1234 False 128 pcm8_slow = Some s'
        \<and> soundCurrent s' 0 = 1 \<and> soundTimers s' 0 = 0xFFFF)"
proof -
  from runSamples_False_total[of header_1234 127 pcm8_slow] obtain t where
    t: "runSamples header_1234 False 127 pcm8_slow = Some t"
    by blast
  from runSample_False_total[of header_1234 t] obtain s' where
    r: "runSample header_1234 False t = Some s'"
    by blast
  have s: "runSamples header_1234 False 128 pcm8_slow = Some s'"
    using runSamples_add[of header_1234 False 127 1 pcm8_slow] t r by simp
  note inst = pcm8_period_one_advance[where i = 0 and s = pcm8_slow and k = 127
      and mem = header_1234 and lim = False and u = t and t = t and t' = s' and s' = s',
      OF _ pcm8_slow_fields(1-4)]
  have 1: "soundCurrent t 0 = 0 \<and> unat (soundTimers t 0) = 0xFE00"
    using inst t by (simp add: pcm8_slow_fields)
  have 2: "soundCurrent s' 0 = 1 \<and> soundTimers s' 0 = 0xFFFF"
    using inst s by (simp add: pcm8_slow_fields)
  have 3: "chan_of s' 0 = chan_of (reload_body header_1234 0 0 (tick_timer 0 t)) 0"
    using inst t r by simp
  from t r s 1 2 3 show ?thesis
    by (auto simp add: pcm8_slow_fields)
qed

end
